(* ===== verification/Prelude.thy ===== *)
theory Prelude
  imports Main "HOL-Library.Word" "HOL-Library.Sublist" "HOL-Library.Code_Target_Nat"
begin

text \<open>
  Shared vocabulary of the development: results as sums, machine integers, positions in a list,
  and the collections that the component proofs put into the simplifier. Everything here is
  independent of the program.

  Rust's \<open>Result<T, E>\<close> is the sum \<open>'e + 'a\<close>, written with the constructors' Rust names through
  the abbreviations \<open>Ok\<close> and \<open>Err\<close>. A \<open>panic!\<close> (an \<open>expect\<close> that fails) is \<open>None\<close> in an
  \<open>option\<close> around the result of the function that can panic.
\<close>

named_theorems rust_str \<open>characterisations of the string operations the program calls\<close>
named_theorems byte_facts \<open>facts about sets of bytes of strings built by the program\<close>
named_theorems outcome_simps \<open>evaluation of the result and option combinators\<close>

section \<open>Results\<close>

type_synonym ('e, 'a) res = "'e + 'a"

abbreviation Ok :: "'a \<Rightarrow> ('e, 'a) res" where "Ok \<equiv> Inr"
abbreviation Err :: "'e \<Rightarrow> ('e, 'a) res" where "Err \<equiv> Inl"

text \<open>The operator \<open>?\<close>: go on with the value of an \<open>Ok\<close>, return early with an \<open>Err\<close>.\<close>

definition and_then :: "('e, 'a) res \<Rightarrow> ('a \<Rightarrow> ('e, 'b) res) \<Rightarrow> ('e, 'b) res" where
  "and_then r f = (case r of Inl e \<Rightarrow> Inl e | Inr a \<Rightarrow> f a)"

definition map_err :: "('e \<Rightarrow> 'f) \<Rightarrow> ('e, 'a) res \<Rightarrow> ('f, 'a) res" where
  "map_err g r = (case r of Inl e \<Rightarrow> Inl (g e) | Inr a \<Rightarrow> Inr a)"

definition ok_or :: "'e \<Rightarrow> 'a option \<Rightarrow> ('e, 'a) res" where
  "ok_or e m = (case m of None \<Rightarrow> Inl e | Some a \<Rightarrow> Inr a)"

definition is_ok :: "('e, 'a) res \<Rightarrow> bool" where
  "is_ok r = (case r of Inl _ \<Rightarrow> False | Inr _ \<Rightarrow> True)"

lemma and_then_simps [simp, outcome_simps]:
  "and_then (Err e) f = Err e"
  "and_then (Ok a) f = f a"
  by (simp_all add: and_then_def)

lemma and_then_Ok_iff: "and_then r f = Ok b \<longleftrightarrow> (\<exists>a. r = Ok a \<and> f a = Ok b)"
  by (cases r) auto

lemma and_then_Err_iff:
  "and_then r f = Err e \<longleftrightarrow> r = Err e \<or> (\<exists>a. r = Ok a \<and> f a = Err e)"
  by (cases r) auto

lemma map_err_simps [simp, outcome_simps]:
  "map_err g (Err e) = Err (g e)"
  "map_err g (Ok a) = Ok a"
  by (simp_all add: map_err_def)

lemma map_err_Ok_iff [simp]: "map_err g r = Ok a \<longleftrightarrow> r = Ok a"
  by (cases r) auto

lemma map_err_Err_iff: "map_err g r = Err e \<longleftrightarrow> (\<exists>e'. r = Err e' \<and> e = g e')"
  by (cases r) auto

lemma ok_or_simps [simp, outcome_simps]:
  "ok_or e None = Err e"
  "ok_or e (Some a) = Ok a"
  by (simp_all add: ok_or_def)

lemma is_ok_simps [simp, outcome_simps]:
  "\<not> is_ok (Err e)"
  "is_ok (Ok a)"
  by (simp_all add: is_ok_def)

lemma is_ok_iff: "is_ok r \<longleftrightarrow> (\<exists>a. r = Ok a)"
  by (cases r) auto

section \<open>Machine integers\<close>

type_synonym u8 = "8 word"
type_synonym u16 = "16 word"
type_synonym u32 = "32 word"
type_synonym u64 = "64 word"

lemma unat_of_nat_u32: "n < 2 ^ 32 \<Longrightarrow> unat (of_nat n :: u32) = n"
  by (simp add: unsigned_of_nat take_bit_nat_eq_self)

section \<open>Positions in a list\<close>

text \<open>\<open>Iterator::position\<close>: the index of the first element that satisfies the predicate.\<close>

fun position :: "('a \<Rightarrow> bool) \<Rightarrow> 'a list \<Rightarrow> nat option" where
  "position p [] = None"
| "position p (x # xs) = (if p x then Some 0 else map_option Suc (position p xs))"

lemma position_None: "position p xs = None \<longleftrightarrow> (\<forall>x \<in> set xs. \<not> p x)"
  by (induction xs) auto

lemma position_Some:
  "position p xs = Some i \<longleftrightarrow>
     i < length xs \<and> p (xs ! i) \<and> (\<forall>j < i. \<not> p (xs ! j))"
proof (induction xs arbitrary: i)
  case Nil
  show ?case by simp
next
  case (Cons x xs)
  show ?case
  proof (cases i)
    case 0
    then show ?thesis by simp
  next
    case (Suc k)
    then show ?thesis
      by (auto simp: Cons.IH less_Suc_eq_0_disj)
  qed
qed

lemma position_less: "position p xs = Some i \<Longrightarrow> i < length xs"
  by (simp add: position_Some)

section \<open>Folds that stop at the first error\<close>

text \<open>
  \<open>for x in xs { f(x)?; }\<close> over a mutable state: each step returns the next state or an error,
  and the first error ends the loop.
\<close>

fun try_fold :: "('s \<Rightarrow> 'a \<Rightarrow> ('e, 's) res) \<Rightarrow> 's \<Rightarrow> 'a list \<Rightarrow> ('e, 's) res" where
  "try_fold f s [] = Ok s"
| "try_fold f s (x # xs) = and_then (f s x) (\<lambda>s'. try_fold f s' xs)"

text \<open>\<open>Iterator::collect\<close> into a \<open>Result\<close>: all values, or the first error.\<close>

fun collect_results :: "('a \<Rightarrow> ('e, 'b) res) \<Rightarrow> 'a list \<Rightarrow> ('e, 'b list) res" where
  "collect_results f [] = Ok []"
| "collect_results f (x # xs) =
     and_then (f x) (\<lambda>y. and_then (collect_results f xs) (\<lambda>ys. Ok (y # ys)))"

lemma try_fold_append:
  "try_fold f s (xs @ ys) = and_then (try_fold f s xs) (\<lambda>s'. try_fold f s' ys)"
proof (induction xs arbitrary: s)
  case Nil
  show ?case by simp
next
  case (Cons x xs)
  then show ?case by (cases "f s x") auto
qed

lemma try_fold_invariant:
  assumes "\<And>s x s'. x \<in> set xs \<Longrightarrow> P s \<Longrightarrow> f s x = Ok s' \<Longrightarrow> P s'"
    and "P s" and "try_fold f s xs = Ok s'"
  shows "P s'"
  using assms
proof (induction xs arbitrary: s)
  case Nil
  then show ?case by simp
next
  case (Cons x xs)
  from Cons.prems(3) obtain t where t: "f s x = Ok t" and rest: "try_fold f t xs = Ok s'"
    by (auto simp: and_then_Ok_iff)
  from Cons.prems(1) [of x s t] Cons.prems(2) t have "P t" by simp
  then show ?case using Cons.IH Cons.prems(1) rest by (meson list.set_intros(2))
qed

text \<open>The first failing element is the one whose error the loop returns.\<close>

lemma try_fold_Err_iff:
  "try_fold f s xs = Err e \<longleftrightarrow>
     (\<exists>ys x zs t. xs = ys @ x # zs \<and> try_fold f s ys = Ok t \<and> f t x = Err e)"
proof (induction xs arbitrary: s)
  case Nil
  show ?case by simp
next
  case (Cons x xs)
  show ?case
  proof (cases "f s x")
    case (Inl e')
    show ?thesis
    proof
      assume "try_fold f s (x # xs) = Err e"
      with Inl have "x # xs = [] @ x # xs \<and> try_fold f s [] = Ok s \<and> f s x = Err e" by simp
      then show "\<exists>ys y zs t. x # xs = ys @ y # zs \<and> try_fold f s ys = Ok t \<and> f t y = Err e"
        by blast
    next
      assume "\<exists>ys y zs t. x # xs = ys @ y # zs \<and> try_fold f s ys = Ok t \<and> f t y = Err e"
      then obtain ys y zs t
        where "x # xs = ys @ y # zs" "try_fold f s ys = Ok t" "f t y = Err e" by blast
      with Inl show "try_fold f s (x # xs) = Err e" by (cases ys) auto
    qed
  next
    case (Inr t)
    have "(\<exists>ys y zs u. x # xs = ys @ y # zs \<and> try_fold f s ys = Ok u \<and> f u y = Err e) \<longleftrightarrow>
          (\<exists>ys y zs u. xs = ys @ y # zs \<and> try_fold f t ys = Ok u \<and> f u y = Err e)"
      (is "?l \<longleftrightarrow> ?r")
    proof
      assume ?l
      then obtain ys y zs u
        where "x # xs = ys @ y # zs" "try_fold f s ys = Ok u" "f u y = Err e" by blast
      with Inr show ?r by (cases ys) auto
    next
      assume ?r
      then obtain ys y zs u
        where *: "xs = ys @ y # zs" "try_fold f t ys = Ok u" "f u y = Err e" by blast
      with Inr have "x # xs = (x # ys) @ y # zs \<and> try_fold f s (x # ys) = Ok u" by simp
      with * show ?l by blast
    qed
    with Inr Cons.IH show ?thesis by simp
  qed
qed

section \<open>Sets of list elements\<close>

lemma list_all_append_iff [byte_facts]:
  "list_all p (xs @ ys) \<longleftrightarrow> list_all p xs \<and> list_all p ys"
  by simp

lemma dropWhile_keep: "xs = [] \<or> \<not> p (hd xs) \<Longrightarrow> dropWhile p xs = xs"
  by (cases xs) auto

lemma set_dropWhile_subset: "set (dropWhile p xs) \<subseteq> set xs"
  by (auto dest: set_dropWhileD)

lemma find_append:
  "List.find P (xs @ ys) = (case List.find P xs of None \<Rightarrow> List.find P ys | Some x \<Rightarrow> Some x)"
  by (induction xs) auto

text \<open>A property that each step gains exactly by its item.\<close>

lemma try_fold_gains:
  assumes "\<And>s x s'. x \<in> set xs \<Longrightarrow> f s x = Ok s' \<Longrightarrow> P s' \<longleftrightarrow> P s \<or> Q x"
    and "try_fold f s xs = Ok s'"
  shows "P s' \<longleftrightarrow> P s \<or> (\<exists>x \<in> set xs. Q x)"
  using assms
proof (induction xs arbitrary: s)
  case Nil
  then show ?case by simp
next
  case (Cons x xs)
  then obtain s1 where "f s x = Ok s1" and rest: "try_fold f s1 xs = Ok s'"
    by (auto simp: and_then_Ok_iff)
  with Cons.prems(1) have "P s1 \<longleftrightarrow> P s \<or> Q x" by simp
  moreover have "P s' \<longleftrightarrow> P s1 \<or> (\<exists>x \<in> set xs. Q x)"
    using Cons.IH [OF _ rest] Cons.prems(1) by simp
  ultimately show ?case by auto
qed

end
