(* ===== verification/Rust_Str.thy ===== *)
theory Rust_Str
  imports Prelude
begin

text \<open>
  The operations of Rust's \<open>str\<close> that the program calls, on byte strings.

  A Rust \<open>String\<close> or \<open>&str\<close> is its sequence of UTF-8 bytes, and one Isabelle \<open>char\<close> is one
  byte; a network buffer has the same type. The operations here search for an ASCII byte or an
  ASCII pattern, for which working on the bytes and working on the characters is the same in
  UTF-8. Operations that look at whole characters are in theory \<open>Rust_Utf8\<close>.
\<close>

section \<open>Bytes\<close>

abbreviation LF :: char where "LF \<equiv> CHR 0x0A"
abbreviation CR :: char where "CR \<equiv> CHR 0x0D"

definition byte :: "char \<Rightarrow> nat" where
  "byte c = of_char c"

lemma byte_less [simp]: "byte c < 256"
  by (simp add: byte_def)

lemma byte_inject [simp]: "byte c = byte d \<longleftrightarrow> c = d"
  by (simp add: byte_def)

definition is_ascii :: "char \<Rightarrow> bool" where
  "is_ascii c \<longleftrightarrow> byte c < 128"

section \<open>Case folding\<close>

text \<open>\<open>u8::to_ascii_lowercase\<close>, and \<open>str::to_ascii_lowercase\<close>, which maps it over the bytes.\<close>

definition to_lower :: "char \<Rightarrow> char" where
  "to_lower c = (if 65 \<le> byte c \<and> byte c \<le> 90 then char_of (byte c + 32) else c)"

definition to_ascii_lowercase :: "string \<Rightarrow> string" where
  "to_ascii_lowercase s = map to_lower s"

lemma byte_to_lower:
  "byte (to_lower c) = (if 65 \<le> byte c \<and> byte c \<le> 90 then byte c + 32 else byte c)"
  by (auto simp: to_lower_def byte_def)

lemma to_lower_idem [simp]: "to_lower (to_lower c) = to_lower c"
proof -
  have "\<not> (65 \<le> byte (to_lower c) \<and> byte (to_lower c) \<le> 90)"
    by (simp add: byte_to_lower)
  then show ?thesis by (simp only: to_lower_def [of "to_lower c"] if_False)
qed

lemma to_ascii_lowercase_idem [simp]:
  "to_ascii_lowercase (to_ascii_lowercase s) = to_ascii_lowercase s"
  by (simp add: to_ascii_lowercase_def)

lemma to_ascii_lowercase_append [simp]:
  "to_ascii_lowercase (s @ t) = to_ascii_lowercase s @ to_ascii_lowercase t"
  by (simp add: to_ascii_lowercase_def)

lemma to_ascii_lowercase_Cons [simp]:
  "to_ascii_lowercase (c # s) = to_lower c # to_ascii_lowercase s"
  by (simp add: to_ascii_lowercase_def)

lemma to_ascii_lowercase_Nil [simp]: "to_ascii_lowercase s = [] \<longleftrightarrow> s = []"
  by (simp add: to_ascii_lowercase_def)

lemma to_ascii_lowercase_no_upper:
  "c \<in> set (to_ascii_lowercase s) \<Longrightarrow> \<not> (65 \<le> byte c \<and> byte c \<le> 90)"
  by (auto simp: to_ascii_lowercase_def byte_to_lower split: if_splits)

section \<open>Prefixes and suffixes\<close>

definition strip_prefix :: "string \<Rightarrow> string \<Rightarrow> string option" where
  "strip_prefix p s = (if prefix p s then Some (drop (length p) s) else None)"

definition ends_with :: "string \<Rightarrow> string \<Rightarrow> bool" where
  "ends_with s t = suffix t s"

lemma strip_prefix_Some [rust_str]: "strip_prefix p s = Some r \<longleftrightarrow> s = p @ r"
  by (auto simp: strip_prefix_def prefix_def)

lemma strip_prefix_None [rust_str]: "strip_prefix p s = None \<longleftrightarrow> \<not> prefix p s"
  by (simp add: strip_prefix_def)

lemma strip_prefix_append [simp]: "strip_prefix p (p @ r) = Some r"
  by (simp add: strip_prefix_Some)

lemma ends_with_iff [rust_str]: "ends_with s t \<longleftrightarrow> (\<exists>r. s = r @ t)"
  by (auto simp: ends_with_def suffix_def)

section \<open>Splitting at a byte\<close>

text \<open>
  \<open>str::split_once(c)\<close>: the parts before and after the first occurrence of an ASCII character;
  \<open>rsplit_once\<close>: around the last one.
\<close>

fun split_once :: "char \<Rightarrow> string \<Rightarrow> (string \<times> string) option" where
  "split_once d [] = None"
| "split_once d (c # cs) =
     (if c = d then Some ([], cs)
      else (case split_once d cs of None \<Rightarrow> None | Some (a, b) \<Rightarrow> Some (c # a, b)))"

definition rsplit_once :: "char \<Rightarrow> string \<Rightarrow> (string \<times> string) option" where
  "rsplit_once d s =
     (case split_once d (rev s) of None \<Rightarrow> None | Some (a, b) \<Rightarrow> Some (rev b, rev a))"

lemma split_once_None [rust_str]: "split_once d s = None \<longleftrightarrow> d \<notin> set s"
  by (induction s) (auto split: option.splits)

lemma split_once_Some [rust_str]: "split_once d s = Some (a, b) \<longleftrightarrow> s = a @ d # b \<and> d \<notin> set a"
proof (induction s arbitrary: a)
  case Nil
  show ?case by simp
next
  case (Cons c s)
  show ?case
  proof (cases a)
    case Nil
    then show ?thesis by (auto split: option.splits)
  next
    case (Cons x xs)
    then show ?thesis
      using Cons.IH [of xs] by (auto split: option.splits)
  qed
qed

lemma split_once_append [simp]: "d \<notin> set a \<Longrightarrow> split_once d (a @ d # b) = Some (a, b)"
  by (simp add: split_once_Some)

lemma split_once_absent [simp]: "d \<notin> set s \<Longrightarrow> split_once d s = None"
  by (simp add: split_once_None)

lemma rsplit_once_None [rust_str]: "rsplit_once d s = None \<longleftrightarrow> d \<notin> set s"
  using split_once_None [of d "rev s"] by (auto simp: rsplit_once_def split: option.splits)

lemma rsplit_once_Some [rust_str]:
  "rsplit_once d s = Some (a, b) \<longleftrightarrow> s = a @ d # b \<and> d \<notin> set b"
proof -
  have "rsplit_once d s = Some (a, b) \<longleftrightarrow> split_once d (rev s) = Some (rev b, rev a)"
    by (auto simp: rsplit_once_def split: option.splits)
  also have "\<dots> \<longleftrightarrow> rev s = rev b @ d # rev a \<and> d \<notin> set b"
    by (simp add: split_once_Some)
  also have "rev s = rev b @ d # rev a \<longleftrightarrow> s = a @ d # b"
    by (simp add: rev_swap)
  finally show ?thesis .
qed

lemma rsplit_once_append [simp]: "d \<notin> set b \<Longrightarrow> rsplit_once d (a @ d # b) = Some (a, b)"
  by (simp add: rsplit_once_Some)

lemma rsplit_once_absent [simp]: "d \<notin> set s \<Longrightarrow> rsplit_once d s = None"
  by (simp add: rsplit_once_None)

text \<open>\<open>str::splitn(n, c)\<close> collected: at most \<open>n\<close> parts, the last one with the rest unsplit.\<close>

fun splitn :: "nat \<Rightarrow> char \<Rightarrow> string \<Rightarrow> string list" where
  "splitn 0 d s = []"
| "splitn (Suc 0) d s = [s]"
| "splitn (Suc (Suc n)) d s =
     (case split_once d s of None \<Rightarrow> [s] | Some (a, b) \<Rightarrow> a # splitn (Suc n) d b)"

lemma splitn_4_Some:
  "splitn 4 d s = [a, b, c, e] \<longleftrightarrow>
     s = a @ d # b @ d # c @ d # e \<and> d \<notin> set a \<and> d \<notin> set b \<and> d \<notin> set c"
    (is "?l \<longleftrightarrow> ?r")
proof
  assume ?l
  then show ?r by (simp add: numeral_eq_Suc split: option.splits prod.splits)
      (auto simp: split_once_Some)
next
  assume ?r
  then show ?l by (simp add: numeral_eq_Suc)
qed

text \<open>\<open>slice::split(|b| b == d)\<close> collected: every part, the empty ones too.\<close>

fun split_on :: "char \<Rightarrow> string \<Rightarrow> string list" where
  "split_on d [] = [[]]"
| "split_on d (c # cs) =
     (if c = d then [] # split_on d cs
      else (case split_on d cs of [] \<Rightarrow> [[c]] | x # xs \<Rightarrow> (c # x) # xs))"

lemma split_on_nonempty [simp]: "split_on d s \<noteq> []"
  by (induction s) (auto split: list.splits)

lemma split_on_no_sep: "x \<in> set (split_on d s) \<Longrightarrow> d \<notin> set x"
  by (induction s arbitrary: x) (auto split: list.splits if_splits)

lemma split_on_single [simp]: "d \<notin> set s \<Longrightarrow> split_on d s = [s]"
  by (induction s) auto

lemma split_on_append [simp]:
  "d \<notin> set a \<Longrightarrow> split_on d (a @ d # b) = a # split_on d b"
  by (induction a) auto

section \<open>Replacing a pattern\<close>

text \<open>
  \<open>str::replace(pat, to)\<close> for a nonempty pattern: the occurrences found from left to right,
  none overlapping an earlier one.
\<close>

fun replace_all :: "string \<Rightarrow> string \<Rightarrow> string \<Rightarrow> string" where
  "replace_all pat to [] = []"
| "replace_all pat to (c # cs) =
     (if pat \<noteq> [] \<and> prefix pat (c # cs)
      then to @ replace_all pat to (drop (length pat - 1) cs)
      else c # replace_all pat to cs)"

lemma replace_all_absent:
  assumes "pat \<noteq> []" and "hd pat \<notin> set s"
  shows "replace_all pat to s = s"
  using assms
proof (induction s)
  case Nil
  show ?case by simp
next
  case (Cons c cs)
  then have "\<not> prefix pat (c # cs)" by (cases pat) auto
  with Cons show ?case by simp
qed

text \<open>A part without the pattern's first byte is copied, whatever follows it.\<close>

lemma replace_all_append:
  assumes "pat \<noteq> []" and "hd pat \<notin> set s"
  shows "replace_all pat to (s @ t) = s @ replace_all pat to t"
  using assms
proof (induction s)
  case Nil
  show ?case by simp
next
  case (Cons c cs)
  then have "\<not> prefix pat (c # cs @ t)" by (cases pat) auto
  with Cons show ?case by simp
qed

lemma replace_all_hit:
  assumes "pat \<noteq> []"
  shows "replace_all pat to (pat @ t) = to @ replace_all pat to t"
  using assms by (cases pat) simp_all

text \<open>A string without some byte of the pattern is copied.\<close>

lemma replace_all_missing:
  assumes "b \<in> set pat" and "b \<notin> set s"
  shows "replace_all pat to s = s"
  using assms(2)
proof (induction s)
  case Nil
  show ?case by simp
next
  case (Cons c cs)
  then have "\<not> prefix pat (c # cs)" using assms(1) set_mono_prefix by fastforce
  with Cons show ?case by simp
qed

lemma set_replace_all: "set (replace_all pat to s) \<subseteq> set to \<union> set s"
proof (induction pat to s rule: replace_all.induct)
  case (1 pat to)
  show ?case by simp
next
  case (2 pat to c cs)
  show ?case
  proof (cases "pat \<noteq> [] \<and> prefix pat (c # cs)")
    case True
    with "2.IH" (1) have "set (replace_all pat to (drop (length pat - 1) cs)) \<subseteq> set to \<union> set cs"
      using set_drop_subset [of "length pat - 1" cs] by auto
    with True show ?thesis by auto
  next
    case False
    with "2.IH" (2) show ?thesis by auto
  qed
qed

section \<open>Lines\<close>

definition strip_cr :: "string \<Rightarrow> string" where
  "strip_cr s = (if s \<noteq> [] \<and> last s = CR then butlast s else s)"

text \<open>
  \<open>str::lines\<close>: the pieces that end in a line feed, without it and without a carriage return
  before it; a last piece with no line feed is kept as it is.
\<close>

function str_lines :: "string \<Rightarrow> string list" where
  "str_lines s =
     (if s = [] then []
      else (case split_once LF s of
              None \<Rightarrow> [s]
            | Some (a, b) \<Rightarrow> strip_cr a # str_lines b))"
  by pat_completeness auto
termination
  by (relation "measure length") (auto simp: split_once_Some)

declare str_lines.simps [simp del]

lemma str_lines_Nil [simp]: "str_lines [] = []"
  by (simp add: str_lines.simps)

lemma str_lines_Cons [simp]: "LF \<notin> set a \<Longrightarrow> str_lines (a @ LF # b) = strip_cr a # str_lines b"
  by (simp add: str_lines.simps [of "a @ LF # b"])

lemma strip_cr_subset: "set (strip_cr s) \<subseteq> set s"
  by (auto simp: strip_cr_def dest: in_set_butlastD)

lemma str_lines_no_LF: "l \<in> set (str_lines s) \<Longrightarrow> LF \<notin> set l"
proof (induction s rule: str_lines.induct)
  case (1 s)
  show ?case
  proof (cases "split_once LF s")
    case None
    with "1.prems" have "l = s" by (auto simp: str_lines.simps [of s] split: if_splits)
    with None show ?thesis by (simp add: split_once_None)
  next
    case (Some p)
    then obtain a b where p: "split_once LF s = Some (a, b)" by (cases p) auto
    then have ne: "s \<noteq> []" by auto
    from p ne "1.prems" have "l = strip_cr a \<or> l \<in> set (str_lines b)"
      by (simp add: str_lines.simps [of s])
    moreover have "LF \<notin> set (strip_cr a)"
      using p strip_cr_subset [of a] by (auto simp: split_once_Some)
    moreover have "l \<in> set (str_lines b) \<Longrightarrow> LF \<notin> set l"
      using "1.IH" [OF ne p] by auto
    ultimately show ?thesis by auto
  qed
qed

section \<open>Numbers\<close>

text \<open>The formatting directives for numbers: decimal and lower-case hexadecimal.\<close>

definition digit_char :: "nat \<Rightarrow> char" where
  "digit_char n = (if n < 10 then char_of (48 + n) else char_of (87 + n))"

fun show_radix :: "nat \<Rightarrow> nat \<Rightarrow> string" where
  "show_radix r n =
     (if n < r \<or> r < 2 then [digit_char n]
      else show_radix r (n div r) @ [digit_char (n mod r)])"

declare show_radix.simps [simp del]

text \<open>\<open>char::to_digit(radix)\<close>, for a radix of at most 16.\<close>

definition to_digit :: "nat \<Rightarrow> char \<Rightarrow> nat option" where
  "to_digit r c =
     (let b = byte c;
          d = (if 48 \<le> b \<and> b \<le> 57 then Some (b - 48)
               else if 97 \<le> b \<and> b \<le> 102 then Some (b - 87)
               else if 65 \<le> b \<and> b \<le> 70 then Some (b - 55)
               else None)
      in case d of None \<Rightarrow> None | Some n \<Rightarrow> if n < r then Some n else None)"

lemma byte_digit_char: "n < 16 \<Longrightarrow> byte (digit_char n) = (if n < 10 then 48 + n else 87 + n)"
  by (simp add: digit_char_def byte_def)

lemma to_digit_char: "n < r \<Longrightarrow> r \<le> 16 \<Longrightarrow> to_digit r (digit_char n) = Some n"
  by (simp add: to_digit_def byte_digit_char)

lemma to_digit_less: "to_digit r c = Some n \<Longrightarrow> n < r"
  by (auto simp: to_digit_def Let_def split: if_splits)

lemma show_radix_nonempty [simp]: "show_radix r n \<noteq> []"
  by (subst show_radix.simps) simp

end
