(* ===== verification/Rust_Utf8.thy ===== *)
theory Rust_Utf8
  imports Rust_Str
begin

text \<open>
  UTF-8 as Rust's standard library reads it: the decomposition of a byte string into encoded
  characters and maximal invalid pieces (\<open>Utf8Chunks\<close>), and the operations of \<open>str\<close> that work on
  whole characters: \<open>chars\<close>, \<open>String::from_utf8\<close> and \<open>from_utf8_lossy\<close>, \<open>trim\<close> and
  \<open>char::is_control\<close>. A character is represented by its encoding, a short byte string.
\<close>

section \<open>Decoding one character\<close>

text \<open>
  What a lead byte asks for: the number of continuation bytes, and the range of the first one
  (narrower than \<open>80..BF\<close> after \<open>E0\<close>, \<open>ED\<close>, \<open>F0\<close> and \<open>F4\<close>, which excludes overlong forms,
  surrogates and values above \<open>10FFFF\<close>).
\<close>

definition utf8_lead :: "nat \<Rightarrow> (nat \<times> nat \<times> nat) option" where
  "utf8_lead b =
     (if b < 128 then Some (0, 128, 191)
      else if 194 \<le> b \<and> b \<le> 223 then Some (1, 128, 191)
      else if b = 224 then Some (2, 160, 191)
      else if b = 237 then Some (2, 128, 159)
      else if 225 \<le> b \<and> b \<le> 239 then Some (2, 128, 191)
      else if b = 240 then Some (3, 144, 191)
      else if b = 244 then Some (3, 128, 143)
      else if 241 \<le> b \<and> b \<le> 243 then Some (3, 128, 191)
      else None)"

fun count_cont :: "nat \<Rightarrow> nat \<Rightarrow> nat \<Rightarrow> string \<Rightarrow> nat" where
  "count_cont k lo hi [] = 0"
| "count_cont k lo hi (c # cs) =
     (if 0 < k \<and> lo \<le> byte c \<and> byte c \<le> hi then Suc (count_cont (k - 1) 128 191 cs) else 0)"

text \<open>
  Whether the bytes \<open>c # cs\<close> start with a well-formed character, and how many bytes after \<open>c\<close>
  belong to it, or, where they do not, to the maximal invalid piece.
\<close>

definition utf8_seq :: "char \<Rightarrow> string \<Rightarrow> bool \<times> nat" where
  "utf8_seq c cs =
     (case utf8_lead (byte c) of
        None \<Rightarrow> (False, 0)
      | Some (k, lo, hi) \<Rightarrow> (let m = count_cont k lo hi cs in (m = k, m)))"

fun utf8_chunks :: "string \<Rightarrow> (bool \<times> string) list" where
  "utf8_chunks [] = []"
| "utf8_chunks (c # cs) =
     (case utf8_seq c cs of (ok, m) \<Rightarrow> (ok, c # take m cs) # utf8_chunks (drop m cs))"

definition chars :: "string \<Rightarrow> string list" where
  "chars s = map snd (utf8_chunks s)"

definition utf8_valid :: "string \<Rightarrow> bool" where
  "utf8_valid s = list_all fst (utf8_chunks s)"

text \<open>\<open>String::from_utf8_lossy\<close>: every invalid piece becomes one \<open>U+FFFD\<close>.\<close>

definition replacement_char :: string where
  "replacement_char = [CHR 0xEF, CHR 0xBF, CHR 0xBD]"

definition from_utf8_lossy :: "string \<Rightarrow> string" where
  "from_utf8_lossy s =
     concat (map (\<lambda>(ok, x). if ok then x else replacement_char) (utf8_chunks s))"

section \<open>Characters\<close>

text \<open>\<open>char::is_control\<close>: the general category Cc, \<open>U+0000..001F\<close> and \<open>U+007F..009F\<close>.\<close>

fun is_control :: "string \<Rightarrow> bool" where
  "is_control [b] = (byte b < 32 \<or> byte b = 127)"
| "is_control [a, b] = (a = CHR 0xC2 \<and> 128 \<le> byte b \<and> byte b \<le> 159)"
| "is_control _ = False"

text \<open>\<open>char::is_whitespace\<close>: the property \<open>White_Space\<close>.\<close>

fun is_whitespace :: "string \<Rightarrow> bool" where
  "is_whitespace [b] = ((9 \<le> byte b \<and> byte b \<le> 13) \<or> byte b = 32)"
| "is_whitespace [a, b] = (a = CHR 0xC2 \<and> b \<in> {CHR 0x85, CHR 0xA0})"
| "is_whitespace [a, b, c] =
     ((a = CHR 0xE1 \<and> b = CHR 0x9A \<and> c = CHR 0x80)
      \<or> (a = CHR 0xE2 \<and> b = CHR 0x80 \<and>
           ((128 \<le> byte c \<and> byte c \<le> 138) \<or> c \<in> {CHR 0xA8, CHR 0xA9, CHR 0xAF}))
      \<or> (a = CHR 0xE2 \<and> b = CHR 0x81 \<and> c = CHR 0x9F)
      \<or> (a = CHR 0xE3 \<and> b = CHR 0x80 \<and> c = CHR 0x80))"
| "is_whitespace _ = False"

definition trim :: "string \<Rightarrow> string" where
  "trim s = concat (rev (dropWhile is_whitespace (rev (dropWhile is_whitespace (chars s)))))"

section \<open>Facts\<close>

lemma concat_chars [simp]: "concat (chars s) = s"
  unfolding chars_def
  by (induction s rule: utf8_chunks.induct) (auto split: prod.splits)

lemma set_from_utf8_lossy:
  "set (from_utf8_lossy s) \<subseteq> set s \<union> set replacement_char"
proof -
  have "x \<in> set (utf8_chunks s) \<Longrightarrow> set (snd x) \<subseteq> set s" for x
    by (metis (no_types, lifting) chars_def concat_chars list.set_map image_eqI set_concat UN_upper)
  then show ?thesis
    by (fastforce simp: from_utf8_lossy_def split: if_splits)
qed

lemma set_trim: "set (trim s) \<subseteq> set s"
proof -
  have "x \<in> set (chars s) \<Longrightarrow> set x \<subseteq> set s" for x
    by (metis concat_chars set_concat UN_upper)
  then show ?thesis
    by (fastforce simp: trim_def dest: set_dropWhileD)
qed

lemma count_cont_0 [simp]: "count_cont 0 lo hi s = 0"
  by (cases s) simp_all

lemma utf8_lead_bounds:
  "utf8_lead b = Some (k, lo, hi) \<Longrightarrow> k \<le> 3 \<and> 128 \<le> lo \<and> hi \<le> 191"
  by (auto simp: utf8_lead_def split: if_splits)

lemma utf8_seq_ascii [simp]: "is_ascii c \<Longrightarrow> utf8_seq c cs = (True, 0)"
  by (simp add: utf8_seq_def utf8_lead_def is_ascii_def)

lemma utf8_chunks_ascii_Cons: "is_ascii c \<Longrightarrow> utf8_chunks (c # t) = (True, [c]) # utf8_chunks t"
  by simp

lemma chars_ascii: "list_all is_ascii s \<Longrightarrow> chars s = map (\<lambda>c. [c]) s"
  unfolding chars_def by (induction s) auto

lemma utf8_valid_ascii: "list_all is_ascii s \<Longrightarrow> utf8_valid s"
  unfolding utf8_valid_def by (induction s) auto

text \<open>
  The first byte that does not fit is not consumed, and a complete character stays one whatever
  follows it.
\<close>

lemma count_cont_le: "count_cont k lo hi cs \<le> k"
proof (induction k lo hi cs rule: count_cont.induct)
  case (1 k lo hi)
  show ?case by simp
next
  case (2 k lo hi c cs)
  then show ?case by (cases k) auto
qed

lemma count_cont_full:
  "count_cont k lo hi cs = k \<Longrightarrow> k \<le> length cs \<and> count_cont k lo hi (take k cs @ t) = k"
proof (induction k lo hi cs rule: count_cont.induct)
  case (1 k lo hi)
  then show ?case by simp
next
  case (2 k lo hi c cs)
  then show ?case by (cases k) (auto split: if_splits)
qed

lemma utf8_seq_complete:
  assumes "utf8_seq c cs = (True, m)"
  shows "m \<le> length cs \<and> utf8_seq c (take m cs @ t) = (True, m)"
  using assms count_cont_full
  by (auto simp: utf8_seq_def Let_def split: option.splits)

lemma utf8_chunks_valid_Cons:
  assumes "utf8_seq c cs = (True, m)"
  shows "utf8_chunks (c # take m cs @ t) = (True, c # take m cs) # utf8_chunks t"
  using utf8_seq_complete [OF assms, of t] by auto

lemma utf8_chunks_replacement [simp]:
  "utf8_chunks (replacement_char @ t) = (True, replacement_char) # utf8_chunks t"
proof -
  have "utf8_seq (CHR 0xEF) (CHR 0xBF # CHR 0xBD # t) = (True, 2)"
    by (simp add: utf8_seq_def utf8_lead_def byte_def numeral_2_eq_2)
  then show ?thesis by (simp add: replacement_char_def numeral_2_eq_2)
qed

lemma utf8_chunks_lossy:
  "utf8_chunks (from_utf8_lossy s) =
     map (\<lambda>(ok, x). (True, if ok then x else replacement_char)) (utf8_chunks s)"
  unfolding from_utf8_lossy_def
proof (induction s rule: utf8_chunks.induct)
  case 1
  show ?case by simp
next
  case (2 c cs)
  obtain ok m where seq: "utf8_seq c cs = (ok, m)" by (cases "utf8_seq c cs")
  from "2.IH" [OF seq [symmetric]] seq show ?case
    using utf8_chunks_valid_Cons [of c cs m] by (cases ok) auto
qed

text \<open>The lossy conversion yields valid UTF-8, and leaves valid UTF-8 alone.\<close>

lemma utf8_valid_lossy: "utf8_valid (from_utf8_lossy s)"
  by (auto simp: utf8_valid_def utf8_chunks_lossy list_all_iff)

lemma from_utf8_lossy_valid:
  assumes "utf8_valid s"
  shows "from_utf8_lossy s = s"
proof -
  have "map (\<lambda>(ok, x). if ok then x else replacement_char) (utf8_chunks s) = chars s"
    using assms by (auto simp: utf8_valid_def chars_def list_all_iff)
  then show ?thesis by (simp add: from_utf8_lossy_def)
qed

lemma from_utf8_lossy_idem: "from_utf8_lossy (from_utf8_lossy s) = from_utf8_lossy s"
  by (simp add: from_utf8_lossy_valid utf8_valid_lossy)

lemma from_utf8_lossy_ascii: "list_all is_ascii s \<Longrightarrow> from_utf8_lossy s = s"
  by (simp add: from_utf8_lossy_valid utf8_valid_ascii)

lemma trim_ascii_id:
  assumes "list_all is_ascii s" and "s = [] \<or> (\<not> is_whitespace [hd s] \<and> \<not> is_whitespace [last s])"
  shows "trim s = s"
proof (cases "s = []")
  case True
  then show ?thesis by (simp add: trim_def chars_def)
next
  case False
  with assms(2) have "\<not> is_whitespace [hd s]" "\<not> is_whitespace [hd (rev s)]"
    by (simp_all add: hd_rev)
  with False have "dropWhile is_whitespace (map (\<lambda>c. [c]) s) = map (\<lambda>c. [c]) s"
    and "dropWhile is_whitespace (map (\<lambda>c. [c]) (rev s)) = map (\<lambda>c. [c]) (rev s)"
    by (simp_all add: dropWhile_keep hd_map)
  then show ?thesis
    using assms(1) by (simp add: trim_def chars_ascii rev_map)
qed

section \<open>Strings stay well-formed\<close>

text \<open>
  A string that is cut at an ASCII character, or put together from well-formed parts, is
  well-formed: no operation of the program leaves the type \<open>String\<close>.
\<close>

lemma utf8_valid_Nil [simp]: "utf8_valid []"
  by (simp add: utf8_valid_def)

lemma utf8_valid_Cons [simp]: "is_ascii c \<Longrightarrow> utf8_valid (c # s) \<longleftrightarrow> utf8_valid s"
  by (simp add: utf8_valid_def)

lemma utf8_chunks_append: "utf8_valid a \<Longrightarrow> utf8_chunks (a @ t) = utf8_chunks a @ utf8_chunks t"
proof (induction a rule: utf8_chunks.induct)
  case 1
  show ?case by simp
next
  case (2 c cs)
  obtain ok m where seq: "utf8_seq c cs = (ok, m)" by (cases "utf8_seq c cs")
  with "2.prems" have seq': "utf8_seq c cs = (True, m)" and rest: "utf8_valid (drop m cs)"
    by (simp_all add: utf8_valid_def)
  have "utf8_chunks (c # take m cs @ drop m cs @ t) = (True, c # take m cs) # utf8_chunks (drop m cs @ t)"
    by (rule utf8_chunks_valid_Cons [OF seq'])
  then have "utf8_chunks ((c # cs) @ t) = (True, c # take m cs) # utf8_chunks (drop m cs @ t)"
    by (metis append_Cons append_assoc append_take_drop_id)
  with "2.IH" [OF seq [symmetric] rest] seq' show ?case by simp
qed

lemma utf8_valid_append [intro]: "utf8_valid a \<Longrightarrow> utf8_valid b \<Longrightarrow> utf8_valid (a @ b)"
  unfolding utf8_valid_def by (subst utf8_chunks_append) (simp_all add: utf8_valid_def)

lemma utf8_valid_append_iff: "utf8_valid a \<Longrightarrow> utf8_valid (a @ b) \<longleftrightarrow> utf8_valid b"
  by (simp add: utf8_valid_def utf8_chunks_append)

lemma count_cont_le_length: "count_cont k lo hi cs \<le> length cs"
  by (induction k lo hi cs rule: count_cont.induct) auto

text \<open>An ASCII character is no continuation byte, so it ends whatever comes before it.\<close>

lemma count_cont_ascii:
  "is_ascii d \<Longrightarrow> 128 \<le> lo \<Longrightarrow> count_cont k lo hi (cs @ d # b) = count_cont k lo hi cs"
  by (induction k lo hi cs rule: count_cont.induct) (auto simp: is_ascii_def)

lemma utf8_seq_before_ascii: "is_ascii d \<Longrightarrow> utf8_seq c (cs @ d # b) = utf8_seq c cs"
  by (auto simp: utf8_seq_def Let_def count_cont_ascii dest: utf8_lead_bounds split: option.split)

lemma utf8_seq_le_length: "utf8_seq c cs = (ok, m) \<Longrightarrow> m \<le> length cs"
  using count_cont_le_length by (auto simp: utf8_seq_def Let_def split: option.splits prod.splits)

lemma utf8_chunks_before_ascii:
  "is_ascii d \<Longrightarrow> utf8_chunks (a @ d # b) = utf8_chunks a @ utf8_chunks (d # b)"
proof (induction a rule: utf8_chunks.induct)
  case 1
  show ?case by simp
next
  case (2 c cs)
  obtain ok m where seq: "utf8_seq c cs = (ok, m)" by (cases "utf8_seq c cs")
  with "2.IH" [OF seq [symmetric] "2.prems"] utf8_seq_le_length [OF seq] show ?case
    by (simp add: utf8_seq_before_ascii [OF "2.prems"] del: utf8_chunks.simps(2))
       (simp add: utf8_seq_before_ascii [OF "2.prems"])
qed

lemma utf8_valid_split: "is_ascii d \<Longrightarrow> utf8_valid (a @ d # b) \<longleftrightarrow> utf8_valid a \<and> utf8_valid b"
  by (simp add: utf8_valid_def utf8_chunks_before_ascii)

lemma utf8_valid_ascii_append: "list_all is_ascii a \<Longrightarrow> utf8_valid (a @ b) \<longleftrightarrow> utf8_valid b"
  by (rule utf8_valid_append_iff) (rule utf8_valid_ascii)

text \<open>The bytes of a character of more than one byte are not ASCII.\<close>

lemma count_cont_bytes: "128 \<le> lo \<Longrightarrow> b \<in> set (take (count_cont k lo hi cs) cs) \<Longrightarrow> \<not> is_ascii b"
  by (induction k lo hi cs rule: count_cont.induct) (auto simp: is_ascii_def split: if_splits)

lemma utf8_seq_bytes:
  assumes "utf8_seq c cs = (ok, m)" and "\<not> is_ascii c" and "b \<in> set (c # take m cs)"
  shows "\<not> is_ascii b"
  using assms
  by (auto simp: utf8_seq_def Let_def dest: utf8_lead_bounds count_cont_bytes [rotated] split: option.splits)

text \<open>Replacing an ASCII pattern.\<close>

lemma utf8_valid_replace_all:
  assumes "utf8_valid to" and "list_all is_ascii pat" and "pat \<noteq> []" and "utf8_valid s"
  shows "utf8_valid (replace_all pat to s)"
  using assms(4)
proof (induction s rule: length_induct)
  case (1 s)
  show ?case
  proof (cases s)
    case (Cons c cs)
    consider (hit) t where "s = pat @ t" | (ascii) "\<not> prefix pat s" "is_ascii c" | (wide) "\<not> prefix pat s" "\<not> is_ascii c"
      by (auto simp: prefix_def)
    then show ?thesis
    proof cases
      case hit
      with 1 assms(2,3) have "utf8_valid (replace_all pat to t)"
        by (simp add: utf8_valid_ascii_append)
      with hit assms(1,3) show ?thesis by (simp add: replace_all_hit utf8_valid_append)
    next
      case ascii
      with 1 Cons show ?thesis by simp
    next
      case wide
      obtain ok m where seq: "utf8_seq c cs = (ok, m)" by (cases "utf8_seq c cs")
      let ?x = "c # take m cs" and ?t = "drop m cs"
      have valid: "utf8_valid ?x" "utf8_valid ?t"
      proof -
        from "1.prems" Cons seq have "ok" and t: "utf8_valid ?t" by (simp_all add: utf8_valid_def)
        with seq utf8_chunks_valid_Cons [of c cs m "[]"] show "utf8_valid ?x" "utf8_valid ?t"
          by (simp_all add: utf8_valid_def del: utf8_chunks.simps(2))
      qed
      have "hd pat \<notin> set ?x"
        using utf8_seq_bytes [OF seq wide(2), of "hd pat"] assms(2,3) by (cases pat) auto
      then have "replace_all pat to (?x @ ?t) = ?x @ replace_all pat to ?t"
        by (rule replace_all_append [OF assms(3)])
      moreover have "s = ?x @ ?t" using Cons by simp
      moreover have "utf8_valid (replace_all pat to ?t)" using 1 valid(2) Cons by simp
      ultimately show ?thesis using valid(1) by (metis utf8_valid_append)
    qed
  qed simp
qed

lemma utf8_valid_parts:
  "is_ascii d \<Longrightarrow> utf8_valid s \<Longrightarrow> split_once d s = Some (a, b) \<Longrightarrow> utf8_valid a \<and> utf8_valid b"
  "is_ascii d \<Longrightarrow> utf8_valid s \<Longrightarrow> rsplit_once d s = Some (a, b) \<Longrightarrow> utf8_valid a \<and> utf8_valid b"
  by (auto simp: split_once_Some rsplit_once_Some utf8_valid_split)

section \<open>Reading a text file\<close>

text \<open>
  The file system is a parameter: what reading a path's bytes gives. \<open>fs::read_to_string\<close> also
  fails, with \<open>InvalidData\<close>, where the bytes are not UTF-8.
\<close>

datatype io_error = Os_Error nat | Invalid_Data

type_synonym file_system = "string \<Rightarrow> (io_error, string) res"

definition read_to_string :: "file_system \<Rightarrow> string \<Rightarrow> (io_error, string) res" where
  "read_to_string fs path =
     and_then (fs path) (\<lambda>b. if utf8_valid b then Ok b else Err Invalid_Data)"

lemma read_to_string_Ok:
  "read_to_string fs path = Ok s \<longleftrightarrow> fs path = Ok s \<and> utf8_valid s"
  by (auto simp: read_to_string_def and_then_Ok_iff)

end
