(* ===== verification/Rust_Net.thy ===== *)
theory Rust_Net
  imports Rust_Utf8
begin

text \<open>
  \<open>std::net\<close> as the program uses it: \<open>IpAddr\<close> and \<open>SocketAddr\<close>, their parsers (the reader of
  \<open>core::net::parser\<close>, step for step: it backtracks only where the library does) and their
  \<open>Display\<close> output.
\<close>

section \<open>Addresses\<close>

datatype ipv4_addr = Ipv4Addr u8 u8 u8 u8

datatype ipv6_addr = Ipv6Addr u16 u16 u16 u16 u16 u16 u16 u16

datatype ip_addr = V4 ipv4_addr | V6 ipv6_addr

datatype socket_addr =
    SocketV4 ipv4_addr u16
  | SocketV6 ipv6_addr u16 u32 \<comment> \<open>address, port, scope id\<close>

fun segments :: "ipv6_addr \<Rightarrow> u16 list" where
  "segments (Ipv6Addr a b c d e f g h) = [a, b, c, d, e, f, g, h]"

fun ipv6_of_segments :: "u16 list \<Rightarrow> ipv6_addr" where
  "ipv6_of_segments [a, b, c, d, e, f, g, h] = Ipv6Addr a b c d e f g h"
| "ipv6_of_segments _ = Ipv6Addr 0 0 0 0 0 0 0 0"

lemma ipv6_of_segments_inverse [simp]: "ipv6_of_segments (segments a) = a"
  by (cases a) simp

lemma length_segments [simp]: "length (segments a) = 8"
  by (cases a) simp

definition u16_from_be_bytes :: "u8 \<Rightarrow> u8 \<Rightarrow> u16" where
  "u16_from_be_bytes a b = of_nat (256 * unat a + unat b)"

section \<open>The reader\<close>

text \<open>
  A reader takes the remaining input and returns a value and the input after it, or \<open>None\<close>; the
  caller then goes on with the input it had (\<open>read_atomically\<close>).
\<close>

type_synonym 'a reader = "string \<Rightarrow> ('a \<times> string) option"

definition rbind :: "'a reader \<Rightarrow> ('a \<Rightarrow> 'b reader) \<Rightarrow> 'b reader" where
  "rbind p f s = (case p s of None \<Rightarrow> None | Some (a, s') \<Rightarrow> f a s')"

fun read_given_char :: "char \<Rightarrow> unit reader" where
  "read_given_char d [] = None"
| "read_given_char d (c # cs) = (if c = d then Some ((), cs) else None)"

definition read_separator :: "char \<Rightarrow> nat \<Rightarrow> 'a reader \<Rightarrow> 'a reader" where
  "read_separator sep i p = (if 0 < i then rbind (read_given_char sep) (\<lambda>_. p) else p)"

text \<open>
  The digit loop of \<open>read_number\<close>: digit count, value and rest, or \<open>None\<close> as soon as there are
  more than \<open>max_digits\<close> digits.
\<close>

fun read_digits :: "nat \<Rightarrow> nat option \<Rightarrow> nat \<Rightarrow> nat \<Rightarrow> string \<Rightarrow> (nat \<times> nat \<times> string) option" where
  "read_digits r mx n v [] = Some (n, v, [])"
| "read_digits r mx n v (c # cs) =
     (case to_digit r c of
        None \<Rightarrow> Some (n, v, c # cs)
      | Some d \<Rightarrow>
          if (case mx of None \<Rightarrow> False | Some m \<Rightarrow> m < Suc n) then None
          else read_digits r mx (Suc n) (v * r + d) cs)"

text \<open>
  \<open>read_number\<close>, for a result type with the values below \<open>bound\<close>: an overflow of that type is
  \<open>None\<close>.
\<close>

definition read_number :: "nat \<Rightarrow> nat option \<Rightarrow> bool \<Rightarrow> nat \<Rightarrow> nat reader" where
  "read_number r mx allow_zero_prefix bound s =
     (case read_digits r mx 0 0 s of
        None \<Rightarrow> None
      | Some (n, v, rest) \<Rightarrow>
          if n = 0 then None
          else if \<not> allow_zero_prefix \<and> s \<noteq> [] \<and> hd s = CHR ''0'' \<and> 1 < n then None
          else if v < bound then Some (v, rest)
          else None)"

definition read_octet :: "nat \<Rightarrow> nat reader" where
  "read_octet i = read_separator (CHR ''.'') i (read_number 10 (Some 3) False 256)"

definition read_ipv4_addr :: "ipv4_addr reader" where
  "read_ipv4_addr =
     rbind (read_octet 0) (\<lambda>a. rbind (read_octet 1) (\<lambda>b.
     rbind (read_octet 2) (\<lambda>c. rbind (read_octet 3) (\<lambda>d s.
       Some (Ipv4Addr (of_nat a) (of_nat b) (of_nat c) (of_nat d), s)))))"

text \<open>
  \<open>read_groups\<close> over a slice of length \<open>limit\<close>, from index \<open>i\<close> on, \<open>k\<close> slots left: the groups
  read, whether they end in an embedded IPv4 address, and the rest.
\<close>

fun read_groups :: "nat \<Rightarrow> nat \<Rightarrow> nat \<Rightarrow> string \<Rightarrow> u16 list \<times> bool \<times> string" where
  "read_groups 0 limit i s = ([], False, s)"
| "read_groups (Suc k) limit i s =
     (case (if i < limit - 1 then read_separator (CHR '':'') i read_ipv4_addr s else None) of
        Some (Ipv4Addr a b c d, s') \<Rightarrow>
          ([u16_from_be_bytes a b, u16_from_be_bytes c d], True, s')
      | None \<Rightarrow>
          (case read_separator (CHR '':'') i (read_number 16 (Some 4) True 65536) s of
             Some (g, s') \<Rightarrow>
               (case read_groups k limit (Suc i) s' of
                  (gs, v4, s'') \<Rightarrow> (of_nat g # gs, v4, s''))
           | None \<Rightarrow> ([], False, s)))"

definition read_ipv6_addr :: "ipv6_addr reader" where
  "read_ipv6_addr s =
     (case read_groups 8 8 0 s of
        (heads, heads_ipv4, s1) \<Rightarrow>
          if length heads = 8 then Some (ipv6_of_segments heads, s1)
          else if heads_ipv4 then None
          else
            (case rbind (read_given_char (CHR '':'')) (\<lambda>_. read_given_char (CHR '':'')) s1 of
               None \<Rightarrow> None
             | Some (_, s2) \<Rightarrow>
                 (let limit = 8 - (length heads + 1) in
                  case read_groups limit limit 0 s2 of
                    (tails, _, s3) \<Rightarrow>
                      Some (ipv6_of_segments
                              (heads @ replicate (8 - length heads - length tails) 0 @ tails),
                            s3))))"

definition read_ip_addr :: "ip_addr reader" where
  "read_ip_addr s =
     (case read_ipv4_addr s of
        Some (a, s') \<Rightarrow> Some (V4 a, s')
      | None \<Rightarrow> (case read_ipv6_addr s of Some (a, s') \<Rightarrow> Some (V6 a, s') | None \<Rightarrow> None))"

definition read_port :: "nat reader" where
  "read_port = rbind (read_given_char (CHR '':'')) (\<lambda>_. read_number 10 None True 65536)"

definition read_scope_id :: "nat reader" where
  "read_scope_id =
     rbind (read_given_char (CHR ''%'')) (\<lambda>_. read_number 10 None True (2 ^ 32))"

definition read_socket_addr_v4 :: "socket_addr reader" where
  "read_socket_addr_v4 =
     rbind read_ipv4_addr (\<lambda>a. rbind read_port (\<lambda>p s. Some (SocketV4 a (of_nat p), s)))"

definition read_socket_addr_v6 :: "socket_addr reader" where
  "read_socket_addr_v6 =
     rbind (read_given_char (CHR ''['')) (\<lambda>_. rbind read_ipv6_addr (\<lambda>a.
     rbind (\<lambda>s. case read_scope_id s of None \<Rightarrow> Some (0, s) | Some r \<Rightarrow> Some r) (\<lambda>scope.
     rbind (read_given_char (CHR '']'')) (\<lambda>_. rbind read_port (\<lambda>p s.
       Some (SocketV6 a (of_nat p) (of_nat scope), s))))))"

definition read_socket_addr :: "socket_addr reader" where
  "read_socket_addr s =
     (case read_socket_addr_v4 s of Some r \<Rightarrow> Some r | None \<Rightarrow> read_socket_addr_v6 s)"

text \<open>\<open>parse_with\<close>: the reader has to use the whole input.\<close>

definition parse_with :: "'a reader \<Rightarrow> string \<Rightarrow> 'a option" where
  "parse_with p s = (case p s of Some (a, []) \<Rightarrow> Some a | _ \<Rightarrow> None)"

definition parse_ip_addr :: "string \<Rightarrow> ip_addr option" where
  "parse_ip_addr = parse_with read_ip_addr"

definition parse_socket_addr :: "string \<Rightarrow> socket_addr option" where
  "parse_socket_addr = parse_with read_socket_addr"

section \<open>Display\<close>

fun show_ipv4 :: "ipv4_addr \<Rightarrow> string" where
  "show_ipv4 (Ipv4Addr a b c d) =
     show_radix 10 (unat a) @ ''.'' @ show_radix 10 (unat b) @ ''.'' @
     show_radix 10 (unat c) @ ''.'' @ show_radix 10 (unat d)"

text \<open>The longest run of zero segments, the first one of that length: its start and length.\<close>

fun zero_span :: "nat \<Rightarrow> nat \<times> nat \<Rightarrow> nat \<times> nat \<Rightarrow> u16 list \<Rightarrow> nat \<times> nat" where
  "zero_span i longest current [] = longest"
| "zero_span i longest current (x # xs) =
     (if x = 0 then
        (let start = (if snd current = 0 then i else fst current);
             cur = (start, Suc (snd current));
             lng = (if snd longest < snd cur then cur else longest)
         in zero_span (Suc i) lng cur xs)
      else zero_span (Suc i) longest (0, 0) xs)"

fun fmt_subslice :: "u16 list \<Rightarrow> string" where
  "fmt_subslice [] = []"
| "fmt_subslice [x] = show_radix 16 (unat x)"
| "fmt_subslice (x # y # ys) = show_radix 16 (unat x) @ '':'' @ fmt_subslice (y # ys)"

definition ipv4_mapped :: "ipv6_addr \<Rightarrow> ipv4_addr option" where
  "ipv4_mapped a =
     (case a of
        Ipv6Addr s0 s1 s2 s3 s4 s5 s6 s7 \<Rightarrow>
          if s0 = 0 \<and> s1 = 0 \<and> s2 = 0 \<and> s3 = 0 \<and> s4 = 0 \<and> s5 = 65535
          then Some (Ipv4Addr (of_nat (unat s6 div 256)) (of_nat (unat s6 mod 256))
                              (of_nat (unat s7 div 256)) (of_nat (unat s7 mod 256)))
          else None)"

definition show_ipv6 :: "ipv6_addr \<Rightarrow> string" where
  "show_ipv6 a =
     (case ipv4_mapped a of
        Some v4 \<Rightarrow> ''::ffff:'' @ show_ipv4 v4
      | None \<Rightarrow>
          (case zero_span 0 (0, 0) (0, 0) (segments a) of
             (start, len) \<Rightarrow>
               if 1 < len
               then fmt_subslice (take start (segments a)) @ ''::'' @
                    fmt_subslice (drop (start + len) (segments a))
               else fmt_subslice (segments a)))"

fun show_ip :: "ip_addr \<Rightarrow> string" where
  "show_ip (V4 a) = show_ipv4 a"
| "show_ip (V6 a) = show_ipv6 a"

fun show_socket_addr :: "socket_addr \<Rightarrow> string" where
  "show_socket_addr (SocketV4 a p) = show_ipv4 a @ '':'' @ show_radix 10 (unat p)"
| "show_socket_addr (SocketV6 a p scope) =
     (if scope = 0 then ''['' @ show_ipv6 a @ '']:'' @ show_radix 10 (unat p)
      else ''['' @ show_ipv6 a @ ''%'' @ show_radix 10 (unat scope) @ '']:'' @
           show_radix 10 (unat p))"

section \<open>Facts about the displayed form\<close>

text \<open>An address is displayed with digits, lower-case hexadecimal letters, colons and dots only.\<close>

definition ip_char :: "char \<Rightarrow> bool" where
  "ip_char c \<longleftrightarrow> c \<in> set ''0123456789abcdef:.''"

lemma ip_char_digit: "n < 16 \<Longrightarrow> ip_char (digit_char n)"
proof -
  assume "n < 16"
  then have "n \<in> set [0..<16]" by simp
  moreover have "\<forall>n \<in> set [0..<16]. ip_char (digit_char n)"
    by code_simp
  ultimately show ?thesis by blast
qed

lemma ip_char_show_radix: "r \<le> 16 \<Longrightarrow> 2 \<le> r \<Longrightarrow> list_all ip_char (show_radix r n)"
proof (induction r n rule: show_radix.induct)
  case (1 r n)
  then show ?case
    by (subst show_radix.simps) (auto intro: ip_char_digit simp: less_le_trans [OF mod_less_divisor])
qed

lemma ip_char_fmt_subslice: "list_all ip_char (fmt_subslice xs)"
  by (induction xs rule: fmt_subslice.induct)
     (auto intro: ip_char_show_radix simp: ip_char_def [of "CHR '':''"])

lemma ip_char_show_ipv4: "list_all ip_char (show_ipv4 a)"
  by (cases a) (auto intro: ip_char_show_radix simp: ip_char_def [of "CHR ''.''"])

lemma ip_char_show_ip: "list_all ip_char (show_ip a)"
proof (cases a)
  case (V4 v)
  then show ?thesis by (simp add: ip_char_show_ipv4)
next
  case (V6 v)
  have "list_all ip_char ''::ffff:''" "list_all ip_char ''::''" by (simp_all add: ip_char_def)
  then show ?thesis
    using V6 by (simp add: show_ipv6_def ip_char_show_ipv4 ip_char_fmt_subslice
        split: option.splits prod.splits)
qed

lemma show_ip_no_byte [byte_facts]: "\<not> ip_char c \<Longrightarrow> c \<notin> set (show_ip a)"
  using ip_char_show_ip [of a] by (auto simp: list_all_iff)

section \<open>An IPv4 address is read back from its displayed form\<close>

lemma read_digits_show_radix:
  assumes "2 \<le> r" and "r \<le> 16"
    and "case mx of None \<Rightarrow> True | Some m \<Rightarrow> k + length (show_radix r n) \<le> m"
  shows "read_digits r mx k v (show_radix r n @ t) =
         read_digits r mx (k + length (show_radix r n)) (v * r ^ length (show_radix r n) + n) t"
  using assms
proof (induction r n arbitrary: t rule: show_radix.induct)
  case (1 r n)
  show ?case
  proof (cases "n < r")
    case True
    with 1 show ?thesis
      by (auto simp: show_radix.simps [of r n] to_digit_char split: option.splits)
  next
    case False
    let ?q = "show_radix r (n div r)"
    have unfold: "show_radix r n = ?q @ [digit_char (n mod r)]"
      using False 1 by (subst show_radix.simps) simp
    have d: "to_digit r (digit_char (n mod r)) = Some (n mod r)"
      using 1 by (intro to_digit_char) auto
    have "read_digits r mx k v (?q @ digit_char (n mod r) # t) =
          read_digits r mx (k + length ?q) (v * r ^ length ?q + n div r) (digit_char (n mod r) # t)"
      using 1 False unfold by (auto split: option.splits)
    also have "\<dots> = read_digits r mx (k + Suc (length ?q))
                     ((v * r ^ length ?q + n div r) * r + n mod r) t"
      using 1 d unfold by (auto split: option.splits)
    also have "(v * r ^ length ?q + n div r) * r + n mod r = v * r ^ Suc (length ?q) + n"
      by (simp add: algebra_simps)
    finally show ?thesis by (simp add: unfold)
  qed
qed

lemma length_show_radix: "2 \<le> r \<Longrightarrow> n < r ^ Suc k \<Longrightarrow> length (show_radix r n) \<le> Suc k"
proof (induction r n arbitrary: k rule: show_radix.induct)
  case (1 r n)
  show ?case
  proof (cases "n < r")
    case True
    then show ?thesis by (simp add: show_radix.simps [of r n])
  next
    case False
    with "1.prems" obtain j where j: "k = Suc j" by (cases k) auto
    from "1.prems" have "n div r < r ^ Suc j"
      unfolding j by (simp add: less_mult_imp_div_less mult.commute)
    with 1 False j show ?thesis by (simp add: show_radix.simps [of r n])
  qed
qed

lemma hd_show_radix_0:
  "2 \<le> r \<Longrightarrow> r \<le> 16 \<Longrightarrow> hd (show_radix r n) = CHR ''0'' \<Longrightarrow> n = 0"
proof (induction r n rule: show_radix.induct)
  case (1 r n)
  show ?case
  proof (cases "n < r")
    case True
    with "1.prems" have "byte (digit_char n) = 48"
      by (simp add: show_radix.simps [of r n] byte_def)
    with True "1.prems" show ?thesis by (simp add: byte_digit_char split: if_splits)
  next
    case False
    with 1 have "n div r = 0" by (simp add: show_radix.simps [of r n])
    with False "1.prems" show ?thesis by (simp add: div_eq_0_iff)
  qed
qed

text \<open>Input that goes on with no digit: the number ends there.\<close>

definition ends_number :: "nat \<Rightarrow> string \<Rightarrow> bool" where
  "ends_number r t \<longleftrightarrow> t = [] \<or> to_digit r (hd t) = None"

lemma read_digits_stop: "ends_number r t \<Longrightarrow> read_digits r mx k v t = Some (k, v, t)"
  by (cases t) (auto simp: ends_number_def)

lemma read_number_show_radix:
  assumes "2 \<le> r" "r \<le> 16" "n < bound" "ends_number r t"
    and "case mx of None \<Rightarrow> True | Some m \<Rightarrow> length (show_radix r n) \<le> m"
  shows "read_number r mx z bound (show_radix r n @ t) = Some (n, t)"
proof -
  have "read_digits r mx 0 0 (show_radix r n @ t) = Some (length (show_radix r n), n, t)"
    using assms by (subst read_digits_show_radix) (auto simp: read_digits_stop split: option.splits)
  moreover have "\<not> (hd (show_radix r n @ t) = CHR ''0'' \<and> 1 < length (show_radix r n))"
  proof
    assume *: "hd (show_radix r n @ t) = CHR ''0'' \<and> 1 < length (show_radix r n)"
    then have "n = 0" using hd_show_radix_0 [of r n] assms by simp
    with * assms(1) show False by (simp add: show_radix.simps [of r 0])
  qed
  ultimately show ?thesis
    using assms(3) by (auto simp: read_number_def)
qed

lemma read_octet_show:
  assumes "ends_number 10 t"
  shows "read_octet i ((if 0 < i then ''.'' else []) @ show_radix 10 (unat (a :: u8)) @ t) =
         Some (unat a, t)"
proof -
  have "unat a < 256" using unsigned_less [of a] by simp
  then have "length (show_radix 10 (unat a)) \<le> 3"
    using length_show_radix [of 10 "unat a" 2] by simp
  with assms \<open>unat a < 256\<close> show ?thesis
    by (simp add: read_octet_def read_separator_def rbind_def read_number_show_radix)
qed

lemma read_ipv4_addr_show:
  assumes "ends_number 10 t"
  shows "read_ipv4_addr (show_ipv4 a @ t) = Some (a, t)"
proof (cases a)
  case (Ipv4Addr p q r s)
  have dot: "ends_number 10 (CHR ''.'' # x)" for x
    by (simp add: ends_number_def to_digit_def byte_def)
  show ?thesis
    using read_octet_show [OF dot, of 0 p] read_octet_show [OF dot, of 1 q]
      read_octet_show [OF dot, of 2 r] read_octet_show [OF assms, of 3 s]
    by (simp add: Ipv4Addr read_ipv4_addr_def rbind_def)
qed

lemma parse_ip_addr_show_ipv4: "parse_ip_addr (show_ip (V4 a)) = Some (V4 a)"
  using read_ipv4_addr_show [of "[]" a]
  by (simp add: parse_ip_addr_def parse_with_def read_ip_addr_def ends_number_def)

lemma parse_socket_addr_show_v4:
  "parse_socket_addr (show_socket_addr (SocketV4 a p)) = Some (SocketV4 a p)"
proof -
  have colon: "ends_number 10 (CHR '':'' # x)" for x
    by (simp add: ends_number_def to_digit_def byte_def)
  have "unat p < 65536" using unsigned_less [of p] by simp
  then have "read_number 10 None True 65536 (show_radix 10 (unat p)) = Some (unat p, [])"
    using read_number_show_radix [of 10 "unat p" 65536 "[]" None True]
    by (simp add: ends_number_def)
  then have "read_port (CHR '':'' # show_radix 10 (unat p)) = Some (unat p, [])"
    by (simp add: read_port_def rbind_def)
  with read_ipv4_addr_show [OF colon, of a] show ?thesis
    by (simp add: parse_socket_addr_def parse_with_def read_socket_addr_def
        read_socket_addr_v4_def rbind_def)
qed

end
