(* ===== verification/Cidr_Set.thy ===== *)
theory Cidr_Set
  imports Rust_Net
begin

text \<open>
  Module \<open>net\<close> (\<open>rspf/src/net/cidr_set.rs\<close>): a list of IP networks matched by containment, used
  for \<open>skip.addresses\<close>, \<open>relay.trusted_relays\<close> and \<open>whitelist.ips\<close>.

  The network type itself is \<open>IpNet\<close> of the crate \<open>ipnet\<close>, which is not part of the repository:
  its two operations that the program calls, containment and parsing, are the fields of a
  parameter. \<open>'net\<close> is the type of networks and \<open>'pe\<close> that of \<open>ipnet::AddrParseError\<close>.
\<close>

record ('net, 'pe) ipnet =
  net_contains :: "'net \<Rightarrow> ip_addr \<Rightarrow> bool"
  net_from_str :: "string \<Rightarrow> ('pe, 'net) res"

section \<open>The component\<close>

datatype 'net cidr_set = CidrSet "'net list"

definition cidr_new :: "'net list \<Rightarrow> 'net cidr_set" where
  "cidr_new nets = CidrSet nets"

definition cidr_default :: "'net cidr_set" where
  "cidr_default = CidrSet []"

fun cidr_contains :: "('net, 'pe) ipnet \<Rightarrow> 'net cidr_set \<Rightarrow> ip_addr \<Rightarrow> bool" where
  "cidr_contains N (CidrSet nets) ip = list_ex (\<lambda>net. net_contains N net ip) nets"

fun cidr_is_empty :: "'net cidr_set \<Rightarrow> bool" where
  "cidr_is_empty (CidrSet nets) = (nets = [])"

fun cidr_iter :: "'net cidr_set \<Rightarrow> 'net list" where
  "cidr_iter (CidrSet nets) = nets"

definition cidr_from_iter :: "'net list \<Rightarrow> 'net cidr_set" where
  "cidr_from_iter xs = CidrSet xs"

fun cidr_extend :: "'net cidr_set \<Rightarrow> 'net list \<Rightarrow> 'net cidr_set" where
  "cidr_extend (CidrSet nets) xs = CidrSet (nets @ xs)"

section \<open>The contract its users rely on\<close>

text \<open>
  A matcher is a collection of networks that grows. The policy components ask it one question,
  whether an address is in it, and rely on two laws: nothing is in the empty matcher, and an
  extension adds exactly the addresses of the new networks.
\<close>

locale ip_matcher =
  fixes contains :: "'s \<Rightarrow> 'ip \<Rightarrow> bool"
    and extend :: "'s \<Rightarrow> 'net list \<Rightarrow> 's"
    and empty :: "'s"
    and hit :: "'net \<Rightarrow> 'ip \<Rightarrow> bool"
  assumes contains_empty: "\<not> contains empty ip"
    and contains_extend: "contains (extend s ns) ip \<longleftrightarrow> contains s ip \<or> (\<exists>n \<in> set ns. hit n ip)"
begin

lemma extend_mono: "contains s ip \<Longrightarrow> contains (extend s ns) ip"
  by (simp add: contains_extend)

lemma extend_one: "contains (extend s [n]) ip \<longleftrightarrow> contains s ip \<or> hit n ip"
  by (simp add: contains_extend)

lemma extend_extend: "contains (extend (extend s ms) ns) ip \<longleftrightarrow> contains (extend s (ms @ ns)) ip"
  by (auto simp: contains_extend)

lemma extend_order: "set ms = set ns \<Longrightarrow> contains (extend s ms) ip \<longleftrightarrow> contains (extend s ns) ip"
  by (simp add: contains_extend)

lemma extend_empty: "contains (extend empty ns) ip \<longleftrightarrow> (\<exists>n \<in> set ns. hit n ip)"
  by (simp add: contains_extend contains_empty)

end

interpretation cidr: ip_matcher "cidr_contains N" cidr_extend cidr_default "net_contains N"
  for N :: "('net, 'pe) ipnet"
proof
  fix ip show "\<not> cidr_contains N cidr_default ip"
    by (simp add: cidr_default_def)
next
  fix s :: "'net cidr_set" and ns :: "'net list" and ip
  show "cidr_contains N (cidr_extend s ns) ip \<longleftrightarrow>
        cidr_contains N s ip \<or> (\<exists>n \<in> set ns. net_contains N n ip)"
    by (cases s) (simp add: list_ex_iff bex_Un)
qed

section \<open>Its operations agree\<close>

lemma cidr_contains_iff: "cidr_contains N s ip \<longleftrightarrow> (\<exists>n \<in> set (cidr_iter s). net_contains N n ip)"
  by (cases s) (simp add: list_ex_iff)

lemma cidr_empty_contains: "cidr_is_empty s \<Longrightarrow> \<not> cidr_contains N s ip"
  by (cases s) simp

lemma cidr_iter_simps [simp]:
  "cidr_iter (cidr_new nets) = nets"
  "cidr_iter (cidr_from_iter nets) = nets"
  "cidr_iter cidr_default = []"
  "cidr_iter (cidr_extend s xs) = cidr_iter s @ xs"
  by (simp_all add: cidr_new_def cidr_from_iter_def cidr_default_def) (cases s; simp)

end
