(* ===== verification/Config_Model.thy ===== *)
theory Config_Model
  imports Cidr_Set
begin

text \<open>
  Module \<open>config\<close>, the data (\<open>rspf/src/config/model.rs\<close> and \<open>policy.rs\<close>): the configuration
  records with their default values, and the listener addresses with their parser and their
  displayed form.

  A \<open>PathBuf\<close> is its byte string. The map \<open>overrides\<close> is an association list in the order in which
  the hash map happens to be iterated; its keys are distinct in every map, which the theorems
  that need it state.
\<close>

section \<open>Listener addresses\<close>

datatype listen_addr = Tcp socket_addr | Unix string

datatype listen_addr_parse_error =
    MissingScheme string
  | InvalidTcp string string
  | EmptyUnixPath

text \<open>The message of the standard library's error for a socket address.\<close>

definition socket_addr_error :: string where
  "socket_addr_error = ''invalid socket address syntax''"

definition listen_addr_from_str :: "string \<Rightarrow> (listen_addr_parse_error, listen_addr) res" where
  "listen_addr_from_str s =
     (case strip_prefix ''tcp:'' s of
        Some rest \<Rightarrow>
          (case parse_socket_addr rest of
             None \<Rightarrow> Err (InvalidTcp rest socket_addr_error)
           | Some addr \<Rightarrow> Ok (Tcp addr))
      | None \<Rightarrow>
          (case strip_prefix ''unix:'' s of
             Some rest \<Rightarrow> if rest = [] then Err EmptyUnixPath else Ok (Unix rest)
           | None \<Rightarrow> Err (MissingScheme s)))"

fun show_listen_addr :: "listen_addr \<Rightarrow> string" where
  "show_listen_addr (Tcp addr) = ''tcp:'' @ show_socket_addr addr"
| "show_listen_addr (Unix path) = ''unix:'' @ path"

section \<open>The configuration records\<close>

datatype reject_policy = RP_Fail | RP_SoftFail | RP_SpfNotPass | RP_Never | RP_NoCheck

definition default_reject_policy :: reject_policy where
  "default_reject_policy = RP_Fail"

datatype log_level = LL_Off | LL_Error | LL_Warn | LL_Info | LL_Debug | LL_Trace

datatype header_mode = HM_Spf | HM_None

record server_config =
  listen :: "listen_addr list"
  test_only :: bool

record log_config =
  level :: log_level

record policy_config =
  helo_reject :: reject_policy
  mail_from_reject :: reject_policy
  permerror_reject :: bool
  temperror_defer :: bool

record 'net skip_config =
  addresses :: "'net cidr_set"

record 'net whitelist_config =
  cfg_ips :: "'net cidr_set"
  cfg_helo_names :: "string list"
  cfg_domains :: "string list"
  cfg_domains_ptr :: "string list"
  cfg_files :: "string list"

record spf_config =
  lookup_timeout_secs :: u64
  void_limit :: u64
  max_lookups :: u64

record srs_config =
  enabled :: bool
  secrets :: "string list"
  max_age_days :: u32

record 'net relay_config =
  exempt_sasl_authenticated :: bool
  trusted_relays :: "'net cidr_set"

record header_config =
  mode :: header_mode
  hide_receiver :: bool
  authserv_id :: "string option"

record message_templates =
  msg_fail :: string
  msg_softfail :: string
  msg_neutral :: string
  msg_none :: string
  msg_permerror :: string
  msg_temperror :: string

record 'net config =
  server_cfg :: server_config
  log_cfg :: log_config
  policy_cfg :: policy_config
  skip_cfg :: "'net skip_config"
  whitelist_cfg :: "'net whitelist_config"
  spf_cfg :: spf_config
  overrides :: "(string \<times> string) list"
  srs_cfg :: srs_config
  relay_cfg :: "'net relay_config"
  header_cfg :: header_config
  messages :: message_templates

section \<open>Default values\<close>

definition default_log_config :: log_config where
  "default_log_config = \<lparr>level = LL_Info\<rparr>"

definition default_policy_config :: policy_config where
  "default_policy_config =
     \<lparr>helo_reject = default_reject_policy, mail_from_reject = default_reject_policy,
      permerror_reject = False, temperror_defer = False\<rparr>"

definition default_skip_config :: "'net skip_config" where
  "default_skip_config = \<lparr>addresses = cidr_default\<rparr>"

definition default_whitelist_config :: "'net whitelist_config" where
  "default_whitelist_config =
     \<lparr>cfg_ips = cidr_default, cfg_helo_names = [], cfg_domains = [], cfg_domains_ptr = [],
      cfg_files = []\<rparr>"

definition default_lookup_timeout_secs :: u64 where
  "default_lookup_timeout_secs = 20"

definition default_void_limit :: u64 where
  "default_void_limit = 2"

definition default_max_lookups :: u64 where
  "default_max_lookups = 10"

definition default_spf_config :: spf_config where
  "default_spf_config =
     \<lparr>lookup_timeout_secs = default_lookup_timeout_secs, void_limit = default_void_limit,
      max_lookups = default_max_lookups\<rparr>"

text \<open>
  The derived \<open>Default\<close> of \<open>SrsConfig\<close>, used when the whole section is absent; the function
  \<open>default_srs_max_age_days\<close> is used when the section is there without the key.
\<close>

definition default_srs_config :: srs_config where
  "default_srs_config = \<lparr>enabled = False, secrets = [], max_age_days = 0\<rparr>"

definition default_srs_max_age_days :: u32 where
  "default_srs_max_age_days = 21"

definition default_relay_config :: "'net relay_config" where
  "default_relay_config = \<lparr>exempt_sasl_authenticated = False, trusted_relays = cidr_default\<rparr>"

definition default_header_config :: header_config where
  "default_header_config = \<lparr>mode = HM_Spf, hide_receiver = False, authserv_id = None\<rparr>"

definition default_fail_message :: string where
  "default_fail_message =
     ''550 5.7.1 SPF check failed: {sender} is not allowed to send mail from {ip}''"

definition default_softfail_message :: string where
  "default_softfail_message =
     ''550 5.7.1 SPF check failed (softfail): {sender} is not allowed to send mail from {ip}''"

definition default_neutral_message :: string where
  "default_neutral_message = ''550 5.7.1 SPF check neutral for {sender} from {ip}''"

definition default_none_message :: string where
  "default_none_message = ''550 5.7.1 SPF check found no record for {sender}''"

definition default_permerror_message :: string where
  "default_permerror_message = ''550 5.7.1 SPF check permanent error for {sender}''"

definition default_temperror_message :: string where
  "default_temperror_message =
     ''451 4.7.1 Temporary SPF error for {sender}, please try again later''"

definition default_message_templates :: message_templates where
  "default_message_templates =
     \<lparr>msg_fail = default_fail_message, msg_softfail = default_softfail_message,
      msg_neutral = default_neutral_message, msg_none = default_none_message,
      msg_permerror = default_permerror_message, msg_temperror = default_temperror_message\<rparr>"

text \<open>
  The configuration that a file with nothing but a \<open>[server]\<close> section deserializes to: every
  other section has its default.
\<close>

definition minimal_config :: "server_config \<Rightarrow> 'net config" where
  "minimal_config srv =
     \<lparr>server_cfg = srv, log_cfg = default_log_config, policy_cfg = default_policy_config,
      skip_cfg = default_skip_config, whitelist_cfg = default_whitelist_config,
      spf_cfg = default_spf_config, overrides = [], srs_cfg = default_srs_config,
      relay_cfg = default_relay_config, header_cfg = default_header_config,
      messages = default_message_templates\<rparr>"

lemmas config_defaults =
  minimal_config_def default_log_config_def default_policy_config_def default_skip_config_def
  default_whitelist_config_def default_spf_config_def default_srs_config_def
  default_relay_config_def default_header_config_def default_message_templates_def
  default_reject_policy_def default_lookup_timeout_secs_def default_void_limit_def
  default_max_lookups_def

lemmas message_defaults =
  default_fail_message_def default_softfail_message_def default_neutral_message_def
  default_none_message_def default_permerror_message_def default_temperror_message_def

section \<open>The parser of listener addresses\<close>

lemma listen_addr_from_str_cases:
  "listen_addr_from_str s = Ok a \<longleftrightarrow>
     (\<exists>rest addr. s = ''tcp:'' @ rest \<and> parse_socket_addr rest = Some addr \<and> a = Tcp addr) \<or>
     (\<exists>path. s = ''unix:'' @ path \<and> path \<noteq> [] \<and> a = Unix path)"
  by (auto simp: listen_addr_from_str_def strip_prefix_def prefix_def split: option.splits if_splits)

end
