(* ===== verification/Config_Load.thy ===== *)
theory Config_Load
  imports Config_Model
begin

text \<open>
  Module \<open>config\<close>, loading and validation (\<open>rspf/src/config/load.rs\<close>).

  Deserialization (crates \<open>toml\<close> and \<open>serde\<close>) and the SPF record parser (crate \<open>viaspf\<close>) are
  parameters: \<open>from_toml\<close> and \<open>parse_record\<close>. The lemmas relate the placeholder scanner to a
  grammar of message templates that the decision engine's rendering is proved against.
\<close>

datatype ('te, 've) config_error =
    Config_Read string io_error
  | Config_Parse string 'te
  | SrsEnabledWithoutSecrets
  | InvalidOverrideRecord string string 've
  | NoListenAddresses
  | UnknownMessagePlaceholder string string

definition known_message_placeholders :: "string list" where
  "known_message_placeholders = [''result'', ''sender'', ''helo'', ''ip'', ''recipient'']"

function validate_placeholders :: "string \<Rightarrow> string \<Rightarrow> (('te, 've) config_error, unit) res" where
  "validate_placeholders name rest =
     (case split_once (CHR ''{'') rest of
        None \<Rightarrow> Ok ()
      | Some (_, after_open) \<Rightarrow>
          (case split_once (CHR ''}'') after_open of
             None \<Rightarrow> Ok ()
           | Some (placeholder, rest') \<Rightarrow>
               if placeholder \<notin> set known_message_placeholders
               then Err (UnknownMessagePlaceholder name placeholder)
               else validate_placeholders name rest'))"
  by pat_completeness auto
termination
  by (relation "measure (length \<circ> snd)") (auto simp: split_once_Some)

declare validate_placeholders.simps [simp del]

definition message_list :: "message_templates \<Rightarrow> (string \<times> string) list" where
  "message_list m =
     [(''fail'', msg_fail m), (''softfail'', msg_softfail m), (''neutral'', msg_neutral m),
      (''none'', msg_none m), (''permerror'', msg_permerror m), (''temperror'', msg_temperror m)]"

definition validate_override ::
  "(string \<Rightarrow> ('ve, 'rec) res) \<Rightarrow> unit \<Rightarrow> string \<times> string \<Rightarrow> (('te, 've) config_error, unit) res"
where
  "validate_override parse_record u p =
     (case p of (domain, record) \<Rightarrow>
        and_then (map_err (InvalidOverrideRecord domain record) (parse_record record)) (\<lambda>_. Ok ()))"

definition validate ::
  "(string \<Rightarrow> ('ve, 'rec) res) \<Rightarrow> 'net config \<Rightarrow> (('te, 've) config_error, unit) res"
where
  "validate parse_record cfg =
     (if listen (server_cfg cfg) = [] then Err NoListenAddresses
      else if enabled (srs_cfg cfg) \<and> secrets (srs_cfg cfg) = [] then Err SrsEnabledWithoutSecrets
      else
        and_then (try_fold (validate_override parse_record) () (overrides cfg)) (\<lambda>_.
        try_fold (\<lambda>_ (name, template). validate_placeholders name template) ()
          (message_list (messages cfg))))"

definition config_load ::
  "file_system \<Rightarrow> (string \<Rightarrow> ('te, 'net config) res) \<Rightarrow> (string \<Rightarrow> ('ve, 'rec) res) \<Rightarrow> string \<Rightarrow>
     (('te, 've) config_error, 'net config) res"
where
  "config_load fs from_toml parse_record path =
     and_then (map_err (Config_Read path) (read_to_string fs path)) (\<lambda>raw.
     and_then (map_err (Config_Parse path) (from_toml raw)) (\<lambda>config.
     and_then (validate parse_record config) (\<lambda>_. Ok config)))"

section \<open>The grammar of message templates\<close>

text \<open>
  A template is a sequence of literal pieces without an opening brace and of placeholders
  \<open>{name}\<close>, and a tail in which no placeholder is closed.
\<close>

datatype piece = Lit string | Hole string

fun piece_str :: "piece \<Rightarrow> string" where
  "piece_str (Lit s) = s"
| "piece_str (Hole n) = ''{'' @ n @ ''}''"

definition flatten :: "piece list \<Rightarrow> string" where
  "flatten ps = concat (map piece_str ps)"

fun piece_ok :: "piece \<Rightarrow> bool" where
  "piece_ok (Lit s) = (CHR ''{'' \<notin> set s)"
| "piece_ok (Hole n) = (n \<in> set known_message_placeholders)"

definition tail_ok :: "string \<Rightarrow> bool" where
  "tail_ok t = (case split_once (CHR ''{'') t of None \<Rightarrow> True | Some (_, r) \<Rightarrow> CHR ''}'' \<notin> set r)"

definition template_form :: "string \<Rightarrow> piece list \<Rightarrow> string \<Rightarrow> bool" where
  "template_form t ps tail \<longleftrightarrow> t = flatten ps @ tail \<and> list_all piece_ok ps \<and> tail_ok tail"

definition template_ok :: "string \<Rightarrow> bool" where
  "template_ok t \<longleftrightarrow> (\<exists>ps tail. template_form t ps tail)"

lemma flatten_simps [simp]:
  "flatten [] = []"
  "flatten (p # ps) = piece_str p @ flatten ps"
  "flatten (ps @ qs) = flatten ps @ flatten qs"
  by (simp_all add: flatten_def)

lemma known_placeholder_no_brace:
  "n \<in> set known_message_placeholders \<Longrightarrow> CHR ''{'' \<notin> set n \<and> CHR ''}'' \<notin> set n"
  by (auto simp: known_message_placeholders_def)

section \<open>The placeholder scanner\<close>

lemma validate_placeholders_done:
  "tail_ok t \<Longrightarrow> validate_placeholders name t = Ok ()"
  by (auto simp: tail_ok_def validate_placeholders.simps [of name t]
      split_once_None [symmetric] split: option.splits)

lemma validate_placeholders_lit:
  "CHR ''{'' \<notin> set a \<Longrightarrow> validate_placeholders name (a @ r) = validate_placeholders name r"
proof (cases "split_once (CHR ''{'') r")
  case None
  moreover assume "CHR ''{'' \<notin> set a"
  ultimately have "split_once (CHR ''{'') (a @ r) = None" by (simp add: split_once_None)
  with None show ?thesis
    by (simp add: validate_placeholders.simps [of name r] validate_placeholders.simps [of name "a @ r"])
next
  case (Some q)
  then obtain u v where q: "split_once (CHR ''{'') r = Some (u, v)" by (cases q) auto
  moreover assume "CHR ''{'' \<notin> set a"
  ultimately have "split_once (CHR ''{'') (a @ r) = Some (a @ u, v)"
    by (simp add: split_once_Some)
  with q show ?thesis
    by (simp add: validate_placeholders.simps [of name r] validate_placeholders.simps [of name "a @ r"])
qed

lemma validate_placeholders_hole:
  assumes "CHR ''}'' \<notin> set n"
  shows "validate_placeholders name (CHR ''{'' # n @ CHR ''}'' # r) =
     (if n \<notin> set known_message_placeholders then Err (UnknownMessagePlaceholder name n)
      else validate_placeholders name r)"
  using assms by (simp add: validate_placeholders.simps [of name "CHR ''{'' # n @ CHR ''}'' # r"])

lemma validate_placeholders_flatten:
  "list_all piece_ok ps \<Longrightarrow>
   validate_placeholders name (flatten ps @ r) = validate_placeholders name r"
proof (induction ps)
  case Nil
  show ?case by simp
next
  case (Cons p ps)
  then show ?case
  proof (cases p)
    case (Lit s)
    with Cons show ?thesis by (simp add: validate_placeholders_lit)
  next
    case (Hole n)
    with Cons known_placeholder_no_brace show ?thesis
      by (simp add: validate_placeholders_hole)
  qed
qed

text \<open>The scanner accepts exactly the templates of the grammar.\<close>

lemma validate_placeholders_form:
  "validate_placeholders name t = Ok () \<Longrightarrow> template_ok t"
proof (induction name t rule: validate_placeholders.induct)
  case (1 name t)
  show ?case
  proof (cases "tail_ok t")
    case True
    then have "template_form t [] t" by (simp add: template_form_def)
    then show ?thesis by (auto simp: template_ok_def)
  next
    case False
    then obtain a r where open_at: "split_once (CHR ''{'') t = Some (a, r)" and "CHR ''}'' \<in> set r"
      by (auto simp: tail_ok_def split: option.splits)
    then obtain n r' where close_at: "split_once (CHR ''}'') r = Some (n, r')"
      by (cases "split_once (CHR ''}'') r") (auto simp: split_once_None)
    from "1.prems" open_at close_at have known: "n \<in> set known_message_placeholders"
      and rest: "validate_placeholders name r' = (Ok () :: (('a, 'b) config_error, unit) res)"
      by (auto simp: validate_placeholders.simps [of name t] split: if_splits)
    have "template_ok r'"
      using "1.IH" [OF open_at refl close_at refl] known rest by simp
    then obtain ps tail where "template_form r' ps tail" by (auto simp: template_ok_def)
    with known open_at close_at have "template_form t (Lit a # Hole n # ps) tail"
      by (auto simp: template_form_def split_once_Some)
    then show ?thesis by (auto simp: template_ok_def)
  qed
qed

lemma validate_placeholders_Ok_iff:
  "validate_placeholders name t = Ok () \<longleftrightarrow> template_ok t"
proof
  assume "template_ok t"
  then obtain ps tail where "template_form t ps tail" by (auto simp: template_ok_def)
  then show "validate_placeholders name t = Ok ()"
    by (simp add: template_form_def validate_placeholders_flatten validate_placeholders_done)
qed (rule validate_placeholders_form)

lemma validate_placeholders_Err:
  "validate_placeholders name t = Err e \<Longrightarrow>
     \<exists>p. p \<notin> set known_message_placeholders \<and> e = UnknownMessagePlaceholder name p"
proof (induction name t rule: validate_placeholders.induct)
  case (1 name t)
  from "1.prems" obtain a r n r' where at: "split_once (CHR ''{'') t = Some (a, r)"
      "split_once (CHR ''}'') r = Some (n, r')"
    by (auto simp: validate_placeholders.simps [of name t] split: option.splits)
  show ?case
  proof (cases "n \<in> set known_message_placeholders")
    case True
    with at "1.prems" have "validate_placeholders name r' = Err e"
      by (simp add: validate_placeholders.simps [of name t])
    then show ?thesis using "1.IH" [OF at(1) refl at(2) refl] True by simp
  next
    case False
    with at "1.prems" show ?thesis by (auto simp: validate_placeholders.simps [of name t])
  qed
qed

section \<open>Validation\<close>

text \<open>What validation promises of a configuration.\<close>

definition config_valid :: "(string \<Rightarrow> ('ve, 'rec) res) \<Rightarrow> 'net config \<Rightarrow> bool" where
  "config_valid parse_record cfg \<longleftrightarrow>
     listen (server_cfg cfg) \<noteq> [] \<and>
     \<not> (enabled (srs_cfg cfg) \<and> secrets (srs_cfg cfg) = []) \<and>
     list_all (\<lambda>p. is_ok (parse_record (snd p))) (overrides cfg) \<and>
     list_all (\<lambda>p. template_ok (snd p)) (message_list (messages cfg))"

lemma try_fold_unit_Ok:
  "try_fold f () xs = Ok () \<longleftrightarrow> list_all (\<lambda>x. f () x = Ok ()) xs"
  by (induction xs) (auto simp: and_then_Ok_iff)

lemma validate_override_Ok:
  "validate_override parse_record () p = Ok () \<longleftrightarrow> is_ok (parse_record (snd p))"
  by (cases "parse_record (snd p)") (auto simp: validate_override_def split: prod.splits)

lemma validate_Ok_iff: "validate parse_record cfg = Ok () \<longleftrightarrow> config_valid parse_record cfg"
  by (auto simp: validate_def config_valid_def and_then_Ok_iff try_fold_unit_Ok
      validate_override_Ok validate_placeholders_Ok_iff case_prod_beta)

text \<open>
  What the daemon relies on: whatever a source of configurations hands out is valid, so replacing
  the current one by it, or keeping it where loading failed, keeps it valid.
\<close>

locale config_source =
  fixes load :: "'path \<Rightarrow> ('e, 'cfg) res"
    and valid :: "'cfg \<Rightarrow> bool"
  assumes load_valid: "load path = Ok cfg \<Longrightarrow> valid cfg"
begin

lemma replace_valid:
  "valid cfg \<Longrightarrow> valid (case load path of Inl _ \<Rightarrow> cfg | Inr new_cfg \<Rightarrow> new_cfg)"
  by (auto dest: load_valid split: sum.splits)

lemma invalid_not_loaded: "\<not> valid cfg \<Longrightarrow> load path \<noteq> Ok cfg"
  by (auto dest: load_valid)

end

interpretation file_config: config_source
  "config_load fs from_toml parse_record" "config_valid parse_record"
  for fs :: file_system and from_toml :: "string \<Rightarrow> ('te, 'net config) res"
    and parse_record :: "string \<Rightarrow> ('ve, 'rec) res"
  by unfold_locales (auto simp: config_load_def and_then_Ok_iff validate_Ok_iff)

lemma config_load_Ok_iff:
  "config_load fs from_toml parse_record path = Ok cfg \<longleftrightarrow>
     (\<exists>raw. fs path = Ok raw \<and> utf8_valid raw \<and> from_toml raw = Ok cfg) \<and>
     config_valid parse_record cfg"
  by (auto simp: config_load_def and_then_Ok_iff validate_Ok_iff read_to_string_Ok)

text \<open>
  The defaults are consistent: a configuration with only a server section is valid exactly
  where it has a listener. Its SRS section is disabled.
\<close>

lemma minimal_config_valid:
  "config_valid parse_record (minimal_config srv) \<longleftrightarrow> listen srv \<noteq> []"
proof -
  have "template_ok t" if "t \<in> {default_fail_message, default_softfail_message, default_neutral_message,
      default_none_message, default_permerror_message, default_temperror_message}" for t
  proof -
    have "list_all (\<lambda>t. validate_placeholders [] t = (Ok () :: ((unit, unit) config_error, unit) res))
      [default_fail_message, default_softfail_message, default_neutral_message,
       default_none_message, default_permerror_message, default_temperror_message]"
      by code_simp
    with that show ?thesis by (auto simp: list_all_iff validate_placeholders_Ok_iff)
  qed
  then show ?thesis
    by (simp add: config_valid_def minimal_config_def default_srs_config_def message_list_def
        default_message_templates_def)
qed

end
