(* ===== verification/Whitelist.thy ===== *)
theory Whitelist
  imports Config_Model
begin

text \<open>
  Module \<open>whitelist\<close> (\<open>rspf/src/whitelist/mod.rs\<close>): the static exemptions, built from the
  configuration and from external files, and the question whether a client matches one.

  The hash set of HELO names is a set; the two domain lists stay lists. The file system and the
  network type of the crate \<open>ipnet\<close> are parameters. The lemmas show that loading keeps the stored
  names in lower case, only ever adds exemptions, reports the first bad line with its number, and
  that matching is what the documentation says: exact for HELO names, suffix at a label boundary
  for domains, all of it case-insensitive.
\<close>

datatype whitelist_reason = WR_Ip | WR_Helo | WR_Domain | WR_DomainPtr

datatype 'pe whitelist_error =
    Whitelist_Read string io_error
  | UnrecognizedEntry string nat string
  | InvalidCidr string nat string 'pe

record 'net whitelist =
  ips :: "'net cidr_set"
  helo_names :: "string set"
  domains :: "string list"
  domains_ptr :: "string list"

section \<open>Loading\<close>

definition apply_file_line ::
  "('net, 'pe) ipnet \<Rightarrow> 'net whitelist \<Rightarrow> string \<Rightarrow> nat \<Rightarrow> string \<Rightarrow> ('pe whitelist_error, 'net whitelist) res"
where
  "apply_file_line N wl path line_no line =
     and_then (ok_or (UnrecognizedEntry path line_no line) (split_once (CHR '':'') line))
       (\<lambda>(pfx, v0).
          let v = trim v0 in
          if pfx = ''ip'' then
            and_then (map_err (InvalidCidr path line_no v) (net_from_str N v))
              (\<lambda>net. Ok (wl\<lparr>ips := cidr_extend (ips wl) [net]\<rparr>))
          else if pfx = ''helo'' then
            Ok (wl\<lparr>helo_names := insert (to_ascii_lowercase v) (helo_names wl)\<rparr>)
          else if pfx = ''domain'' then
            Ok (wl\<lparr>domains := domains wl @ [to_ascii_lowercase v]\<rparr>)
          else if pfx = ''ptr'' then
            Ok (wl\<lparr>domains_ptr := domains_ptr wl @ [to_ascii_lowercase v]\<rparr>)
          else Err (UnrecognizedEntry path line_no line))"

definition load_line ::
  "('net, 'pe) ipnet \<Rightarrow> string \<Rightarrow> 'net whitelist \<Rightarrow> nat \<times> string \<Rightarrow> ('pe whitelist_error, 'net whitelist) res"
where
  "load_line N path wl p =
     (case p of (idx, raw_line) \<Rightarrow>
        let line = trim raw_line in
        if line = [] \<or> prefix ''#'' line then Ok wl
        else apply_file_line N wl path (idx + 1) line)"

definition load_file ::
  "('net, 'pe) ipnet \<Rightarrow> file_system \<Rightarrow> 'net whitelist \<Rightarrow> string \<Rightarrow> ('pe whitelist_error, 'net whitelist) res"
where
  "load_file N fs wl path =
     and_then (map_err (Whitelist_Read path) (read_to_string fs path))
       (\<lambda>raw. try_fold (load_line N path) wl (enumerate 0 (str_lines raw)))"

definition whitelist_of_config :: "'net whitelist_config \<Rightarrow> 'net whitelist" where
  "whitelist_of_config cfg =
     \<lparr>ips = cfg_ips cfg,
      helo_names = set (map to_ascii_lowercase (cfg_helo_names cfg)),
      domains = map to_ascii_lowercase (cfg_domains cfg),
      domains_ptr = map to_ascii_lowercase (cfg_domains_ptr cfg)\<rparr>"

definition whitelist_load ::
  "('net, 'pe) ipnet \<Rightarrow> file_system \<Rightarrow> 'net whitelist_config \<Rightarrow> ('pe whitelist_error, 'net whitelist) res"
where
  "whitelist_load N fs cfg = try_fold (load_file N fs) (whitelist_of_config cfg) (cfg_files cfg)"

section \<open>Matching\<close>

definition matches_suffix :: "string \<Rightarrow> string \<Rightarrow> bool" where
  "matches_suffix raw_name sfx =
     (let name = to_ascii_lowercase raw_name
      in name = sfx \<or> ends_with name (''.'' @ sfx))"

definition matches ::
  "('net, 'pe) ipnet \<Rightarrow> 'net whitelist \<Rightarrow> ip_addr \<Rightarrow> string \<Rightarrow> string option \<Rightarrow> string option \<Rightarrow>
     whitelist_reason option"
where
  "matches N wl ip helo mail_from_domain reverse_name =
     (if cidr_contains N (ips wl) ip then Some WR_Ip
      else if to_ascii_lowercase helo \<in> helo_names wl then Some WR_Helo
      else if list_ex (matches_suffix helo) (domains wl) then Some WR_Domain
      else if (case mail_from_domain of None \<Rightarrow> False
               | Some domain \<Rightarrow> list_ex (matches_suffix domain) (domains wl))
      then Some WR_Domain
      else if (case reverse_name of None \<Rightarrow> False
               | Some reverse \<Rightarrow> list_ex (matches_suffix reverse) (domains_ptr wl))
      then Some WR_DomainPtr
      else None)"

section \<open>Suffix matching\<close>

lemma matches_suffix_iff:
  "matches_suffix name sfx \<longleftrightarrow>
     to_ascii_lowercase name = sfx \<or> (\<exists>sub. to_ascii_lowercase name = sub @ CHR ''.'' # sfx)"
  by (simp add: matches_suffix_def ends_with_iff Let_def)

lemma matches_suffix_lower [simp]:
  "matches_suffix (to_ascii_lowercase name) sfx = matches_suffix name sfx"
  by (simp add: matches_suffix_def)

text \<open>A domain and its subdomains match, in any letter case.\<close>

lemma matches_suffix_self: "matches_suffix d (to_ascii_lowercase d)"
  by (simp add: matches_suffix_iff)

lemma matches_suffix_subdomain: "matches_suffix (sub @ ''.'' @ d) (to_ascii_lowercase d)"
proof -
  have "to_lower (CHR ''.'') = CHR ''.''" by (simp add: to_lower_def byte_def)
  then have "to_ascii_lowercase (sub @ ''.'' @ d) =
    to_ascii_lowercase sub @ CHR ''.'' # to_ascii_lowercase d" by simp
  then show ?thesis by (auto simp: matches_suffix_iff)
qed

text \<open>A name that merely ends in the same letters does not.\<close>

lemma matches_suffix_lookalike:
  assumes "p \<noteq> []" and "last p \<noteq> CHR ''.''"
  shows "\<not> matches_suffix (p @ d) (to_ascii_lowercase d)"
proof
  assume "matches_suffix (p @ d) (to_ascii_lowercase d)"
  then have "to_ascii_lowercase p = [] \<or>
    (\<exists>sub. to_ascii_lowercase p @ to_ascii_lowercase d = (sub @ [CHR ''.'']) @ to_ascii_lowercase d)"
    by (auto simp: matches_suffix_iff)
  then obtain sub where "to_ascii_lowercase p = sub @ [CHR ''.'']"
    using assms(1) by auto
  then have "last (to_ascii_lowercase p) = CHR ''.''" by simp
  then have "to_lower (last p) = CHR ''.''"
    using assms(1) by (simp add: to_ascii_lowercase_def last_map)
  then have "byte (to_lower (last p)) = 46" by (simp add: byte_def)
  then have "byte (last p) = 46" by (simp add: byte_to_lower split: if_splits)
  then have "byte (last p) = byte (CHR ''.'')" by (simp add: byte_def)
  with assms(2) show False by (simp only: byte_inject)
qed

section \<open>Matching decides membership\<close>

text \<open>The clients a whitelist exempts, with no order among its entries.\<close>

definition exempt ::
  "('net, 'pe) ipnet \<Rightarrow> 'net whitelist \<Rightarrow> ip_addr \<Rightarrow> string \<Rightarrow> string option \<Rightarrow> string option \<Rightarrow> bool"
where
  "exempt N wl ip helo mfd rcn \<longleftrightarrow>
     cidr_contains N (ips wl) ip \<or> to_ascii_lowercase helo \<in> helo_names wl \<or>
     (\<exists>d \<in> set (domains wl). matches_suffix helo d \<or> (\<exists>m. mfd = Some m \<and> matches_suffix m d)) \<or>
     (\<exists>d \<in> set (domains_ptr wl). \<exists>r. rcn = Some r \<and> matches_suffix r d)"

lemma matches_exempt: "matches N wl ip helo mfd rcn \<noteq> None \<longleftrightarrow> exempt N wl ip helo mfd rcn"
  by (auto simp: matches_def exempt_def list_ex_iff split: option.splits)

lemma matches_case_insensitive:
  "matches N wl ip (to_ascii_lowercase helo) (map_option to_ascii_lowercase mfd)
     (map_option to_ascii_lowercase rcn) = matches N wl ip helo mfd rcn"
  by (auto simp: matches_def list_ex_iff split: option.splits)

section \<open>What loading does\<close>

text \<open>Every stored name is in lower case, which is what makes matching case-insensitive.\<close>

definition normal :: "'net whitelist \<Rightarrow> bool" where
  "normal wl \<longleftrightarrow>
     (\<forall>s \<in> helo_names wl \<union> set (domains wl) \<union> set (domains_ptr wl). to_ascii_lowercase s = s)"

text \<open>One whitelist has all the exemptions of another.\<close>

definition extends :: "('net, 'pe) ipnet \<Rightarrow> 'net whitelist \<Rightarrow> 'net whitelist \<Rightarrow> bool" where
  "extends N wl wl' \<longleftrightarrow>
     (\<forall>ip. cidr_contains N (ips wl) ip \<longrightarrow> cidr_contains N (ips wl') ip) \<and>
     helo_names wl \<subseteq> helo_names wl' \<and> set (domains wl) \<subseteq> set (domains wl') \<and>
     set (domains_ptr wl) \<subseteq> set (domains_ptr wl')"

lemma extends_refl [simp]: "extends N wl wl"
  by (simp add: extends_def)

lemma extends_trans: "extends N a b \<Longrightarrow> extends N b c \<Longrightarrow> extends N a c"
  by (auto simp: extends_def)

lemma extends_exempt: "extends N wl wl' \<Longrightarrow> exempt N wl ip helo mfd rcn \<Longrightarrow> exempt N wl' ip helo mfd rcn"
  unfolding extends_def exempt_def by blast

lemma apply_file_line_Ok:
  "apply_file_line N wl path n line = Ok wl' \<longleftrightarrow>
     (\<exists>v. line = ''ip:'' @ v \<and> (\<exists>net. net_from_str N (trim v) = Ok net \<and>
            wl' = wl\<lparr>ips := cidr_extend (ips wl) [net]\<rparr>)) \<or>
     (\<exists>v. line = ''helo:'' @ v \<and>
            wl' = wl\<lparr>helo_names := insert (to_ascii_lowercase (trim v)) (helo_names wl)\<rparr>) \<or>
     (\<exists>v. line = ''domain:'' @ v \<and>
            wl' = wl\<lparr>domains := domains wl @ [to_ascii_lowercase (trim v)]\<rparr>) \<or>
     (\<exists>v. line = ''ptr:'' @ v \<and>
            wl' = wl\<lparr>domains_ptr := domains_ptr wl @ [to_ascii_lowercase (trim v)]\<rparr>)"
proof (cases "split_once (CHR '':'') line")
  case None
  then have "CHR '':'' \<notin> set line" by (simp add: split_once_None)
  then show ?thesis by (auto simp: apply_file_line_def)
next
  case (Some p)
  then obtain pfx v where "split_once (CHR '':'') line = Some (pfx, v)" by (cases p) auto
  then have line: "line = pfx @ CHR '':'' # v" "CHR '':'' \<notin> set pfx" by (auto simp: split_once_Some)
  have uniq: "line = q @ CHR '':'' # w \<longleftrightarrow> q = pfx \<and> w = v" if "CHR '':'' \<notin> set q" for q w
    using line that by (metis split_once_append option.inject prod.inject)
  have eq1: "line = ''ip:'' @ w \<longleftrightarrow> pfx = ''ip'' \<and> w = v" for w
    using uniq [of "''ip''" w] by (simp add: eq_commute [of pfx])
  have eq2: "line = ''helo:'' @ w \<longleftrightarrow> pfx = ''helo'' \<and> w = v" for w
    using uniq [of "''helo''" w] by (simp add: eq_commute [of pfx])
  have eq3: "line = ''domain:'' @ w \<longleftrightarrow> pfx = ''domain'' \<and> w = v" for w
    using uniq [of "''domain''" w] by (simp add: eq_commute [of pfx])
  have eq4: "line = ''ptr:'' @ w \<longleftrightarrow> pfx = ''ptr'' \<and> w = v" for w
    using uniq [of "''ptr''" w] by (simp add: eq_commute [of pfx])
  have "split_once (CHR '':'') line = Some (pfx, v)" using line by simp
  then show ?thesis
    unfolding eq1 eq2 eq3 eq4 apply_file_line_def by (auto simp: Let_def and_then_Ok_iff)
qed

lemma apply_file_line_extends: "apply_file_line N wl path n line = Ok wl' \<Longrightarrow> extends N wl wl'"
  by (auto simp: apply_file_line_Ok extends_def cidr.extend_mono)

lemma apply_file_line_normal: "apply_file_line N wl path n line = Ok wl' \<Longrightarrow> normal wl \<Longrightarrow> normal wl'"
  by (auto simp: apply_file_line_Ok normal_def)

lemma load_line_cases:
  "load_line N path wl (i, raw) = Ok wl' \<Longrightarrow>
     wl' = wl \<or> apply_file_line N wl path (i + 1) (trim raw) = Ok wl'"
  by (auto simp: load_line_def Let_def split: if_splits)

lemma load_line_extends: "load_line N path wl p = Ok wl' \<Longrightarrow> extends N wl wl'"
  by (cases p) (auto dest!: load_line_cases intro: apply_file_line_extends)

lemma load_line_normal: "load_line N path wl p = Ok wl' \<Longrightarrow> normal wl \<Longrightarrow> normal wl'"
  by (cases p) (auto dest!: load_line_cases intro: apply_file_line_normal)

lemma load_file_extends: "load_file N fs wl path = Ok wl' \<Longrightarrow> extends N wl wl'"
  unfolding load_file_def and_then_Ok_iff
  by (elim exE conjE, rule try_fold_invariant [where P = "extends N wl"])
     (auto intro: load_line_extends extends_trans)

lemma load_file_normal: "load_file N fs wl path = Ok wl' \<Longrightarrow> normal wl \<Longrightarrow> normal wl'"
  unfolding load_file_def and_then_Ok_iff
  by (elim exE conjE, rule try_fold_invariant [where P = normal]) (auto intro: load_line_normal)

lemma normal_of_config: "normal (whitelist_of_config cfg)"
  by (auto simp: normal_def whitelist_of_config_def)

lemma whitelist_load_normal: "whitelist_load N fs cfg = Ok wl \<Longrightarrow> normal wl"
  unfolding whitelist_load_def
  by (rule try_fold_invariant [where P = normal]) (auto intro: load_file_normal normal_of_config)

lemma whitelist_load_extends:
  "whitelist_load N fs cfg = Ok wl \<Longrightarrow> extends N (whitelist_of_config cfg) wl"
  unfolding whitelist_load_def
  by (rule try_fold_invariant [where P = "extends N (whitelist_of_config cfg)"])
     (auto intro: load_file_extends extends_trans)

text \<open>An entry line of a file takes effect, wherever it stands.\<close>

lemma try_fold_load_line_entry:
  assumes "try_fold (load_line N path) wl lines = Ok wl'" and "(i, raw) \<in> set lines"
    and "\<not> (trim raw = [] \<or> prefix ''#'' (trim raw))"
  obtains wl1 wl2 where "apply_file_line N wl1 path (i + 1) (trim raw) = Ok wl2" and "extends N wl2 wl'"
proof -
  from assms(2) obtain xs ys where lines: "lines = xs @ (i, raw) # ys" by (meson split_list)
  with assms(1) obtain wl1 wl2 where
    "load_line N path wl1 (i, raw) = Ok wl2" and rest: "try_fold (load_line N path) wl2 ys = Ok wl'"
    by (auto simp: try_fold_append and_then_Ok_iff)
  then have step: "apply_file_line N wl1 path (i + 1) (trim raw) = Ok wl2"
    using assms(3) by (simp add: load_line_def)
  have "extends N wl2 wl'"
    by (rule try_fold_invariant [where P = "extends N wl2", OF _ _ rest])
       (auto intro: load_line_extends extends_trans)
  with step show thesis by (rule that)
qed

section \<open>What the sources of a whitelist exempt\<close>

text \<open>
  The documented meaning, on the texts as they are written: names are compared without regard to
  letter case, and a domain stands for itself and its subdomains.
\<close>

definition same_name :: "string \<Rightarrow> string \<Rightarrow> bool" where
  "same_name a b \<longleftrightarrow> to_ascii_lowercase a = to_ascii_lowercase b"

definition under_domain :: "string \<Rightarrow> string \<Rightarrow> bool" where
  "under_domain name d \<longleftrightarrow> same_name name d \<or> (\<exists>sub. same_name name (sub @ CHR ''.'' # d))"

definition config_covers ::
  "('net, 'pe) ipnet \<Rightarrow> 'net whitelist_config \<Rightarrow> ip_addr \<Rightarrow> string \<Rightarrow> string option \<Rightarrow> string option \<Rightarrow> bool"
where
  "config_covers N cfg ip helo mfd rcn \<longleftrightarrow>
     (\<exists>net \<in> set (cidr_iter (cfg_ips cfg)). net_contains N net ip) \<or>
     (\<exists>h \<in> set (cfg_helo_names cfg). same_name helo h) \<or>
     (\<exists>d \<in> set (cfg_domains cfg). under_domain helo d \<or> (\<exists>m. mfd = Some m \<and> under_domain m d)) \<or>
     (\<exists>d \<in> set (cfg_domains_ptr cfg). \<exists>r. rcn = Some r \<and> under_domain r d)"

definition entry_covers ::
  "('net, 'pe) ipnet \<Rightarrow> string \<Rightarrow> ip_addr \<Rightarrow> string \<Rightarrow> string option \<Rightarrow> string option \<Rightarrow> bool"
where
  "entry_covers N line ip helo mfd rcn \<longleftrightarrow>
     (\<exists>v net. line = ''ip:'' @ v \<and> net_from_str N (trim v) = Ok net \<and> net_contains N net ip) \<or>
     (\<exists>v. line = ''helo:'' @ v \<and> same_name helo (trim v)) \<or>
     (\<exists>v. line = ''domain:'' @ v \<and>
        (under_domain helo (trim v) \<or> (\<exists>m. mfd = Some m \<and> under_domain m (trim v)))) \<or>
     (\<exists>v. line = ''ptr:'' @ v \<and> (\<exists>r. rcn = Some r \<and> under_domain r (trim v)))"

lemma to_lower_dot: "to_lower (CHR ''.'') = CHR ''.''"
  by (simp add: to_lower_def byte_def)

lemma matches_suffix_under: "matches_suffix name (to_ascii_lowercase d) \<longleftrightarrow> under_domain name d"
proof -
  have "(\<exists>sub. to_ascii_lowercase name = sub @ CHR ''.'' # to_ascii_lowercase d) \<longleftrightarrow>
        (\<exists>sub. to_ascii_lowercase name = to_ascii_lowercase sub @ CHR ''.'' # to_ascii_lowercase d)"
    (is "?L \<longleftrightarrow> ?R")
  proof
    assume ?L
    then obtain sub where s: "to_ascii_lowercase name = sub @ CHR ''.'' # to_ascii_lowercase d" by blast
    then have "to_ascii_lowercase (sub @ CHR ''.'' # to_ascii_lowercase d) = sub @ CHR ''.'' # to_ascii_lowercase d"
      using to_ascii_lowercase_idem [of name] by simp
    then have "to_ascii_lowercase sub = sub" by (simp add: to_lower_dot)
    with s show ?R by metis
  qed blast
  then show ?thesis
    by (simp add: matches_suffix_iff under_domain_def same_name_def to_lower_dot)
qed

lemma exempt_config: "exempt N (whitelist_of_config cfg) ip helo mfd rcn \<longleftrightarrow> config_covers N cfg ip helo mfd rcn"
  by (auto simp: exempt_def config_covers_def whitelist_of_config_def cidr_contains_iff same_name_def
      matches_suffix_under)

lemma exempt_apply_file_line:
  assumes "apply_file_line N wl path n line = Ok wl'"
  shows "exempt N wl' ip helo mfd rcn \<longleftrightarrow> exempt N wl ip helo mfd rcn \<or> entry_covers N line ip helo mfd rcn"
  using assms unfolding apply_file_line_Ok
  by (elim disjE exE conjE)
     (auto simp: exempt_def entry_covers_def cidr.extend_one same_name_def matches_suffix_under)

lemma entry_covers_comment:
  "line = [] \<or> prefix ''#'' line \<Longrightarrow> \<not> entry_covers N line ip helo mfd rcn"
  by (auto simp: entry_covers_def)

lemma exempt_load_line:
  assumes "load_line N path wl p = Ok wl'"
  shows "exempt N wl' ip helo mfd rcn \<longleftrightarrow>
    exempt N wl ip helo mfd rcn \<or> entry_covers N (trim (snd p)) ip helo mfd rcn"
  using assms exempt_apply_file_line [of N wl path _ "trim (snd p)" wl' ip helo mfd rcn]
    entry_covers_comment [of "trim (snd p)" N ip helo mfd rcn]
  by (auto simp: load_line_def Let_def split: prod.splits if_splits)

definition file_covers ::
  "('net, 'pe) ipnet \<Rightarrow> file_system \<Rightarrow> string \<Rightarrow> ip_addr \<Rightarrow> string \<Rightarrow> string option \<Rightarrow> string option \<Rightarrow> bool"
where
  "file_covers N fs path ip helo mfd rcn \<longleftrightarrow>
     (\<exists>raw. fs path = Ok raw \<and> (\<exists>line \<in> set (str_lines raw). entry_covers N (trim line) ip helo mfd rcn))"

lemma exempt_load_file:
  assumes "load_file N fs wl path = Ok wl'"
  shows "exempt N wl' ip helo mfd rcn \<longleftrightarrow>
    exempt N wl ip helo mfd rcn \<or> file_covers N fs path ip helo mfd rcn"
proof -
  obtain raw where raw: "fs path = Ok raw"
    and fold: "try_fold (load_line N path) wl (enumerate 0 (str_lines raw)) = Ok wl'"
    using assms by (auto simp: load_file_def and_then_Ok_iff read_to_string_Ok)
  have "exempt N wl' ip helo mfd rcn \<longleftrightarrow> exempt N wl ip helo mfd rcn \<or>
    (\<exists>p \<in> set (enumerate 0 (str_lines raw)). entry_covers N (trim (snd p)) ip helo mfd rcn)"
    using exempt_load_line fold by (rule try_fold_gains)
  moreover have lines: "set (str_lines raw) = snd ` set (enumerate 0 (str_lines raw))"
    by (simp only: set_map [symmetric] map_snd_enumerate)
  have "(\<exists>p \<in> set (enumerate 0 (str_lines raw)). entry_covers N (trim (snd p)) ip helo mfd rcn) \<longleftrightarrow>
      (\<exists>line \<in> set (str_lines raw). entry_covers N (trim line) ip helo mfd rcn)"
    unfolding lines by simp
  ultimately show ?thesis using raw by (simp add: file_covers_def)
qed

lemma exempt_whitelist_load:
  assumes "whitelist_load N fs cfg = Ok wl"
  shows "exempt N wl ip helo mfd rcn \<longleftrightarrow>
    config_covers N cfg ip helo mfd rcn \<or> (\<exists>path \<in> set (cfg_files cfg). file_covers N fs path ip helo mfd rcn)"
  unfolding exempt_config [symmetric]
  using exempt_load_file assms [unfolded whitelist_load_def] by (rule try_fold_gains)

text \<open>The error of a file is that of its first bad line.\<close>

definition entry_error ::
  "('net, 'pe) ipnet \<Rightarrow> string \<Rightarrow> nat \<Rightarrow> string \<Rightarrow> 'pe whitelist_error \<Rightarrow> bool"
where
  "entry_error N path n line e \<longleftrightarrow>
     e = UnrecognizedEntry path n line \<and>
       (\<forall>k v. line = k @ CHR '':'' # v \<longrightarrow> k \<notin> {''ip'', ''helo'', ''domain'', ''ptr''}) \<or>
     (\<exists>v pe. line = ''ip:'' @ v \<and> net_from_str N (trim v) = Err pe \<and> e = InvalidCidr path n (trim v) pe)"

lemma apply_file_line_Err:
  assumes "apply_file_line N wl path n line = Err e"
  shows "entry_error N path n line e"
proof (cases "split_once (CHR '':'') line")
  case None
  then have "CHR '':'' \<notin> set line" by (simp add: split_once_None)
  with assms show ?thesis by (auto simp: apply_file_line_def entry_error_def)
next
  case (Some p)
  then obtain k v where p: "split_once (CHR '':'') line = Some (k, v)" by (cases p) auto
  then have line: "line = k @ CHR '':'' # v" "CHR '':'' \<notin> set k" by (simp_all add: split_once_Some)
  show ?thesis
  proof (cases "k \<in> {''ip'', ''helo'', ''domain'', ''ptr''}")
    case True
    with assms p have "k = ''ip'' \<and> (\<exists>pe. net_from_str N (trim v) = Err pe \<and> e = InvalidCidr path n (trim v) pe)"
      by (auto simp: apply_file_line_def Let_def and_then_Err_iff map_err_Err_iff)
    with line show ?thesis by (auto simp: entry_error_def)
  next
    case False
    have "k' \<notin> {''ip'', ''helo'', ''domain'', ''ptr''}" if "line = k' @ CHR '':'' # v'" for k' v'
    proof (rule notI)
      assume k': "k' \<in> {''ip'', ''helo'', ''domain'', ''ptr''}"
      then have "CHR '':'' \<notin> set k'" by auto
      with that p have "k' = k" by simp
      with k' False show False by simp
    qed
    moreover have "e = UnrecognizedEntry path n line"
      using assms p False by (simp add: apply_file_line_def Let_def)
    ultimately show ?thesis unfolding entry_error_def by blast
  qed
qed

lemma load_file_Err:
  assumes "load_file N fs wl path = Err e"
  shows "(\<exists>io. read_to_string fs path = Err io \<and> e = Whitelist_Read path io) \<or>
    (\<exists>raw ys l zs wl1. fs path = Ok raw \<and> str_lines raw = ys @ l # zs \<and>
       try_fold (load_line N path) wl (enumerate 0 ys) = Ok wl1 \<and>
       entry_error N path (Suc (length ys)) (trim l) e)"
proof -
  consider (io) io where "read_to_string fs path = Err io" "e = Whitelist_Read path io"
    | (bad) raw where "fs path = Ok raw"
        "try_fold (load_line N path) wl (enumerate 0 (str_lines raw)) = Err e"
    using assms by (auto simp: load_file_def and_then_Err_iff map_err_Err_iff read_to_string_Ok)
  then show ?thesis
  proof cases
    case bad
    then obtain eys p ezs wl1 where split: "enumerate 0 (str_lines raw) = eys @ p # ezs"
      and before: "try_fold (load_line N path) wl eys = Ok wl1" and l: "load_line N path wl1 p = Err e"
      unfolding try_fold_Err_iff by blast
    let ?ys = "map snd eys"
    have "str_lines raw = map snd (eys @ p # ezs)" using split by (metis map_snd_enumerate)
    then have lines: "str_lines raw = ?ys @ snd p # map snd ezs" by simp
    then have "enumerate 0 (str_lines raw) =
        enumerate 0 ?ys @ (length ?ys, snd p) # enumerate (Suc (length ?ys)) (map snd ezs)"
      by (simp add: enumerate_append_eq)
    then have "eys = enumerate 0 ?ys" "p = (length eys, snd p)"
      using split by (simp_all add: append_eq_append_conv)
    moreover have "entry_error N path (Suc (fst p)) (trim (snd p)) e"
      using l by (auto simp: load_line_def Let_def intro: apply_file_line_Err split: prod.splits if_splits)
    ultimately show ?thesis using bad(1) lines before by (metis fst_conv length_map)
  qed blast
qed

end
