(* ===== verification/Srs.thy ===== *)
theory Srs
  imports Config_Model Rust_Utf8
begin

text \<open>
  Module \<open>srs\<close> (\<open>rspf/src/srs.rs\<close>): recovering the original sender from an address
  \<open>SRS0=HHH=TT=domain=local@rewrite-domain\<close> written by a forwarding relay, if its truncated MAC
  checks out against a configured secret and it is recent enough.

  HMAC-SHA1 and base64 (crates \<open>hmac\<close>, \<open>sha1\<close>, \<open>base64\<close>) are parameters: the MAC of a key and a
  message (\<open>None\<close> where the crate refuses the key) and the text encoding of a byte string. The
  clock is the number of seconds since the Unix epoch, or \<open>None\<close> where the system clock is before
  it; the source panics then (\<open>expect\<close>), and the result \<open>None\<close> of the functions that read the
  clock is that panic.
\<close>

record crypto =
  hmac_sha1 :: "string \<Rightarrow> string \<Rightarrow> string option"
  base64_encode :: "string \<Rightarrow> string"

type_synonym clock = "u64 option"

datatype srs_unwrap =
    NotSrs
  | Valid string
  | InvalidHash
  | Expired

definition base32_alphabet :: string where
  "base32_alphabet = ''0123456789ABCDEFGHIJKLMNOPQRSTUV''"

definition hash_len_chars :: nat where
  "hash_len_chars = 4"

definition days_per_cycle :: u32 where
  "days_per_cycle = 1024"

definition compute_hash :: "crypto \<Rightarrow> string \<Rightarrow> string \<Rightarrow> string \<Rightarrow> string \<Rightarrow> string option" where
  "compute_hash C secret timestamp domain loc =
     (case hmac_sha1 C secret (timestamp @ ''='' @ domain @ ''='' @ loc) of
        None \<Rightarrow> None
      | Some digest \<Rightarrow> Some (concat (take hash_len_chars (chars (base64_encode C digest)))))"

text \<open>\<open>char::eq_ignore_ascii_case\<close> against an ASCII byte; \<open>c\<close> is an encoded character.\<close>

definition base32_digit :: "string \<Rightarrow> nat option" where
  "base32_digit c = position (\<lambda>b. to_ascii_lowercase [b] = to_ascii_lowercase c) base32_alphabet"

fun decode_digits :: "u32 \<Rightarrow> string list \<Rightarrow> u32 option" where
  "decode_digits val [] = Some val"
| "decode_digits val (c # cs) =
     (case base32_digit c of
        None \<Rightarrow> None
      | Some digit \<Rightarrow> decode_digits (val * 32 + of_nat digit) cs)"

definition decode_timestamp :: "string \<Rightarrow> u32 option" where
  "decode_timestamp s =
     (let cs = chars s in if length cs \<noteq> 2 then None else decode_digits 0 cs)"

definition current_days_since_epoch :: "clock \<Rightarrow> u64 option" where
  "current_days_since_epoch clk = (case clk of None \<Rightarrow> None | Some secs \<Rightarrow> Some (secs div 86400))"

text \<open>
  The casts to \<open>i64\<close> are exact (a value below 1024 and a 32-bit value), so the difference is that
  of the integers; \<open>rem_euclid\<close> by a positive number is \<open>mod\<close>.
\<close>

definition age_in_days :: "clock \<Rightarrow> u32 \<Rightarrow> u32 option" where
  "age_in_days clk decoded_ts =
     (case current_days_since_epoch clk of
        None \<Rightarrow> None
      | Some days \<Rightarrow>
          (let now_days = days mod ucast days_per_cycle
           in Some (word_of_int ((uint now_days - uint decoded_ts) mod uint days_per_cycle))))"

definition try_unwrap :: "clock \<Rightarrow> crypto \<Rightarrow> string \<Rightarrow> srs_config \<Rightarrow> srs_unwrap option" where
  "try_unwrap clk C raw_sender cfg =
     (if \<not> enabled cfg then Some NotSrs
      else case strip_prefix ''SRS0='' raw_sender of
        None \<Rightarrow> Some NotSrs
      | Some rest \<Rightarrow>
      (case split_once (CHR ''@'') rest of
        None \<Rightarrow> Some NotSrs
      | Some (payload, rewrite_domain) \<Rightarrow>
      (case splitn 4 (CHR ''='') payload of
        [hash, timestamp, domain, loc] \<Rightarrow>
          if \<not> list_ex (\<lambda>secret. compute_hash C secret timestamp domain loc = Some hash) (secrets cfg)
          then Some InvalidHash
          else (case decode_timestamp timestamp of
                  None \<Rightarrow> Some InvalidHash
                | Some decoded_ts \<Rightarrow>
                    (case age_in_days clk decoded_ts of
                       None \<Rightarrow> None
                     | Some age \<Rightarrow>
                         if age > max_age_days cfg then Some Expired
                         else Some (Valid (loc @ ''@'' @ domain))))
      | _ \<Rightarrow> Some NotSrs)))"

text \<open>The address that a relay writes, as the module's tests build it.\<close>

definition encode_timestamp :: "u64 \<Rightarrow> string" where
  "encode_timestamp days_since_epoch =
     (let val = unat (days_since_epoch mod ucast days_per_cycle)
      in [base32_alphabet ! (val div 32), base32_alphabet ! (val mod 32)])"

definition make_srs_address ::
  "crypto \<Rightarrow> string \<Rightarrow> u64 \<Rightarrow> string \<Rightarrow> string \<Rightarrow> string option"
where
  "make_srs_address C secret days domain loc =
     (let timestamp = encode_timestamp days in
      case compute_hash C secret timestamp domain loc of
        None \<Rightarrow> None
      | Some hash \<Rightarrow>
          Some (''SRS0='' @ hash @ ''='' @ timestamp @ ''='' @ domain @ ''='' @ loc @
                ''@relay.example.net''))"

section \<open>Timestamps\<close>

lemma length_base32_alphabet: "length base32_alphabet = 32"
  by (simp add: base32_alphabet_def)

lemma base32_digit_less: "base32_digit c = Some d \<Longrightarrow> d < 32"
  using position_less [of _ base32_alphabet d] by (auto simp: base32_digit_def length_base32_alphabet)

lemma base32_digit_alphabet: "i < 32 \<Longrightarrow> base32_digit [base32_alphabet ! i] = Some i"
proof -
  assume "i < 32"
  then have "i \<in> set [0..<32]" by simp
  moreover have "\<forall>i \<in> set [0..<32]. base32_digit [base32_alphabet ! i] = Some i"
    by code_simp
  ultimately show ?thesis by blast
qed

lemma base32_digit_lower: "base32_digit (to_ascii_lowercase c) = base32_digit c"
  by (simp add: base32_digit_def)

lemma ascii_alphabet: "i < 32 \<Longrightarrow> is_ascii (base32_alphabet ! i)"
proof -
  assume "i < 32"
  then have "base32_alphabet ! i \<in> set base32_alphabet" by (simp add: length_base32_alphabet)
  moreover have "list_all is_ascii base32_alphabet" by code_simp
  ultimately show ?thesis by (auto simp: list_all_iff)
qed

lemma decode_timestamp_Some:
  "decode_timestamp s = Some t \<longleftrightarrow>
     (\<exists>a b i j. chars s = [a, b] \<and> base32_digit a = Some i \<and> base32_digit b = Some j \<and>
        t = of_nat (32 * i + j))"
proof (cases "length (chars s) = 2")
  case True
  then obtain a b where "chars s = [a, b]"
    by (metis (no_types, opaque_lifting) One_nat_def Suc_1 length_0_conv length_Suc_conv)
  then show ?thesis
    by (auto simp: decode_timestamp_def mult.commute split: option.splits)
next
  case False
  then show ?thesis by (auto simp: decode_timestamp_def)
qed

lemma decode_timestamp_bound: "decode_timestamp s = Some t \<Longrightarrow> unat t < 1024"
proof -
  assume "decode_timestamp s = Some t"
  then obtain i j where "i < 32" "j < 32" and t: "t = of_nat (32 * i + j)"
    by (auto simp: decode_timestamp_Some dest!: base32_digit_less)
  then have "32 * i + j < 1024" by simp
  moreover from this have "unat t = 32 * i + j"
    unfolding t by (intro unat_of_nat_u32) simp
  ultimately show ?thesis by simp
qed

lemma unat_mod_cycle: "unat ((d :: u64) mod ucast days_per_cycle) = unat d mod 1024"
  by (simp add: days_per_cycle_def unat_mod)

lemma decode_encode_timestamp:
  "decode_timestamp (encode_timestamp d) = Some (of_nat (unat d mod 1024))"
proof -
  let ?v = "unat d mod 1024"
  have v: "?v < 1024" by simp
  then have hi: "?v div 32 < 32" and lo: "?v mod 32 < 32" by (simp_all add: less_mult_imp_div_less)
  have enc: "encode_timestamp d = [base32_alphabet ! (?v div 32), base32_alphabet ! (?v mod 32)]"
    by (simp add: encode_timestamp_def unat_mod_cycle Let_def)
  have "chars (encode_timestamp d) = [[base32_alphabet ! (?v div 32)], [base32_alphabet ! (?v mod 32)]]"
    unfolding enc using ascii_alphabet hi lo by (simp add: chars_ascii)
  then have "decode_timestamp (encode_timestamp d) = Some (of_nat (32 * (?v div 32) + ?v mod 32))"
    unfolding decode_timestamp_Some using base32_digit_alphabet hi lo by blast
  then show ?thesis by simp
qed

lemma decode_encode_timestamp_lower:
  "decode_timestamp (to_ascii_lowercase (encode_timestamp d)) = Some (of_nat (unat d mod 1024))"
proof -
  let ?v = "unat d mod 1024"
  let ?a = "base32_alphabet ! (?v div 32)" and ?b = "base32_alphabet ! (?v mod 32)"
  have hi: "?v div 32 < 32" and lo: "?v mod 32 < 32" by (simp_all add: less_mult_imp_div_less)
  have "is_ascii (to_lower c)" if "is_ascii c" for c
    using that by (simp add: is_ascii_def byte_to_lower)
  then have "chars (to_ascii_lowercase (encode_timestamp d)) = [[to_lower ?a], [to_lower ?b]]"
    using ascii_alphabet hi lo by (simp add: encode_timestamp_def unat_mod_cycle Let_def chars_ascii to_ascii_lowercase_def)
  moreover have "base32_digit [to_lower (base32_alphabet ! i)] = Some i" if "i < 32" for i
    using base32_digit_lower [of "[base32_alphabet ! i]"] base32_digit_alphabet [OF that]
    by (simp add: to_ascii_lowercase_def)
  ultimately have "decode_timestamp (to_ascii_lowercase (encode_timestamp d)) =
      Some (of_nat (32 * (?v div 32) + ?v mod 32))"
    unfolding decode_timestamp_Some using hi lo by blast
  then show ?thesis by simp
qed

lemma alphabet_plain: "i < 32 \<Longrightarrow> base32_alphabet ! i \<notin> {CHR ''='', CHR ''@''}"
proof -
  assume "i < 32"
  then have "base32_alphabet ! i \<in> set base32_alphabet" by (simp add: length_base32_alphabet)
  moreover have "list_all (\<lambda>c. c \<notin> {CHR ''='', CHR ''@''}) base32_alphabet" by code_simp
  ultimately show ?thesis unfolding list_all_iff by blast
qed

lemma encode_timestamp_plain: "CHR ''='' \<notin> set (encode_timestamp d)" "CHR ''@'' \<notin> set (encode_timestamp d)"
proof -
  have "unat d mod 1024 div 32 < 32" "unat d mod 1024 mod 32 < 32"
    by (simp_all add: less_mult_imp_div_less)
  from this [THEN alphabet_plain]
  show "CHR ''='' \<notin> set (encode_timestamp d)" "CHR ''@'' \<notin> set (encode_timestamp d)"
    by (auto simp: encode_timestamp_def unat_mod_cycle Let_def)
qed

section \<open>Age\<close>

lemma age_in_days_eq:
  "age_in_days (Some secs) t = Some (word_of_int ((int (unat secs div 86400) - int (unat t)) mod 1024))"
proof -
  let ?d = "secs div 86400"
  have "unat (?d mod ucast days_per_cycle) = unat secs div 86400 mod 1024"
    by (simp add: unat_mod_cycle unat_div)
  then have "uint (?d mod ucast days_per_cycle) = int (unat secs div 86400 mod 1024)"
    by (simp only: uint_nat)
  moreover have "uint t = int (unat t)" by (simp only: uint_nat)
  moreover have "uint days_per_cycle = 1024" by (simp add: days_per_cycle_def)
  ultimately have "(uint (?d mod ucast days_per_cycle) - uint t) mod uint days_per_cycle =
    (int (unat secs div 86400 mod 1024) - int (unat t)) mod 1024"
    by (simp only:)
  also have "\<dots> = (int (unat secs div 86400) - int (unat t)) mod 1024"
    by (simp add: zmod_int mod_diff_left_eq)
  finally show ?thesis
    by (simp add: age_in_days_def current_days_since_epoch_def Let_def)
qed

text \<open>
  For a timestamp written on day \<open>d\<close>, not after today, the computed age is the true one modulo
  the cycle of 1024 days.
\<close>

lemma age_of_timestamp:
  fixes d secs :: u64
  assumes "unat d \<le> unat secs div 86400"
  shows "age_in_days (Some secs) (of_nat (unat d mod 1024)) =
         Some (of_nat ((unat secs div 86400 - unat d) mod 1024))"
proof -
  let ?n = "unat secs div 86400"
  have t: "unat (of_nat (unat d mod 1024) :: u32) = unat d mod 1024"
    by (rule unat_of_nat_u32) (use mod_less_divisor [of 1024 "unat d"] in simp)
  have "(int ?n - int (unat d mod 1024)) mod 1024 = (int ?n - int (unat d)) mod 1024"
    by (simp add: zmod_int mod_diff_right_eq)
  also have "int ?n - int (unat d) = int (?n - unat d)" using assms by (simp add: of_nat_diff)
  also have "int (?n - unat d) mod 1024 = int ((?n - unat d) mod 1024)" by (simp add: zmod_int)
  finally show ?thesis by (simp add: age_in_days_eq t of_int_of_nat_eq)
qed

lemma age_in_days_bound:
  assumes "age_in_days clk t = Some a"
  shows "unat a < 1024"
proof -
  obtain secs where "clk = Some secs"
    using assms by (cases clk) (auto simp: age_in_days_def current_days_since_epoch_def)
  with assms obtain m :: int where a: "a = word_of_int (m mod 1024)"
    by (auto simp: age_in_days_eq)
  have "word_of_int (m mod 1024) = (of_nat (nat (m mod 1024)) :: u32)"
    by (metis of_int_of_nat_eq int_nat_eq pos_mod_sign zero_less_numeral)
  moreover have "nat (m mod 1024) < 1024" by (simp add: nat_less_iff)
  ultimately show ?thesis unfolding a by (simp add: unat_of_nat_u32 del: of_nat_nat)
qed

section \<open>The shape of a rewritten address\<close>

definition srs_form :: "string \<Rightarrow> string \<Rightarrow> string \<Rightarrow> string \<Rightarrow> string \<Rightarrow> string \<Rightarrow> bool" where
  "srs_form raw h t d l rw \<longleftrightarrow>
     raw = ''SRS0='' @ h @ ''='' @ t @ ''='' @ d @ ''='' @ l @ ''@'' @ rw \<and>
     CHR ''='' \<notin> set (h @ t @ d) \<and> CHR ''@'' \<notin> set (h @ t @ d @ l)"

text \<open>The part of the address that the MAC is computed from: everything between it and the \<open>@\<close>.\<close>

definition mac_message :: "string \<Rightarrow> string \<Rightarrow> string \<Rightarrow> string" where
  "mac_message t d l = t @ ''='' @ d @ ''='' @ l"

lemma mac_message_inject:
  assumes "CHR ''='' \<notin> set (t @ d)" and "CHR ''='' \<notin> set (t' @ d')"
  shows "mac_message t d l = mac_message t' d' l' \<longleftrightarrow> t = t' \<and> d = d' \<and> l = l'"
proof
  assume eq: "mac_message t d l = mac_message t' d' l'"
  have "split_once (CHR ''='') (mac_message t d l) = Some (t, d @ ''='' @ l)"
    and "split_once (CHR ''='') (mac_message t' d' l') = Some (t', d' @ ''='' @ l')"
    using assms by (simp_all add: mac_message_def)
  with eq have "t = t'" and rest: "d @ ''='' @ l = d' @ ''='' @ l'" by simp_all
  have "split_once (CHR ''='') (d @ ''='' @ l) = Some (d, l)"
    and "split_once (CHR ''='') (d' @ ''='' @ l') = Some (d', l')"
    using assms by simp_all
  with rest \<open>t = t'\<close> show "t = t' \<and> d = d' \<and> l = l'" by simp
qed simp

lemma try_unwrap_disabled [simp]: "\<not> enabled cfg \<Longrightarrow> try_unwrap clk C raw cfg = Some NotSrs"
  by (simp add: try_unwrap_def)

lemma srs_form_split:
  assumes "srs_form raw h t d l rw"
  shows "\<exists>rest payload. strip_prefix ''SRS0='' raw = Some rest \<and>
    split_once (CHR ''@'') rest = Some (payload, rw) \<and> splitn 4 (CHR ''='') payload = [h, t, d, l]"
proof -
  let ?payload = "h @ CHR ''='' # t @ CHR ''='' # d @ CHR ''='' # l"
  from assms have raw: "raw = ''SRS0='' @ (?payload @ CHR ''@'' # rw)"
    and eqs: "CHR ''='' \<notin> set h" "CHR ''='' \<notin> set t" "CHR ''='' \<notin> set d"
    and at: "CHR ''@'' \<notin> set ?payload"
    by (auto simp: srs_form_def)
  have "strip_prefix ''SRS0='' raw = Some (?payload @ CHR ''@'' # rw)"
    unfolding raw by (rule strip_prefix_append)
  moreover have "split_once (CHR ''@'') (?payload @ CHR ''@'' # rw) = Some (?payload, rw)"
    using at by (rule split_once_append)
  moreover have "splitn 4 (CHR ''='') ?payload = [h, t, d, l]"
    using eqs by (subst splitn_4_Some) simp
  ultimately show ?thesis by blast
qed

lemma srs_form_unique:
  assumes "srs_form raw h t d l rw" and "srs_form raw h' t' d' l' rw'"
  shows "h' = h \<and> t' = t \<and> d' = d \<and> l' = l \<and> rw' = rw"
  using srs_form_split [OF assms(1)] srs_form_split [OF assms(2)] by auto

lemma try_unwrap_form:
  assumes "enabled cfg" and "srs_form raw h t d l rw"
  shows "try_unwrap clk C raw cfg =
    (if \<not> list_ex (\<lambda>secret. compute_hash C secret t d l = Some h) (secrets cfg) then Some InvalidHash
     else (case decode_timestamp t of
             None \<Rightarrow> Some InvalidHash
           | Some ts \<Rightarrow>
               (case age_in_days clk ts of
                  None \<Rightarrow> None
                | Some age \<Rightarrow>
                    if age > max_age_days cfg then Some Expired
                    else Some (Valid (l @ ''@'' @ d)))))"
  using srs_form_split [OF assms(2)] assms(1)
  by (elim exE conjE) (simp only: try_unwrap_def option.case prod.case list.case simp_thms if_False)

lemma try_unwrap_no_form:
  assumes "\<And>h t d l rw. \<not> srs_form raw h t d l rw"
  shows "try_unwrap clk C raw cfg = Some NotSrs"
proof (rule ccontr)
  assume other: "try_unwrap clk C raw cfg \<noteq> Some NotSrs"
  then obtain rest payload rw h t d l where
    rest: "raw = ''SRS0='' @ rest" and at: "split_once (CHR ''@'') rest = Some (payload, rw)"
    and parts: "splitn 4 (CHR ''='') payload = [h, t, d, l]"
    by (auto simp: try_unwrap_def strip_prefix_Some split: if_splits option.splits list.splits)
  from at have "rest = payload @ CHR ''@'' # rw" "CHR ''@'' \<notin> set payload"
    by (simp_all add: split_once_Some)
  with rest parts have "srs_form raw h t d l rw"
    by (auto simp: srs_form_def splitn_4_Some)
  with assms show False by blast
qed

lemma try_unwrap_Valid_iff:
  "try_unwrap clk C raw cfg = Some (Valid orig) \<longleftrightarrow>
     enabled cfg \<and>
     (\<exists>h t d l rw ts age. srs_form raw h t d l rw \<and>
        (\<exists>secret \<in> set (secrets cfg). compute_hash C secret t d l = Some h) \<and>
        decode_timestamp t = Some ts \<and> age_in_days clk ts = Some age \<and>
        age \<le> max_age_days cfg \<and> orig = l @ ''@'' @ d)"
proof (cases "enabled cfg \<and> (\<exists>h t d l rw. srs_form raw h t d l rw)")
  case True
  then obtain h t d l rw where en: "enabled cfg" and form: "srs_form raw h t d l rw" by blast
  have "(\<exists>h' t' d' l' rw' ts age. srs_form raw h' t' d' l' rw' \<and>
        (\<exists>secret \<in> set (secrets cfg). compute_hash C secret t' d' l' = Some h') \<and>
        decode_timestamp t' = Some ts \<and> age_in_days clk ts = Some age \<and>
        age \<le> max_age_days cfg \<and> orig = l' @ ''@'' @ d') \<longleftrightarrow>
    (\<exists>ts age. (\<exists>secret \<in> set (secrets cfg). compute_hash C secret t d l = Some h) \<and>
        decode_timestamp t = Some ts \<and> age_in_days clk ts = Some age \<and>
        age \<le> max_age_days cfg \<and> orig = l @ ''@'' @ d)"
    using form srs_form_unique [OF form] by blast
  then show ?thesis
    unfolding try_unwrap_form [OF en form]
    using en by (auto simp: list_ex_iff not_less split: option.splits)
next
  case False
  then show ?thesis
    using try_unwrap_no_form [of raw clk C cfg] by (cases "enabled cfg") auto
qed

lemma try_unwrap_total: "try_unwrap (Some secs) C raw cfg \<noteq> None"
  by (auto simp: try_unwrap_def age_in_days_def current_days_since_epoch_def Let_def
      split: option.splits list.splits)

end
