(* ===== verification/Spf_Lookup.thy ===== *)
theory Spf_Lookup
  imports Rust_Net
begin

text \<open>
  Module \<open>spf\<close>, DNS lookups: the interface that SPF evaluation queries, the production resolver
  that implements it (\<open>resolver.rs\<close>), the decorator that answers TXT queries from configured
  override records (\<open>override_resolver.rs\<close>) and the in-memory implementation of the tests
  (\<open>mock.rs\<close>).

  The trait \<open>Lookup\<close> of the crate \<open>viaspf\<close> is a record of five functions: an implementation is the
  answers it gives while a request is evaluated. The crate's types \<open>Name\<close> and \<open>LookupError\<close> are
  type variables, with the operations and constructors that the program uses as parameters.
\<close>

record 'n name_ops =
  name_to_string :: "'n \<Rightarrow> string"
  name_new :: "string \<Rightarrow> 'n option"

record 'le lookup_errors =
  err_timeout :: 'le
  err_no_records :: 'le
  err_dns_none :: 'le

record ('n, 'le) lookup =
  lookup_a :: "'n \<Rightarrow> ('le, ipv4_addr list) res"
  lookup_aaaa :: "'n \<Rightarrow> ('le, ipv6_addr list) res"
  lookup_mx :: "'n \<Rightarrow> ('le, 'n list) res"
  lookup_txt :: "'n \<Rightarrow> ('le, string list) res"
  lookup_ptr :: "ip_addr \<Rightarrow> ('le, 'n list) res"

section \<open>The system resolver\<close>

text \<open>
  \<open>HickoryLookup\<close> holds a resolver of the crate \<open>hickory_resolver\<close>, whose own implementation of
  the trait it delegates to.
\<close>

datatype ('n, 'le) hickory_lookup = HickoryLookup "('n, 'le) lookup"

definition from_system_conf :: "('re, ('n, 'le) lookup) res \<Rightarrow> ('re, ('n, 'le) hickory_lookup) res" where
  "from_system_conf system_resolver = and_then system_resolver (\<lambda>r. Ok (HickoryLookup r))"

fun hickory_impl :: "('n, 'le) hickory_lookup \<Rightarrow> ('n, 'le) lookup" where
  "hickory_impl (HickoryLookup r) =
     \<lparr>lookup_a = (\<lambda>name. lookup_a r name), lookup_aaaa = (\<lambda>name. lookup_aaaa r name),
      lookup_mx = (\<lambda>name. lookup_mx r name), lookup_txt = (\<lambda>name. lookup_txt r name),
      lookup_ptr = (\<lambda>ip. lookup_ptr r ip)\<rparr>"

lemma hickory_impl_eq [simp]: "hickory_impl (HickoryLookup r) = r"
  by simp

section \<open>Override records\<close>

record ('n, 'le) override_lookup =
  inner :: "('n, 'le) lookup"
  override_records :: "string \<rightharpoonup> string"

definition override_new :: "('n, 'le) lookup \<Rightarrow> (string \<rightharpoonup> string) \<Rightarrow> ('n, 'le) override_lookup" where
  "override_new inn ovr = \<lparr>inner = inn, override_records = ovr\<rparr>"

definition override_lookup_txt ::
  "'n name_ops \<Rightarrow> ('n, 'le) override_lookup \<Rightarrow> 'n \<Rightarrow> ('le, string list) res"
where
  "override_lookup_txt N self name =
     (let key = to_ascii_lowercase (name_to_string N name) in
      case override_records self key of
        Some record \<Rightarrow> Ok [record]
      | None \<Rightarrow> lookup_txt (inner self) name)"

definition override_impl :: "'n name_ops \<Rightarrow> ('n, 'le) override_lookup \<Rightarrow> ('n, 'le) lookup" where
  "override_impl N self =
     \<lparr>lookup_a = (\<lambda>name. lookup_a (inner self) name),
      lookup_aaaa = (\<lambda>name. lookup_aaaa (inner self) name),
      lookup_mx = (\<lambda>name. lookup_mx (inner self) name),
      lookup_txt = override_lookup_txt N self,
      lookup_ptr = (\<lambda>ip. lookup_ptr (inner self) ip)\<rparr>"

section \<open>The tests' lookup\<close>

record mock_lookup =
  mock_txt :: "string \<rightharpoonup> string list"
  mock_a :: "string \<rightharpoonup> ipv4_addr list"
  mock_aaaa :: "string \<rightharpoonup> ipv6_addr list"
  mock_mx :: "string \<rightharpoonup> string list"
  mock_ptr :: "ip_addr \<rightharpoonup> string list"
  mock_timeouts :: "string list"

definition mock_key :: "'n name_ops \<Rightarrow> 'n \<Rightarrow> string" where
  "mock_key N name = to_ascii_lowercase (name_to_string N name)"

definition mock_new :: mock_lookup where
  "mock_new =
     \<lparr>mock_txt = Map.empty, mock_a = Map.empty, mock_aaaa = Map.empty, mock_mx = Map.empty,
      mock_ptr = Map.empty, mock_timeouts = []\<rparr>"

definition with_txt :: "mock_lookup \<Rightarrow> string \<Rightarrow> string list \<Rightarrow> mock_lookup" where
  "with_txt m name records = m\<lparr>mock_txt := (mock_txt m)(to_ascii_lowercase name \<mapsto> records)\<rparr>"

definition with_a :: "mock_lookup \<Rightarrow> string \<Rightarrow> ipv4_addr list \<Rightarrow> mock_lookup" where
  "with_a m name addrs = m\<lparr>mock_a := (mock_a m)(to_ascii_lowercase name \<mapsto> addrs)\<rparr>"

definition with_aaaa :: "mock_lookup \<Rightarrow> string \<Rightarrow> ipv6_addr list \<Rightarrow> mock_lookup" where
  "with_aaaa m name addrs = m\<lparr>mock_aaaa := (mock_aaaa m)(to_ascii_lowercase name \<mapsto> addrs)\<rparr>"

definition with_mx :: "mock_lookup \<Rightarrow> string \<Rightarrow> string list \<Rightarrow> mock_lookup" where
  "with_mx m name exchanges = m\<lparr>mock_mx := (mock_mx m)(to_ascii_lowercase name \<mapsto> exchanges)\<rparr>"

definition with_ptr :: "mock_lookup \<Rightarrow> ip_addr \<Rightarrow> string list \<Rightarrow> mock_lookup" where
  "with_ptr m ip names = m\<lparr>mock_ptr := (mock_ptr m)(ip \<mapsto> names)\<rparr>"

definition with_timeout :: "mock_lookup \<Rightarrow> string \<Rightarrow> mock_lookup" where
  "with_timeout m name = m\<lparr>mock_timeouts := mock_timeouts m @ [to_ascii_lowercase name]\<rparr>"

definition mock_names :: "'n name_ops \<Rightarrow> 'le lookup_errors \<Rightarrow> string list option \<Rightarrow> ('le, 'n list) res" where
  "mock_names N E names =
     and_then (ok_or (err_no_records E) names)
       (collect_results (\<lambda>n. ok_or (err_dns_none E) (name_new N n)))"

definition mock_answer ::
  "'n name_ops \<Rightarrow> 'le lookup_errors \<Rightarrow> mock_lookup \<Rightarrow> (string \<rightharpoonup> 'r) \<Rightarrow> 'n \<Rightarrow> ('le, 'r) res"
where
  "mock_answer N E m table name =
     (let key = mock_key N name in
      if key \<in> set (mock_timeouts m) then Err (err_timeout E)
      else ok_or (err_no_records E) (table key))"

definition mock_lookup_mx ::
  "'n name_ops \<Rightarrow> 'le lookup_errors \<Rightarrow> mock_lookup \<Rightarrow> 'n \<Rightarrow> ('le, 'n list) res"
where
  "mock_lookup_mx N E m name =
     (let key = mock_key N name in
      if key \<in> set (mock_timeouts m) then Err (err_timeout E)
      else mock_names N E (mock_mx m key))"

definition mock_impl :: "'n name_ops \<Rightarrow> 'le lookup_errors \<Rightarrow> mock_lookup \<Rightarrow> ('n, 'le) lookup" where
  "mock_impl N E m =
     \<lparr>lookup_a = mock_answer N E m (mock_a m),
      lookup_aaaa = mock_answer N E m (mock_aaaa m),
      lookup_mx = mock_lookup_mx N E m,
      lookup_txt = mock_answer N E m (mock_txt m),
      lookup_ptr = (\<lambda>ip. mock_names N E (mock_ptr m ip))\<rparr>"

section \<open>The contract of an override layer\<close>

text \<open>
  A layer over a query function: the queries whose key is in a table are answered from it, all
  others by the function below.
\<close>

locale override_layer =
  fixes query :: "'n \<Rightarrow> 'r"
    and below :: "'n \<Rightarrow> 'r"
    and key :: "'n \<Rightarrow> 'k"
    and table :: "'k \<rightharpoonup> 'v"
    and answer :: "'v \<Rightarrow> 'r"
  assumes hit: "table (key n) = Some v \<Longrightarrow> query n = answer v"
    and miss: "table (key n) = None \<Longrightarrow> query n = below n"
begin

text \<open>An overridden name's answer does not depend on what is below, and only on its key.\<close>

lemma answer_by_key: "key m = key n \<Longrightarrow> table (key n) \<noteq> None \<Longrightarrow> query m = query n"
  using hit by fastforce

lemma transparent: "(\<And>n. key n \<notin> dom table) \<Longrightarrow> query = below"
  using miss by (auto simp: domIff fun_eq_iff)

lemma query_cases: "query n = below n \<or> (\<exists>v \<in> ran table. query n = answer v)"
  by (cases "table (key n)") (auto simp: hit miss intro: ranI)

end

interpretation override: override_layer
  "lookup_txt (override_impl N self)" "lookup_txt (inner self)"
  "\<lambda>n. to_ascii_lowercase (name_to_string N n)" "override_records self" "\<lambda>record. Ok [record]"
  for N :: "'n name_ops" and self :: "('n, 'le) override_lookup"
  by unfold_locales (simp_all add: override_impl_def override_lookup_txt_def)

lemma override_other_lookups [simp]:
  "lookup_a (override_impl N self) = lookup_a (inner self)"
  "lookup_aaaa (override_impl N self) = lookup_aaaa (inner self)"
  "lookup_mx (override_impl N self) = lookup_mx (inner self)"
  "lookup_ptr (override_impl N self) = lookup_ptr (inner self)"
  by (simp_all add: override_impl_def)

lemma lookup_eqI:
  fixes l l' :: "('n, 'le) lookup"
  assumes "lookup_a l = lookup_a l'" "lookup_aaaa l = lookup_aaaa l'" "lookup_mx l = lookup_mx l'"
    "lookup_txt l = lookup_txt l'" "lookup_ptr l = lookup_ptr l'"
  shows "l = l'"
  using assms by (rule lookup.equality) simp

text \<open>
  The layer compares lower-case names with the table's keys as they are: a key that is not in
  lower case is never found, and a layer with only such keys is the resolver below.
\<close>

lemma override_transparent:
  assumes "\<And>k. k \<in> dom (override_records self) \<Longrightarrow> to_ascii_lowercase k \<noteq> k"
  shows "override_impl N self = inner self"
proof (rule lookup_eqI)
  show "lookup_txt (override_impl N self) = lookup_txt (inner self)"
    using assms by (intro override.transparent) fastforce
qed simp_all

lemma mock_txt_with:
  "lookup_txt (mock_impl N E (with_txt m d records)) n =
     (if mock_key N n \<in> set (mock_timeouts m) then Err (err_timeout E)
      else if mock_key N n = to_ascii_lowercase d then Ok records
      else lookup_txt (mock_impl N E m) n)"
  by (simp add: mock_impl_def mock_answer_def with_txt_def Let_def)

end
