(* ===== verification/Spf_Evaluator.thy ===== *)
theory Spf_Evaluator
  imports Config_Model Spf_Lookup
begin

text \<open>
  Module \<open>spf\<close>, evaluation (\<open>rspf/src/spf/evaluator.rs\<close>): one SPF check of the HELO identity and
  one of the MAIL FROM identity, around the evaluator of the crate \<open>viaspf\<close>.

  The crate is not part of the repository: what the program calls of it is the record \<open>viaspf\<close>,
  a parameter. Its result type \<open>SpfResult\<close> has exactly the constructors that \<open>engine.rs\<close> matches
  without a wildcard, and \<open>SpfResultCause\<close> those that \<open>header.rs\<close> matches; the types that are
  only carried along and displayed (the explanation of a failure, a mechanism, an error cause) are
  the type variables \<open>'x\<close>, \<open>'m\<close> and \<open>'c\<close>.
\<close>

datatype 'x spf_result =
    Spf_None
  | Spf_Neutral
  | Spf_Pass
  | Spf_Fail 'x
  | Spf_Softfail
  | Spf_Temperror
  | Spf_Permerror

datatype ('m, 'c) spf_cause = Cause_Match 'm | Cause_Error 'c

text \<open>The \<open>Display\<close> output of the crate's types.\<close>

record ('x, 'm, 'c) spf_display =
  show_result :: "'x spf_result \<Rightarrow> string"
  show_mechanism :: "'m \<Rightarrow> string"
  show_error_cause :: "'c \<Rightarrow> string"

record ('x, 'm, 'c) query_result =
  q_spf_result :: "'x spf_result"
  q_cause :: "('m, 'c) spf_cause option"

text \<open>\<open>viaspf::Config\<close>: the limits that the builder was given.\<close>

record viaspf_config =
  vc_max_lookups :: u64
  vc_max_void_lookups :: u64
  vc_timeout_secs :: u64

record ('x, 'm, 'c, 's, 'd, 'l) viaspf = "('x, 'm, 'c) spf_display" +
  sender_from_domain :: "string \<Rightarrow> 's option"
  sender_from_address :: "string \<Rightarrow> 's option"
  sender_domain :: "'s \<Rightarrow> 'd"
  domain_name_new :: "string \<Rightarrow> 'd option"
  evaluate_sender ::
    "'l \<Rightarrow> viaspf_config \<Rightarrow> ip_addr \<Rightarrow> 's \<Rightarrow> 'd option \<Rightarrow> ('x, 'm, 'c) query_result"

section \<open>Outcomes\<close>

datatype identity = Helo | MailFrom

record ('x, 'm, 'c) spf_outcome =
  oc_identity :: identity
  oc_result :: "'x spf_result"
  oc_cause :: "('m, 'c) spf_cause option"

definition outcome_permerror :: "identity \<Rightarrow> ('x, 'm, 'c) spf_outcome" where
  "outcome_permerror ident = \<lparr>oc_identity = ident, oc_result = Spf_Permerror, oc_cause = None\<rparr>"

definition from_query_result :: "identity \<Rightarrow> ('x, 'm, 'c) query_result \<Rightarrow> ('x, 'm, 'c) spf_outcome" where
  "from_query_result ident r =
     \<lparr>oc_identity = ident, oc_result = q_spf_result r, oc_cause = q_cause r\<rparr>"

section \<open>The evaluator\<close>

record 'l spf_evaluator =
  ev_lookup :: 'l
  ev_config :: viaspf_config

definition evaluator_new :: "'l \<Rightarrow> spf_config \<Rightarrow> 'l spf_evaluator" where
  "evaluator_new lk cfg =
     \<lparr>ev_lookup = lk,
      ev_config = \<lparr>vc_max_lookups = max_lookups cfg, vc_max_void_lookups = void_limit cfg,
                   vc_timeout_secs = lookup_timeout_secs cfg\<rparr>\<rparr>"

definition check_helo ::
  "('x, 'm, 'c, 's, 'd, 'l) viaspf \<Rightarrow> 'l spf_evaluator \<Rightarrow> ip_addr \<Rightarrow> string \<Rightarrow> ('x, 'm, 'c) spf_outcome"
where
  "check_helo V self ip helo =
     (case sender_from_domain V helo of
        None \<Rightarrow> outcome_permerror Helo
      | Some sndr \<Rightarrow>
          (let helo_domain = sender_domain V sndr
           in from_query_result Helo
                (evaluate_sender V (ev_lookup self) (ev_config self) ip sndr (Some helo_domain))))"

definition check_mail_from ::
  "('x, 'm, 'c, 's, 'd, 'l) viaspf \<Rightarrow> 'l spf_evaluator \<Rightarrow> ip_addr \<Rightarrow> string \<Rightarrow> string \<Rightarrow>
     ('x, 'm, 'c) spf_outcome"
where
  "check_mail_from V self ip mail_from helo =
     (case (if mail_from = [] then sender_from_domain V helo else sender_from_address V mail_from) of
        None \<Rightarrow> outcome_permerror MailFrom
      | Some sndr \<Rightarrow>
          (let helo_domain = domain_name_new V helo
           in from_query_result MailFrom
                (evaluate_sender V (ev_lookup self) (ev_config self) ip sndr helo_domain)))"

section \<open>What the request handler relies on\<close>

text \<open>
  Each check answers for its own identity, and an identity that cannot be parsed is a permanent
  error, without a cause, and without a query.
\<close>

locale spf_checker =
  fixes helo_check :: "ip_addr \<Rightarrow> string \<Rightarrow> ('x, 'm, 'c) spf_outcome"
    and mail_from_check :: "ip_addr \<Rightarrow> string \<Rightarrow> string \<Rightarrow> ('x, 'm, 'c) spf_outcome"
    and helo_parses :: "string \<Rightarrow> bool"
    and mail_from_parses :: "string \<Rightarrow> string \<Rightarrow> bool"
  assumes helo_identity: "oc_identity (helo_check ip helo) = Helo"
    and mail_from_identity: "oc_identity (mail_from_check ip sndr helo) = MailFrom"
    and helo_unparsed: "\<not> helo_parses helo \<Longrightarrow> helo_check ip helo = outcome_permerror Helo"
    and mail_from_unparsed:
      "\<not> mail_from_parses sndr helo \<Longrightarrow> mail_from_check ip sndr helo = outcome_permerror MailFrom"
begin

lemma identities_differ: "helo_check ip helo \<noteq> mail_from_check ip' sndr helo'"
  using helo_identity mail_from_identity by (metis identity.distinct(1))

lemma unparsed_results:
  "\<not> helo_parses helo \<Longrightarrow> oc_result (helo_check ip helo) = Spf_Permerror"
  "\<not> mail_from_parses sndr helo \<Longrightarrow> oc_result (mail_from_check ip sndr helo) = Spf_Permerror"
  by (simp_all add: helo_unparsed mail_from_unparsed outcome_permerror_def)

end

interpretation evaluator: spf_checker
  "check_helo V ev" "check_mail_from V ev"
  "\<lambda>helo. sender_from_domain V helo \<noteq> None"
  "\<lambda>sndr helo. (if sndr = [] then sender_from_domain V helo else sender_from_address V sndr) \<noteq> None"
  for V :: "('x, 'm, 'c, 's, 'd, 'l) viaspf" and ev :: "'l spf_evaluator"
  by unfold_locales
     (auto simp: check_helo_def check_mail_from_def outcome_permerror_def from_query_result_def Let_def
       split: option.splits)

lemma check_mail_from_null:
  assumes "sender_from_domain V helo = Some sndr"
    and "domain_name_new V helo = Some (sender_domain V sndr)"
  shows "oc_result (check_mail_from V ev ip [] helo) = oc_result (check_helo V ev ip helo) \<and>
         oc_cause (check_mail_from V ev ip [] helo) = oc_cause (check_helo V ev ip helo)"
  using assms by (simp add: check_mail_from_def check_helo_def from_query_result_def Let_def)

end
