(* ===== verification/Spf_Header.thy ===== *)
theory Spf_Header
  imports Spf_Evaluator
begin

text \<open>
  Module \<open>spf\<close>, the \<open>Received-SPF\<close> header (\<open>rspf/src/spf/header.rs\<close>): its text, built from an
  outcome and the request.
\<close>

definition recipient_domain :: "string \<Rightarrow> string option \<Rightarrow> string" where
  "recipient_domain rcpt authserv =
     (case authserv of
        Some i \<Rightarrow> i
      | None \<Rightarrow> (case rsplit_once (CHR ''@'') rcpt of None \<Rightarrow> ''UNKNOWN'' | Some (_, domain) \<Rightarrow> domain))"

definition describe_error_cause :: "('x, 'm, 'c, 'z) spf_display_scheme \<Rightarrow> 'c \<Rightarrow> string" where
  "describe_error_cause D c = show_error_cause D c"

definition describe_cause ::
  "('x, 'm, 'c, 'z) spf_display_scheme \<Rightarrow> ('x, 'm, 'c) spf_outcome \<Rightarrow> string \<Rightarrow> ip_addr \<Rightarrow> string"
where
  "describe_cause D outcome mail_from ip =
     (case oc_cause outcome of
        Some (Cause_Match mechanism) \<Rightarrow>
          ''domain of '' @ mail_from @ '' designates '' @ show_ip ip @ '' as '' @
          show_result D (oc_result outcome) @ '', matched '' @ [CHR 0x22] @
          show_mechanism D mechanism @ [CHR 0x22]
      | Some (Cause_Error c) \<Rightarrow> describe_error_cause D c
      | None \<Rightarrow>
          ''domain of '' @ mail_from @ '' does not designate a policy for '' @ show_ip ip)"

definition build_received_spf ::
  "('x, 'm, 'c, 'z) spf_display_scheme \<Rightarrow> ('x, 'm, 'c) spf_outcome \<Rightarrow> ip_addr \<Rightarrow> string \<Rightarrow> string \<Rightarrow>
     string \<Rightarrow> header_config \<Rightarrow> string"
where
  "build_received_spf D outcome ip mail_from helo rcpt cfg =
     (let ident = (case oc_identity outcome of Helo \<Rightarrow> ''helo'' | MailFrom \<Rightarrow> ''mailfrom'');
          receiver = (if hide_receiver cfg then ''UNKNOWN'' else recipient_domain rcpt (authserv_id cfg));
          comment = describe_cause D outcome mail_from ip
      in show_result D (oc_result outcome) @ '' ('' @ comment @ '') client-ip='' @ show_ip ip @
         ''; envelope-from='' @ [CHR 0x22] @ mail_from @ [CHR 0x22] @ ''; helo='' @ helo @
         ''; receiver='' @ [CHR 0x22] @ receiver @ [CHR 0x22] @ ''; identity='' @ ident @ '';'')"

section \<open>The header is one line\<close>

text \<open>The texts that the crate's displays give have no line feed.\<close>

definition display_single_line :: "('x, 'm, 'c, 'z) spf_display_scheme \<Rightarrow> bool" where
  "display_single_line D \<longleftrightarrow>
     (\<forall>r. LF \<notin> set (show_result D r)) \<and> (\<forall>m. LF \<notin> set (show_mechanism D m)) \<and>
     (\<forall>c. LF \<notin> set (show_error_cause D c))"

lemma LF_show_ip [simp]: "LF \<notin> set (show_ip ip)"
  by (rule show_ip_no_byte) (simp add: ip_char_def)

lemma recipient_domain_bytes:
  "b \<in> set (recipient_domain rcpt authserv) \<Longrightarrow>
     b \<in> set rcpt \<or> b \<in> set ''UNKNOWN'' \<or> (\<exists>i. authserv = Some i \<and> b \<in> set i)"
  by (auto simp: recipient_domain_def rsplit_once_Some split: option.splits)

lemma describe_cause_single_line:
  assumes "display_single_line D" and "LF \<notin> set mail_from"
  shows "LF \<notin> set (describe_cause D outcome mail_from ip)"
  using assms
  by (auto simp: describe_cause_def describe_error_cause_def display_single_line_def
      split: option.splits spf_cause.splits)

lemma build_received_spf_single_line:
  assumes "display_single_line D" and "LF \<notin> set mail_from" and "LF \<notin> set helo"
    and "LF \<notin> set rcpt" and "case authserv_id cfg of None \<Rightarrow> True | Some i \<Rightarrow> LF \<notin> set i"
  shows "LF \<notin> set (build_received_spf D outcome ip mail_from helo rcpt cfg)"
proof -
  have "LF \<notin> set (recipient_domain rcpt (authserv_id cfg))"
    using assms(4,5) by (auto dest!: recipient_domain_bytes split: option.splits)
  moreover have "LF \<notin> set (describe_cause D outcome mail_from ip)"
    using assms(1,2) by (rule describe_cause_single_line)
  moreover have "LF \<notin> set (show_result D (oc_result outcome))"
    using assms(1) by (simp add: display_single_line_def)
  ultimately show ?thesis
    using assms(2,3) by (simp add: build_received_spf_def Let_def split: identity.splits)
qed

end
