(* ===== verification/Proto_Response.thy ===== *)
theory Proto_Response
  imports Rust_Str
begin

text \<open>
  Module \<open>proto\<close>, responses (\<open>rspf/src/proto/response.rs\<close>): the action sent back to Postfix and
  its wire form, one line and the empty line that ends it.
\<close>

datatype action =
    Dunno
  | Prepend string
  | Reject string
  | DeferIfPermit string

fun show_action :: "action \<Rightarrow> string" where
  "show_action Dunno = ''action=dunno''"
| "show_action (Prepend header) = ''action=PREPEND '' @ header"
| "show_action (Reject reason) = ''action='' @ reason"
| "show_action (DeferIfPermit reason) = ''action=defer_if_permit '' @ reason"

definition to_wire :: "action \<Rightarrow> string" where
  "to_wire a = show_action a @ [LF, LF]"

text \<open>The text an action carries.\<close>

fun action_text :: "action \<Rightarrow> string" where
  "action_text Dunno = []"
| "action_text (Prepend s) = s"
| "action_text (Reject s) = s"
| "action_text (DeferIfPermit s) = s"

lemma set_show_action:
  "LF \<in> set (show_action a) \<longleftrightarrow> LF \<in> set (action_text a)"
  by (cases a) auto

text \<open>
  The reader's side of the protocol: the text up to the first empty line. A response whose action
  has no line feed is read back whole, with what follows it left alone.
\<close>

lemma to_wire_first_line:
  assumes "LF \<notin> set (action_text a)"
  shows "split_once LF (to_wire a @ rest) = Some (show_action a, LF # rest)"
  using assms by (simp add: to_wire_def set_show_action [of a, symmetric])

text \<open>
  The reader's side over a whole stream: the lines that a line feed ends, grouped into replies by
  the empty ones. A reply whose empty line has not come yet is not one.
\<close>

fun group_lines :: "string list \<Rightarrow> string list \<Rightarrow> string list list" where
  "group_lines acc [] = []"
| "group_lines acc (l # ls) =
     (if l = [] then acc # group_lines [] ls else group_lines (acc @ [l]) ls)"

definition read_replies :: "string \<Rightarrow> string list list" where
  "read_replies s = group_lines [] (butlast (split_on LF s))"

lemma show_action_not_Nil [simp]: "show_action a \<noteq> []"
  by (cases a) simp_all

lemma read_replies_to_wire:
  assumes "list_all (\<lambda>a. LF \<notin> set (action_text a)) acts"
  shows "read_replies (concat (map to_wire acts)) = map (\<lambda>a. [show_action a]) acts"
  using assms
proof (induction acts)
  case Nil
  show ?case by (simp add: read_replies_def)
next
  case (Cons a acts)
  let ?t = "concat (map to_wire acts)"
  have "LF \<notin> set (show_action a)" using Cons.prems by (simp add: set_show_action)
  then have "split_on LF (to_wire a @ ?t) = show_action a # [] # split_on LF ?t"
    by (simp add: to_wire_def split_on_append)
  then show ?case using Cons by (simp add: read_replies_def)
qed

end
