(* ===== verification/Engine.thy ===== *)
theory Engine
  imports Config_Load Spf_Header Proto_Response
begin

text \<open>
  Module \<open>engine\<close> (\<open>rspf/src/engine.rs\<close>): from the HELO and MAIL FROM outcomes to one action,
  under the configured policies, with the rendering of reply messages.

  The lemmas relate the severity classification to a reading of the policy table, the decision to
  the maximum of two severities, and the chain of replacements that renders a message to the
  grammar of templates that configuration validation accepts.
\<close>

record decision_context =
  ctx_ip :: ip_addr
  ctx_sender :: string
  ctx_helo :: string
  ctx_recipient :: string

section \<open>Severities\<close>

datatype severity = Sev_None | Sev_Defer | Sev_Reject

fun severity_rank :: "severity \<Rightarrow> nat" where
  "severity_rank Sev_None = 0"
| "severity_rank Sev_Defer = 1"
| "severity_rank Sev_Reject = 2"

lemma severity_rank_inject [simp]: "severity_rank a = severity_rank b \<longleftrightarrow> a = b"
  by (cases a; cases b) simp_all

text \<open>The derived order: by position in the declaration.\<close>

instantiation severity :: linorder
begin

definition less_eq_severity :: "severity \<Rightarrow> severity \<Rightarrow> bool" where
  "a \<le> b \<longleftrightarrow> severity_rank a \<le> severity_rank b"

definition less_severity :: "severity \<Rightarrow> severity \<Rightarrow> bool" where
  "a < b \<longleftrightarrow> severity_rank a < severity_rank b"

instance
  by standard (auto simp: less_eq_severity_def less_severity_def)

end

lemmas severity_order = less_eq_severity_def less_severity_def

lemma Sev_None_least [simp]: "Sev_None \<le> s"
  by (simp add: less_eq_severity_def)

definition classify_severity :: "reject_policy \<Rightarrow> 'x spf_result \<Rightarrow> bool \<Rightarrow> bool \<Rightarrow> severity" where
  "classify_severity policy result permerror temperror =
     (if policy = RP_NoCheck then Sev_None
      else case result of
        Spf_Permerror \<Rightarrow> (if permerror then Sev_Reject else Sev_None)
      | Spf_Temperror \<Rightarrow> (if temperror then Sev_Defer else Sev_None)
      | _ \<Rightarrow>
          (case policy of
             RP_Never \<Rightarrow> Sev_None
           | RP_NoCheck \<Rightarrow> Sev_None
           | RP_Fail \<Rightarrow> (case result of Spf_Fail _ \<Rightarrow> Sev_Reject | _ \<Rightarrow> Sev_None)
           | RP_SoftFail \<Rightarrow>
               (case result of Spf_Fail _ \<Rightarrow> Sev_Reject | Spf_Softfail \<Rightarrow> Sev_Reject | _ \<Rightarrow> Sev_None)
           | RP_SpfNotPass \<Rightarrow> (case result of Spf_Pass \<Rightarrow> Sev_None | _ \<Rightarrow> Sev_Reject)))"

section \<open>Messages\<close>

fun message_template :: "message_templates \<Rightarrow> 'x spf_result \<Rightarrow> string" where
  "message_template m (Spf_Fail _) = msg_fail m"
| "message_template m Spf_Softfail = msg_softfail m"
| "message_template m Spf_Neutral = msg_neutral m"
| "message_template m Spf_None = msg_none m"
| "message_template m Spf_Permerror = msg_permerror m"
| "message_template m Spf_Temperror = msg_temperror m"
| "message_template m Spf_Pass = ''550 5.7.1 SPF check failed''"

definition substitute ::
  "('x, 'm, 'c, 'z) spf_display_scheme \<Rightarrow> 'x spf_result \<Rightarrow> decision_context \<Rightarrow> string \<Rightarrow> string"
where
  "substitute D result ctx template =
     replace_all ''{recipient}'' (ctx_recipient ctx)
       (replace_all ''{ip}'' (show_ip (ctx_ip ctx))
         (replace_all ''{helo}'' (ctx_helo ctx)
           (replace_all ''{sender}'' (ctx_sender ctx)
             (replace_all ''{result}'' (show_result D result) template))))"

definition render_message ::
  "('x, 'm, 'c, 'z) spf_display_scheme \<Rightarrow> message_templates \<Rightarrow> 'x spf_result \<Rightarrow> decision_context \<Rightarrow> string"
where
  "render_message D msgs result ctx = substitute D result ctx (message_template msgs result)"

section \<open>The decision\<close>

definition decide ::
  "('x, 'm, 'c, 'z) spf_display_scheme \<Rightarrow> 'net config \<Rightarrow> ('x, 'm, 'c) spf_outcome \<Rightarrow>
     ('x, 'm, 'c) spf_outcome \<Rightarrow> decision_context \<Rightarrow> action"
where
  "decide D cfg helo mail_from ctx =
     (let pol = policy_cfg cfg;
          helo_severity =
            classify_severity (helo_reject pol) (oc_result helo) (permerror_reject pol) (temperror_defer pol);
          mail_from_severity =
            classify_severity (mail_from_reject pol) (oc_result mail_from)
              (permerror_reject pol) (temperror_defer pol);
          (sev, responsible) =
            (if helo_severity > mail_from_severity then (helo_severity, helo)
             else (mail_from_severity, mail_from))
      in case sev of
           Sev_Reject \<Rightarrow> Reject (render_message D (messages cfg) (oc_result responsible) ctx)
         | Sev_Defer \<Rightarrow> DeferIfPermit (render_message D (messages cfg) (oc_result responsible) ctx)
         | Sev_None \<Rightarrow>
             (case mode (header_cfg cfg) of
                HM_Spf \<Rightarrow>
                  Prepend (''Received-SPF: '' @
                    build_received_spf D mail_from (ctx_ip ctx) (ctx_sender ctx) (ctx_helo ctx)
                      (ctx_recipient ctx) (header_cfg cfg))
              | HM_None \<Rightarrow> Dunno))"

section \<open>Reading the classification\<close>

fun action_severity :: "action \<Rightarrow> severity" where
  "action_severity Dunno = Sev_None"
| "action_severity (Prepend _) = Sev_None"
| "action_severity (DeferIfPermit _) = Sev_Defer"
| "action_severity (Reject _) = Sev_Reject"

text \<open>The policy table of the configuration reference.\<close>

definition is_fail :: "'x spf_result \<Rightarrow> bool" where
  "is_fail r \<longleftrightarrow> (case r of Spf_Fail _ \<Rightarrow> True | _ \<Rightarrow> False)"

definition rejects :: "reject_policy \<Rightarrow> 'x spf_result \<Rightarrow> bool \<Rightarrow> bool" where
  "rejects policy r permerror \<longleftrightarrow>
     policy \<noteq> RP_NoCheck \<and> r = Spf_Permerror \<and> permerror \<or>
     policy \<in> {RP_Fail, RP_SoftFail, RP_SpfNotPass} \<and> is_fail r \<or>
     policy \<in> {RP_SoftFail, RP_SpfNotPass} \<and> r = Spf_Softfail \<or>
     policy = RP_SpfNotPass \<and> r \<in> {Spf_Neutral, Spf_None}"

definition defers :: "reject_policy \<Rightarrow> 'x spf_result \<Rightarrow> bool \<Rightarrow> bool" where
  "defers policy r temperror \<longleftrightarrow> policy \<noteq> RP_NoCheck \<and> r = Spf_Temperror \<and> temperror"

lemma classify_Reject_iff: "classify_severity policy r pe te = Sev_Reject \<longleftrightarrow> rejects policy r pe"
  by (cases policy; cases r) (simp_all add: classify_severity_def rejects_def is_fail_def)

lemma classify_Defer_iff: "classify_severity policy r pe te = Sev_Defer \<longleftrightarrow> defers policy r te"
  by (cases policy; cases r) (simp_all add: classify_severity_def defers_def)

lemma classify_Pass [simp]: "classify_severity policy Spf_Pass pe te = Sev_None"
  by (cases policy) (simp_all add: classify_severity_def)

lemma classify_NoCheck [simp]: "classify_severity RP_NoCheck r pe te = Sev_None"
  by (simp add: classify_severity_def)

text \<open>The severities of a pair of outcomes under a configuration.\<close>

definition helo_severity :: "'net config \<Rightarrow> 'x spf_result \<Rightarrow> severity" where
  "helo_severity cfg r =
     classify_severity (helo_reject (policy_cfg cfg)) r (permerror_reject (policy_cfg cfg))
       (temperror_defer (policy_cfg cfg))"

definition mail_from_severity :: "'net config \<Rightarrow> 'x spf_result \<Rightarrow> severity" where
  "mail_from_severity cfg r =
     classify_severity (mail_from_reject (policy_cfg cfg)) r (permerror_reject (policy_cfg cfg))
       (temperror_defer (policy_cfg cfg))"

lemma helo_severity_NoCheck:
  "helo_reject (policy_cfg cfg) = RP_NoCheck \<Longrightarrow> helo_severity cfg r = Sev_None"
  by (simp add: helo_severity_def)

text \<open>The result whose message is used: HELO's only where it is strictly more severe.\<close>

definition responsible_result :: "'net config \<Rightarrow> 'x spf_result \<Rightarrow> 'x spf_result \<Rightarrow> 'x spf_result" where
  "responsible_result cfg h m = (if helo_severity cfg h > mail_from_severity cfg m then h else m)"

lemma decide_eq:
  "decide D cfg helo mail_from ctx =
     (let h = oc_result helo; m = oc_result mail_from;
          msg = render_message D (messages cfg) (responsible_result cfg h m) ctx
      in case max (helo_severity cfg h) (mail_from_severity cfg m) of
           Sev_Reject \<Rightarrow> Reject msg
         | Sev_Defer \<Rightarrow> DeferIfPermit msg
         | Sev_None \<Rightarrow>
             (case mode (header_cfg cfg) of
                HM_Spf \<Rightarrow>
                  Prepend (''Received-SPF: '' @
                    build_received_spf D mail_from (ctx_ip ctx) (ctx_sender ctx) (ctx_helo ctx)
                      (ctx_recipient ctx) (header_cfg cfg))
              | HM_None \<Rightarrow> Dunno))"
  by (auto simp: decide_def Let_def helo_severity_def mail_from_severity_def responsible_result_def
      max_def not_less split: if_splits)

lemma action_severity_decide:
  "action_severity (decide D cfg helo mail_from ctx) =
     max (helo_severity cfg (oc_result helo)) (mail_from_severity cfg (oc_result mail_from))"
  by (simp add: decide_eq Let_def split: severity.split header_mode.split)

lemma max_severity_Reject: "max a b = Sev_Reject \<longleftrightarrow> a = Sev_Reject \<or> b = Sev_Reject"
  by (cases a; cases b) (simp_all add: max_def severity_order)

lemma max_severity_None: "max a b = Sev_None \<longleftrightarrow> a = Sev_None \<and> b = Sev_None"
  by (cases a; cases b) (simp_all add: max_def severity_order)

lemma decide_Reject_iff:
  "(\<exists>m. decide D cfg helo mail_from ctx = Reject m) \<longleftrightarrow>
     rejects (helo_reject (policy_cfg cfg)) (oc_result helo) (permerror_reject (policy_cfg cfg)) \<or>
     rejects (mail_from_reject (policy_cfg cfg)) (oc_result mail_from) (permerror_reject (policy_cfg cfg))"
proof -
  let ?a = "decide D cfg helo mail_from ctx"
  have "action_severity ?a = max (helo_severity cfg (oc_result helo)) (mail_from_severity cfg (oc_result mail_from))"
    by (rule action_severity_decide)
  moreover have "(\<exists>m. ?a = Reject m) \<longleftrightarrow> action_severity ?a = Sev_Reject" by (cases ?a) simp_all
  ultimately show ?thesis
    by (simp add: max_severity_Reject helo_severity_def mail_from_severity_def classify_Reject_iff)
qed

text \<open>The result that a rejecting or deferring message is about is never a pass.\<close>

lemma responsible_not_pass:
  assumes "max (helo_severity cfg h) (mail_from_severity cfg m) \<noteq> Sev_None"
  shows "responsible_result cfg h m \<noteq> Spf_Pass"
proof
  assume "responsible_result cfg h m = Spf_Pass"
  then consider "helo_severity cfg h > mail_from_severity cfg m" "h = Spf_Pass"
    | "\<not> helo_severity cfg h > mail_from_severity cfg m" "m = Spf_Pass"
    by (auto simp: responsible_result_def split: if_splits)
  then show False
  proof cases
    case 1
    then show False by (simp add: helo_severity_def severity_order)
  next
    case 2
    then have "mail_from_severity cfg m = Sev_None" by (simp add: mail_from_severity_def)
    with 2 assms show False by (simp add: max_def not_less severity_order split: if_splits)
  qed
qed

section \<open>Rendering a template\<close>

text \<open>
  What a client of a renderer relies on: literal text in front is copied. A reply's status code
  and any text without placeholders come out as configured, whatever the request says.
\<close>

locale template_renderer =
  fixes render :: "string \<Rightarrow> string"
  assumes render_Nil: "render [] = []"
    and render_literal: "CHR ''{'' \<notin> set p \<Longrightarrow> render (p @ t) = p @ render t"
begin

lemma render_constant: "CHR ''{'' \<notin> set p \<Longrightarrow> render p = p"
  using render_literal [of p "[]"] by (simp add: render_Nil)

lemma render_prefix: "prefix p t \<Longrightarrow> CHR ''{'' \<notin> set p \<Longrightarrow> prefix p (render t)"
  by (auto simp: prefix_def render_literal)

end

interpretation reply: template_renderer "substitute D result ctx"
  for D :: "('x, 'm, 'c, 'z) spf_display_scheme" and result :: "'x spf_result" and ctx :: decision_context
  by unfold_locales (simp_all add: substitute_def replace_all_append)

text \<open>One replacement, on the pieces of a template.\<close>

fun fill :: "string \<Rightarrow> string \<Rightarrow> piece \<Rightarrow> piece" where
  "fill n v (Lit s) = Lit s"
| "fill n v (Hole m) = (if m = n then Lit v else Hole m)"

lemma replace_other_hole:
  assumes "CHR ''}'' \<notin> set n" and "CHR ''}'' \<notin> set m" and "CHR ''{'' \<notin> set m" and "n \<noteq> m"
  shows "replace_all (CHR ''{'' # n @ ''}'') v (CHR ''{'' # m @ CHR ''}'' # t) =
         CHR ''{'' # m @ CHR ''}'' # replace_all (CHR ''{'' # n @ ''}'') v t"
proof -
  have "\<not> prefix (n @ ''}'') (m @ CHR ''}'' # t)"
  proof
    assume "prefix (n @ ''}'') (m @ CHR ''}'' # t)"
    then obtain u where "m @ CHR ''}'' # t = n @ CHR ''}'' # u" by (auto simp: prefix_def)
    with assms(1,2) have "m = n" by (metis split_once_append option.inject prod.inject)
    with assms(4) show False by simp
  qed
  then show ?thesis
    using replace_all_append [of "CHR ''{'' # n @ ''}''" "m @ ''}''" v t] assms(3) by simp
qed

lemma replace_tail:
  assumes "tail_ok tail"
  shows "replace_all (CHR ''{'' # n @ ''}'') v tail = tail"
proof (cases "split_once (CHR ''{'') tail")
  case None
  then show ?thesis by (intro replace_all_absent) (simp_all add: split_once_None)
next
  case (Some p)
  then obtain a r where p: "split_once (CHR ''{'') tail = Some (a, r)" by (cases p) auto
  with assms have "tail = a @ CHR ''{'' # r" "CHR ''{'' \<notin> set a" "CHR ''}'' \<notin> set (CHR ''{'' # r)"
    by (auto simp: tail_ok_def split_once_Some)
  then show ?thesis
    using replace_all_missing [of "CHR ''}''" "CHR ''{'' # n @ ''}''" "CHR ''{'' # r" v]
    by (simp add: replace_all_append del: replace_all.simps)
qed

lemma replace_pieces:
  assumes "list_all piece_ok ps" and "tail_ok tail" and "n \<in> set known_message_placeholders"
  shows "replace_all (CHR ''{'' # n @ ''}'') v (flatten ps @ tail) = flatten (map (fill n v) ps) @ tail"
  using assms(1)
proof (induction ps)
  case Nil
  with assms(2) show ?case by (simp add: replace_tail)
next
  case (Cons p ps)
  show ?case
  proof (cases p)
    case (Lit s)
    with Cons show ?thesis by (simp add: replace_all_append)
  next
    case (Hole m)
    with Cons have IH: "replace_all (CHR ''{'' # n @ ''}'') v (flatten ps @ tail) =
      flatten (map (fill n v) ps) @ tail" and m: "m \<in> set known_message_placeholders" by simp_all
    show ?thesis
    proof (cases "m = n")
      case True
      with Hole IH show ?thesis
        using replace_all_hit [of "CHR ''{'' # n @ ''}''" v "flatten ps @ tail"]
        by (simp del: replace_all.simps)
    next
      case False
      with Hole IH show ?thesis
        using replace_other_hole [of n m v "flatten ps @ tail"]
          known_placeholder_no_brace [OF m] known_placeholder_no_brace [OF assms(3)]
        by (simp del: replace_all.simps)
    qed
  qed
qed

lemma fill_ok: "CHR ''{'' \<notin> set v \<Longrightarrow> piece_ok p \<Longrightarrow> piece_ok (fill n v p)"
  by (cases p) auto

lemma fill_all_ok:
  "CHR ''{'' \<notin> set v \<Longrightarrow> list_all piece_ok ps \<Longrightarrow> list_all piece_ok (map (fill n v) ps)"
  by (auto simp: list_all_iff fill_ok)

text \<open>The values a request gives to the placeholders, and their substitution all at once.\<close>

definition hole_value ::
  "('x, 'm, 'c, 'z) spf_display_scheme \<Rightarrow> 'x spf_result \<Rightarrow> decision_context \<Rightarrow> string \<Rightarrow> string"
where
  "hole_value D result ctx n =
     (if n = ''result'' then show_result D result
      else if n = ''sender'' then ctx_sender ctx
      else if n = ''helo'' then ctx_helo ctx
      else if n = ''ip'' then show_ip (ctx_ip ctx)
      else ctx_recipient ctx)"

fun subst_piece :: "(string \<Rightarrow> string) \<Rightarrow> piece \<Rightarrow> string" where
  "subst_piece f (Lit s) = s"
| "subst_piece f (Hole n) = f n"

definition values_brace_free ::
  "('x, 'm, 'c, 'z) spf_display_scheme \<Rightarrow> 'x spf_result \<Rightarrow> decision_context \<Rightarrow> bool"
where
  "values_brace_free D result ctx \<longleftrightarrow>
     CHR ''{'' \<notin> set (show_result D result) \<and> CHR ''{'' \<notin> set (ctx_sender ctx) \<and>
     CHR ''{'' \<notin> set (ctx_helo ctx) \<and> CHR ''{'' \<notin> set (ctx_recipient ctx)"

lemma fill_five:
  assumes "piece_ok p"
  shows "piece_str (fill ''recipient'' (ctx_recipient ctx) (fill ''ip'' (show_ip (ctx_ip ctx))
     (fill ''helo'' (ctx_helo ctx) (fill ''sender'' (ctx_sender ctx)
       (fill ''result'' (show_result D result) p))))) = subst_piece (hole_value D result ctx) p"
proof (cases p)
  case (Lit s)
  then show ?thesis by simp
next
  case (Hole n)
  with assms have "n \<in> {''result'', ''sender'', ''helo'', ''ip'', ''recipient''}"
    by (simp add: known_message_placeholders_def)
  then show ?thesis unfolding Hole by (elim insertE emptyE) (simp_all add: hole_value_def)
qed

lemma substitute_simultaneous:
  assumes "template_form t ps tail" and "values_brace_free D result ctx"
  shows "substitute D result ctx t =
         concat (map (subst_piece (hole_value D result ctx)) ps) @ tail"
proof -
  let ?K = "known_message_placeholders"
  have t: "t = flatten ps @ tail" and ok: "list_all piece_ok ps" and tail: "tail_ok tail"
    using assms(1) by (simp_all add: template_form_def)
  have known: "''result'' \<in> set ?K" "''sender'' \<in> set ?K" "''helo'' \<in> set ?K" "''ip'' \<in> set ?K"
    "''recipient'' \<in> set ?K" by (simp_all add: known_message_placeholders_def)
  have brace: "CHR ''{'' \<notin> set (show_result D result)" "CHR ''{'' \<notin> set (ctx_sender ctx)"
    "CHR ''{'' \<notin> set (ctx_helo ctx)" "CHR ''{'' \<notin> set (show_ip (ctx_ip ctx))"
    using assms(2) show_ip_no_byte [of "CHR ''{''" "ctx_ip ctx"]
    by (simp_all add: values_brace_free_def ip_char_def)
  let ?p1 = "map (fill ''result'' (show_result D result)) ps"
  let ?p2 = "map (fill ''sender'' (ctx_sender ctx)) ?p1"
  let ?p3 = "map (fill ''helo'' (ctx_helo ctx)) ?p2"
  let ?p4 = "map (fill ''ip'' (show_ip (ctx_ip ctx))) ?p3"
  let ?p5 = "map (fill ''recipient'' (ctx_recipient ctx)) ?p4"
  have ok1: "list_all piece_ok ?p1" by (rule fill_all_ok [OF brace(1) ok])
  have ok2: "list_all piece_ok ?p2" by (rule fill_all_ok [OF brace(2) ok1])
  have ok3: "list_all piece_ok ?p3" by (rule fill_all_ok [OF brace(3) ok2])
  have ok4: "list_all piece_ok ?p4" by (rule fill_all_ok [OF brace(4) ok3])
  have "substitute D result ctx t = flatten ?p5 @ tail"
    using replace_pieces [OF ok tail known(1)] replace_pieces [OF ok1 tail known(2)]
      replace_pieces [OF ok2 tail known(3)] replace_pieces [OF ok3 tail known(4)]
      replace_pieces [OF ok4 tail known(5)]
    by (simp add: substitute_def t del: replace_all.simps)
  also have "flatten ?p5 = concat (map (subst_piece (hole_value D result ctx)) ps)"
    unfolding flatten_def map_map comp_def
    using ok fill_five [of _ ctx D result] by (intro arg_cong [of _ _ concat] map_cong) (auto simp: list_all_iff)
  finally show ?thesis .
qed

lemma hole_value_brace_free: "values_brace_free D result ctx \<Longrightarrow> CHR ''{'' \<notin> set (hole_value D result ctx n)"
  using show_ip_no_byte [of "CHR ''{''" "ctx_ip ctx"]
  by (auto simp: values_brace_free_def hole_value_def ip_char_def)

text \<open>Nothing that looks like a placeholder is left in a rendered message.\<close>

lemma substitute_complete:
  assumes "template_ok t" and "values_brace_free D result ctx"
  shows "tail_ok (substitute D result ctx t)"
proof -
  obtain ps tail where form: "template_form t ps tail" using assms(1) by (auto simp: template_ok_def)
  let ?out = "concat (map (subst_piece (hole_value D result ctx)) ps)"
  have "CHR ''{'' \<notin> set (subst_piece (hole_value D result ctx) p)" if "p \<in> set ps" for p
    using form that hole_value_brace_free [OF assms(2)]
    by (cases p) (auto simp: template_form_def list_all_iff)
  then have out: "CHR ''{'' \<notin> set ?out" by auto
  have "tail_ok tail" using form by (simp add: template_form_def)
  then have "tail_ok (?out @ tail)"
  proof (cases "split_once (CHR ''{'') tail")
    case None
    with out show ?thesis by (simp add: tail_ok_def split_once_None)
  next
    case (Some p)
    then obtain a r where "split_once (CHR ''{'') tail = Some (a, r)" by (cases p) auto
    moreover from this out have "split_once (CHR ''{'') (?out @ tail) = Some (?out @ a, r)"
      by (simp add: split_once_Some)
    ultimately show ?thesis using \<open>tail_ok tail\<close> by (simp add: tail_ok_def)
  qed
  then show ?thesis by (simp add: substitute_simultaneous [OF form assms(2)])
qed

section \<open>Bytes of a rendered message\<close>

lemma set_substitute:
  "set (substitute D result ctx t) \<subseteq>
     set t \<union> set (show_result D result) \<union> set (ctx_sender ctx) \<union> set (ctx_helo ctx) \<union>
     set (show_ip (ctx_ip ctx)) \<union> set (ctx_recipient ctx)"
  unfolding substitute_def
  by (intro order_trans [OF set_replace_all] Un_least) (auto intro: set_replace_all [THEN subsetD])

text \<open>A configuration whose texts are single lines; validation does not look at this.\<close>

definition config_single_line :: "'net config \<Rightarrow> bool" where
  "config_single_line cfg \<longleftrightarrow>
     list_all (\<lambda>p. LF \<notin> set (snd p)) (message_list (messages cfg)) \<and>
     (case authserv_id (header_cfg cfg) of None \<Rightarrow> True | Some i \<Rightarrow> LF \<notin> set i)"

definition context_single_line :: "decision_context \<Rightarrow> bool" where
  "context_single_line ctx \<longleftrightarrow>
     LF \<notin> set (ctx_sender ctx) \<and> LF \<notin> set (ctx_helo ctx) \<and> LF \<notin> set (ctx_recipient ctx)"

lemma message_template_single_line:
  "config_single_line cfg \<Longrightarrow> LF \<notin> set (message_template (messages cfg) r)"
  by (cases r) (auto simp: config_single_line_def message_list_def)

lemma render_message_single_line:
  assumes "config_single_line cfg" and "display_single_line D" and "context_single_line ctx"
  shows "LF \<notin> set (render_message D (messages cfg) r ctx)"
  using assms message_template_single_line [OF assms(1), of r]
    set_substitute [of D r ctx "message_template (messages cfg) r"]
  by (auto simp: render_message_def display_single_line_def context_single_line_def)

lemma decide_single_line:
  assumes "config_single_line cfg" and "display_single_line D" and "context_single_line ctx"
  shows "LF \<notin> set (action_text (decide D cfg helo mail_from ctx))"
proof -
  have header: "LF \<notin> set (build_received_spf D mail_from (ctx_ip ctx) (ctx_sender ctx) (ctx_helo ctx)
      (ctx_recipient ctx) (header_cfg cfg))"
    using assms
    by (intro build_received_spf_single_line) (auto simp: config_single_line_def context_single_line_def)
  show ?thesis
    using header render_message_single_line [OF assms]
    by (simp add: decide_eq Let_def split: severity.split header_mode.split)
qed

end
