(* ===== verification/Mail_Log.thy ===== *)
theory Mail_Log
  imports Spf_Evaluator Proto_Response
begin

text \<open>
  Modules \<open>mail_log\<close> and \<open>logging\<close> (\<open>rspf/src/mail_log.rs\<close>, \<open>logging.rs\<close>): the line about each
  decision that is mirrored to syslog, and the choice of the log level.

  The effects on syslog are the list of calls made so far; \<open>Once\<close> is a flag. The lemmas show that
  the line that reaches syslog is one line of printable text whatever the request contains, and
  that it is always written.
\<close>

section \<open>Calls to syslog\<close>

datatype syslog_call =
    Openlog string
  | Syslog_Mail_Info string

record syslog =
  init_done :: bool
  syslog_calls :: "syslog_call list"

definition mail_log_init :: "syslog \<Rightarrow> syslog" where
  "mail_log_init s =
     (if init_done s then s
      else s\<lparr>init_done := True, syslog_calls := syslog_calls s @ [Openlog ''postfix/rspfd'']\<rparr>)"

text \<open>\<open>CString::new\<close> refuses a string with a NUL byte inside.\<close>

definition cstring_new :: "string \<Rightarrow> string option" where
  "cstring_new s = (if CHR 0x00 \<in> set s then None else Some s)"

definition write_to_syslog :: "string \<Rightarrow> syslog \<Rightarrow> syslog" where
  "write_to_syslog msg s =
     (case cstring_new msg of
        None \<Rightarrow> s
      | Some m \<Rightarrow> s\<lparr>syslog_calls := syslog_calls s @ [Syslog_Mail_Info m]\<rparr>)"

section \<open>The line\<close>

definition non_empty :: "string option \<Rightarrow> string option" where
  "non_empty s = (case s of Some t \<Rightarrow> if t = [] then None else Some t | None \<Rightarrow> None)"

fun describe_action :: "action \<Rightarrow> string \<times> string option" where
  "describe_action Dunno = (''permit'', None)"
| "describe_action (Prepend header) = (''permit'', Some header)"
| "describe_action (Reject reason) = (''reject'', Some reason)"
| "describe_action (DeferIfPermit reason) = (''defer'', Some reason)"

definition sanitize_char :: "string \<Rightarrow> string" where
  "sanitize_char c = (if is_control c then '' '' else c)"

definition sanitize :: "string \<Rightarrow> string" where
  "sanitize s = concat (map sanitize_char (chars s))"

definition log_message ::
  "('x, 'm, 'c, 'z) spf_display_scheme \<Rightarrow> ip_addr \<Rightarrow> string option \<Rightarrow> string \<Rightarrow> string \<Rightarrow>
     'x spf_result \<Rightarrow> 'x spf_result \<Rightarrow> action \<Rightarrow> string"
where
  "log_message D ip cname helo sndr helo_result mail_from_result act =
     (let cname' = (case non_empty cname of None \<Rightarrow> ''unknown'' | Some n \<Rightarrow> n);
          (status, detail) = describe_action act
      in ''status='' @ status @
         (case detail of None \<Rightarrow> [] | Some d \<Rightarrow> '' ('' @ d @ '')'') @
         '', from=<'' @ sndr @ ''>, client='' @ cname' @ ''['' @ show_ip ip @ ''], helo='' @ helo @
         '', spf_helo='' @ show_result D helo_result @
         '', spf_mailfrom='' @ show_result D mail_from_result)"

definition log_evaluated_spf ::
  "('x, 'm, 'c, 'z) spf_display_scheme \<Rightarrow> ip_addr \<Rightarrow> string option \<Rightarrow> string \<Rightarrow> string \<Rightarrow>
     'x spf_result \<Rightarrow> 'x spf_result \<Rightarrow> action \<Rightarrow> syslog \<Rightarrow> syslog"
where
  "log_evaluated_spf D ip cname helo sndr helo_result mail_from_result act s =
     write_to_syslog (sanitize (log_message D ip cname helo sndr helo_result mail_from_result act)) s"

section \<open>The log level\<close>

text \<open>
  The levels of the crate \<open>tracing\<close> and their names, which are ASCII, are parameters. The global
  subscriber is the filter it was installed with, if it was; a second installation has no effect.
\<close>

record 'lv tracing_levels =
  level_as_str :: "'lv \<Rightarrow> string"
  lv_error :: 'lv
  lv_warn :: 'lv
  lv_info :: 'lv
  lv_debug :: 'lv
  lv_trace :: 'lv

fun to_tracing_level :: "'lv tracing_levels \<Rightarrow> log_level \<Rightarrow> 'lv option" where
  "to_tracing_level T LL_Off = None"
| "to_tracing_level T LL_Error = Some (lv_error T)"
| "to_tracing_level T LL_Warn = Some (lv_warn T)"
| "to_tracing_level T LL_Info = Some (lv_info T)"
| "to_tracing_level T LL_Debug = Some (lv_debug T)"
| "to_tracing_level T LL_Trace = Some (lv_trace T)"

definition filter_for :: "'lv tracing_levels \<Rightarrow> log_level \<Rightarrow> string" where
  "filter_for T lvl =
     (case to_tracing_level T lvl of
        Some l \<Rightarrow> to_ascii_lowercase (level_as_str T l)
      | None \<Rightarrow> ''off'')"

definition logging_init :: "'lv tracing_levels \<Rightarrow> log_level \<Rightarrow> string option \<Rightarrow> string option" where
  "logging_init T lvl subscriber =
     (let flt = filter_for T lvl
      in case subscriber of None \<Rightarrow> Some flt | Some installed \<Rightarrow> Some installed)"

section \<open>Sanitizing\<close>

lemma chunks_space: "utf8_chunks ('' '' @ t) = (True, '' '') # utf8_chunks t"
  using utf8_chunks_ascii_Cons [of "CHR '' ''" t] by (simp add: is_ascii_def byte_def)

lemma chunks_sanitize_char:
  assumes "utf8_seq c cs = (True, m)"
  shows "utf8_chunks (sanitize_char (c # take m cs) @ t) =
         (True, sanitize_char (c # take m cs)) # utf8_chunks t"
proof (cases "is_control (c # take m cs)")
  case True
  then show ?thesis unfolding sanitize_char_def by (simp only: if_True chunks_space)
next
  case False
  then show ?thesis
    using utf8_chunks_valid_Cons [OF assms, of t] by (simp add: sanitize_char_def)
qed

lemma chunks_sanitize:
  "utf8_valid s \<Longrightarrow> utf8_chunks (sanitize s) = map (\<lambda>c. (True, sanitize_char c)) (chars s)"
  unfolding sanitize_def chars_def utf8_valid_def
proof (induction s rule: utf8_chunks.induct)
  case 1
  show ?case by simp
next
  case (2 c cs)
  obtain ok m where seq: "utf8_seq c cs = (ok, m)" by (cases "utf8_seq c cs")
  with "2.prems" have ok: "ok" by simp
  have "list_all fst (utf8_chunks (drop m cs))" using "2.prems" seq by simp
  from "2.IH" [OF seq [symmetric] this] seq ok show ?case
    using chunks_sanitize_char [of c cs m] by (simp del: utf8_chunks.simps(2) add: utf8_chunks.simps(2) [of c cs])
qed

text \<open>Character by character: a control character becomes a space, everything else stays.\<close>

lemma chars_sanitize: "utf8_valid s \<Longrightarrow> chars (sanitize s) = map sanitize_char (chars s)"
  unfolding chars_def [of "sanitize s"] by (simp add: chunks_sanitize)

lemma sanitize_char_no_control [simp]: "\<not> is_control (sanitize_char c)"
  by (simp add: sanitize_char_def byte_def)

lemma sanitize_char_idem [simp]: "sanitize_char (sanitize_char c) = sanitize_char c"
  by (simp add: sanitize_char_def [of "sanitize_char c"])

lemma utf8_valid_sanitize: "utf8_valid s \<Longrightarrow> utf8_valid (sanitize s)"
  by (simp add: utf8_valid_def [of "sanitize s"] chunks_sanitize list_all_iff)

lemma sanitize_no_control: "utf8_valid s \<Longrightarrow> c \<in> set (chars (sanitize s)) \<Longrightarrow> \<not> is_control c"
  by (auto simp: chars_sanitize)

lemma sanitize_idem: "utf8_valid s \<Longrightarrow> sanitize (sanitize s) = sanitize s"
proof -
  assume "utf8_valid s"
  then have "sanitize (sanitize s) = concat (map sanitize_char (map sanitize_char (chars s)))"
    by (simp only: sanitize_def [of "sanitize s"] chars_sanitize)
  also have "\<dots> = sanitize s" by (simp add: sanitize_def [of s] comp_def)
  finally show ?thesis .
qed

text \<open>
  No control byte at all is left: in a valid string such a byte is a character of its own, and in
  an invalid one it never belongs to a longer piece.
\<close>

lemma utf8_chunk_ascii:
  "(ok, x) \<in> set (utf8_chunks s) \<Longrightarrow> b \<in> set x \<Longrightarrow> byte b < 128 \<Longrightarrow> x = [b]"
proof (induction s rule: utf8_chunks.induct)
  case 1
  then show ?case by simp
next
  case (2 c cs)
  obtain ok' m where seq: "utf8_seq c cs = (ok', m)" by (cases "utf8_seq c cs")
  show ?case
  proof (cases "(ok, x) \<in> set (utf8_chunks (drop m cs))")
    case True
    then show ?thesis using "2.IH" [OF seq [symmetric]] "2.prems" by simp
  next
    case False
    with "2.prems" seq have x: "x = c # take m cs" by simp
    show ?thesis
    proof (cases "is_ascii c")
      case True
      then have "utf8_seq c cs = (True, 0)" by simp
      with seq x "2.prems" show ?thesis by simp
    next
      case False
      from utf8_seq_bytes [OF seq False "2.prems"(2) [unfolded x]] "2.prems"(3) show ?thesis
        by (simp add: is_ascii_def)
    qed
  qed
qed

lemma sanitize_printable:
  assumes "b \<in> set (sanitize s)"
  shows "32 \<le> byte b \<and> byte b \<noteq> 127"
proof -
  from assms obtain x where x: "x \<in> set (chars s)"
    and b: "b \<in> set (sanitize_char x)"
    by (auto simp: sanitize_def)
  show ?thesis
  proof (cases "is_control x \<or> 128 \<le> byte b")
    case True
    with b show ?thesis by (auto simp: sanitize_char_def byte_def split: if_splits)
  next
    case False
    from x obtain ok where "(ok, x) \<in> set (utf8_chunks s)" by (auto simp: chars_def)
    moreover have "b \<in> set x" using b False by (simp add: sanitize_char_def)
    ultimately have "x = [b]" using False utf8_chunk_ascii by auto
    with False show ?thesis by auto
  qed
qed

lemma sanitize_bytes [byte_facts]:
  "byte c < 32 \<or> byte c = 127 \<Longrightarrow> c \<notin> set (sanitize s)"
  using sanitize_printable by fastforce

lemma write_sanitized:
  "write_to_syslog (sanitize s) st =
     st\<lparr>syslog_calls := syslog_calls st @ [Syslog_Mail_Info (sanitize s)]\<rparr>"
  using sanitize_bytes [of "CHR 0x00" s]
  by (simp add: write_to_syslog_def cstring_new_def byte_def)

lemma mail_log_init_idem: "mail_log_init (mail_log_init s) = mail_log_init s"
  by (simp add: mail_log_init_def)

end
