(* ===== verification/Proto_Request.thy ===== *)
theory Proto_Request
  imports Rust_Net
begin

text \<open>
  Module \<open>proto\<close>, requests (\<open>rspf/src/proto/request.rs\<close>): one policy delegation request of
  Postfix, a block of \<open>attribute=value\<close> lines, parsed into a record with a field for each
  attribute the daemon knows and a map for the others.

  The lemmas show that the record is a faithful view of the attribute list: looking an attribute
  up gives the value of its last occurrence, whichever field holds it.
\<close>

record policy_request =
  request :: "string option"
  protocol_state :: "string option"
  protocol_name :: "string option"
  helo_name :: "string option"
  queue_id :: "string option"
  sender :: "string option"
  recipient :: "string option"
  client_address :: "string option"
  client_name :: "string option"
  reverse_client_name :: "string option"
  instance_id :: "string option"
  sasl_username :: "string option"
  extra :: "string \<rightharpoonup> string"

datatype request_parse_error =
    MalformedLine string
  | EmptyRequest
  | MissingClientAddress
  | InvalidClientAddress string

definition default_request :: policy_request where
  "default_request =
     \<lparr>request = None, protocol_state = None, protocol_name = None, helo_name = None,
      queue_id = None, sender = None, recipient = None, client_address = None,
      client_name = None, reverse_client_name = None, instance_id = None,
      sasl_username = None, extra = Map.empty\<rparr>"

definition set_attribute :: "policy_request \<Rightarrow> string \<Rightarrow> string \<Rightarrow> policy_request" where
  "set_attribute req key v =
     (if key = ''request'' then req\<lparr>request := Some v\<rparr>
      else if key = ''protocol_state'' then req\<lparr>protocol_state := Some v\<rparr>
      else if key = ''protocol_name'' then req\<lparr>protocol_name := Some v\<rparr>
      else if key = ''helo_name'' then req\<lparr>helo_name := Some v\<rparr>
      else if key = ''queue_id'' then req\<lparr>queue_id := Some v\<rparr>
      else if key = ''sender'' then req\<lparr>sender := Some v\<rparr>
      else if key = ''recipient'' then req\<lparr>recipient := Some v\<rparr>
      else if key = ''client_address'' then req\<lparr>client_address := Some v\<rparr>
      else if key = ''client_name'' then req\<lparr>client_name := Some v\<rparr>
      else if key = ''reverse_client_name'' then req\<lparr>reverse_client_name := Some v\<rparr>
      else if key = ''instance'' then req\<lparr>instance_id := Some v\<rparr>
      else if key = ''sasl_username'' then req\<lparr>sasl_username := Some v\<rparr>
      else req\<lparr>extra := (extra req)(key \<mapsto> v)\<rparr>)"

definition parse_line :: "policy_request \<Rightarrow> string \<Rightarrow> (request_parse_error, policy_request) res" where
  "parse_line req line =
     and_then (ok_or (MalformedLine line) (split_once (CHR ''='') line))
       (\<lambda>(key, v). Ok (set_attribute req key v))"

definition from_lines :: "string list \<Rightarrow> (request_parse_error, policy_request) res" where
  "from_lines ls =
     (if ls = [] then Err EmptyRequest else try_fold parse_line default_request ls)"

definition client_ip :: "policy_request \<Rightarrow> (request_parse_error, ip_addr) res" where
  "client_ip req =
     and_then (ok_or MissingClientAddress (client_address req))
       (\<lambda>raw. ok_or (InvalidClientAddress raw) (parse_ip_addr raw))"

section \<open>The attribute view\<close>

text \<open>The value a request holds for an attribute name, wherever it is stored.\<close>

definition attribute :: "policy_request \<Rightarrow> string \<Rightarrow> string option" where
  "attribute req key =
     (if key = ''request'' then request req
      else if key = ''protocol_state'' then protocol_state req
      else if key = ''protocol_name'' then protocol_name req
      else if key = ''helo_name'' then helo_name req
      else if key = ''queue_id'' then queue_id req
      else if key = ''sender'' then sender req
      else if key = ''recipient'' then recipient req
      else if key = ''client_address'' then client_address req
      else if key = ''client_name'' then client_name req
      else if key = ''reverse_client_name'' then reverse_client_name req
      else if key = ''instance'' then instance_id req
      else if key = ''sasl_username'' then sasl_username req
      else extra req key)"

lemma attribute_default [simp]: "attribute default_request key = None"
  by (simp add: attribute_def default_request_def)

lemma attribute_update:
  "attribute (req\<lparr>request := Some v\<rparr>) = (attribute req)(''request'' \<mapsto> v)"
  "attribute (req\<lparr>protocol_state := Some v\<rparr>) = (attribute req)(''protocol_state'' \<mapsto> v)"
  "attribute (req\<lparr>protocol_name := Some v\<rparr>) = (attribute req)(''protocol_name'' \<mapsto> v)"
  "attribute (req\<lparr>helo_name := Some v\<rparr>) = (attribute req)(''helo_name'' \<mapsto> v)"
  "attribute (req\<lparr>queue_id := Some v\<rparr>) = (attribute req)(''queue_id'' \<mapsto> v)"
  "attribute (req\<lparr>sender := Some v\<rparr>) = (attribute req)(''sender'' \<mapsto> v)"
  "attribute (req\<lparr>recipient := Some v\<rparr>) = (attribute req)(''recipient'' \<mapsto> v)"
  "attribute (req\<lparr>client_address := Some v\<rparr>) = (attribute req)(''client_address'' \<mapsto> v)"
  "attribute (req\<lparr>client_name := Some v\<rparr>) = (attribute req)(''client_name'' \<mapsto> v)"
  "attribute (req\<lparr>reverse_client_name := Some v\<rparr>) =
     (attribute req)(''reverse_client_name'' \<mapsto> v)"
  "attribute (req\<lparr>instance_id := Some v\<rparr>) = (attribute req)(''instance'' \<mapsto> v)"
  "attribute (req\<lparr>sasl_username := Some v\<rparr>) = (attribute req)(''sasl_username'' \<mapsto> v)"
  by (simp_all add: attribute_def fun_eq_iff)

lemma attribute_extra:
  assumes "key \<notin> {''request'', ''protocol_state'', ''protocol_name'', ''helo_name'', ''queue_id'',
     ''sender'', ''recipient'', ''client_address'', ''client_name'', ''reverse_client_name'',
     ''instance'', ''sasl_username''}"
  shows "attribute (req\<lparr>extra := (extra req)(key \<mapsto> v)\<rparr>) = (attribute req)(key \<mapsto> v)"
proof
  fix k
  show "attribute (req\<lparr>extra := (extra req)(key \<mapsto> v)\<rparr>) k = ((attribute req)(key \<mapsto> v)) k"
  proof (cases "k = key")
    case True
    with assms show ?thesis by (simp add: attribute_def)
  next
    case False
    then show ?thesis by (simp add: attribute_def)
  qed
qed

lemma attribute_set: "attribute (set_attribute req key v) = (attribute req)(key \<mapsto> v)"
  by (simp add: set_attribute_def attribute_update attribute_extra)

lemma parse_line_Ok_iff:
  "parse_line req line = Ok req' \<longleftrightarrow>
     (\<exists>key v. split_once (CHR ''='') line = Some (key, v) \<and> req' = set_attribute req key v)"
  by (cases "split_once (CHR ''='') line") (auto simp: parse_line_def)

lemma parse_line_Err_iff:
  "parse_line req line = Err e \<longleftrightarrow> CHR ''='' \<notin> set line \<and> e = MalformedLine line"
proof (cases "split_once (CHR ''='') line")
  case None
  then have "CHR ''='' \<notin> set line" by (simp add: split_once_None)
  with None show ?thesis by (auto simp: parse_line_def)
next
  case (Some p)
  then have "CHR ''='' \<in> set line" by (cases p) (simp add: split_once_Some)
  with Some show ?thesis by (cases p) (simp add: parse_line_def)
qed

text \<open>The attribute list that a block of lines stands for, and the map it denotes.\<close>

definition attribute_list :: "string list \<Rightarrow> (string \<times> string) list" where
  "attribute_list ls = List.map_filter (split_once (CHR ''='')) ls"

lemma try_fold_parse_line:
  "try_fold parse_line req ls = Ok req' \<longleftrightarrow>
     list_all (\<lambda>l. CHR ''='' \<in> set l) ls \<and>
     req' = fold (\<lambda>(k, v) r. set_attribute r k v) (attribute_list ls) req"
proof (induction ls arbitrary: req)
  case Nil
  show ?case by (auto simp: attribute_list_def)
next
  case (Cons l ls)
  show ?case
  proof (cases "split_once (CHR ''='') l")
    case None
    then have "CHR ''='' \<notin> set l" by (simp add: split_once_None)
    with None show ?thesis by (simp add: parse_line_def)
  next
    case (Some p)
    then obtain k v where p: "split_once (CHR ''='') l = Some (k, v)" by (cases p) auto
    then have "CHR ''='' \<in> set l" by (simp add: split_once_Some)
    with p Cons.IH show ?thesis by (simp add: parse_line_def attribute_list_def)
  qed
qed

lemma attribute_fold:
  "attribute (fold (\<lambda>(k, v) r. set_attribute r k v) kvs req) =
     attribute req ++ map_of (rev kvs)"
proof (induction kvs arbitrary: req)
  case Nil
  show ?case by simp
next
  case (Cons p kvs)
  then show ?case by (cases p) (simp add: attribute_set fun_eq_iff map_add_def split: option.splits)
qed

lemma from_lines_Ok_iff:
  "from_lines ls = Ok req \<longleftrightarrow>
     ls \<noteq> [] \<and> list_all (\<lambda>l. CHR ''='' \<in> set l) ls \<and>
     req = fold (\<lambda>(k, v) r. set_attribute r k v) (attribute_list ls) default_request"
  by (simp add: from_lines_def try_fold_parse_line)

lemma attribute_from_lines:
  assumes "from_lines ls = Ok req"
  shows "attribute req = map_of (rev (attribute_list ls))"
  using assms by (simp add: from_lines_Ok_iff attribute_fold fun_eq_iff map_add_def split: option.splits)

lemma attribute_list_sound:
  "(k, v) \<in> set (attribute_list ls) \<Longrightarrow> \<exists>l \<in> set ls. l = k @ CHR ''='' # v \<and> CHR ''='' \<notin> set k"
  by (auto simp: attribute_list_def List.map_filter_def split_once_Some)

text \<open>What holds of every line's bytes holds of every attribute.\<close>

lemma attribute_bytes:
  assumes "from_lines ls = Ok req" and "attribute req k = Some v"
    and "\<And>l. l \<in> set ls \<Longrightarrow> c \<notin> set l"
  shows "c \<notin> set v"
proof -
  have "map_of (rev (attribute_list ls)) k = Some v"
    using assms(1,2) by (simp add: attribute_from_lines)
  then have "(k, v) \<in> set (attribute_list ls)" by (auto dest: map_of_SomeD)
  with assms(3) show ?thesis by (force dest!: attribute_list_sound)
qed

text \<open>The named fields are the attributes of their names.\<close>

lemma attribute_fields [simp]:
  "attribute req ''helo_name'' = helo_name req"
  "attribute req ''sender'' = sender req"
  "attribute req ''recipient'' = recipient req"
  "attribute req ''client_address'' = client_address req"
  "attribute req ''reverse_client_name'' = reverse_client_name req"
  "attribute req ''sasl_username'' = sasl_username req"
  by (simp_all add: attribute_def)

text \<open>The first line without an equals sign is the one that is reported.\<close>

lemma from_lines_malformed:
  "from_lines ls = Err (MalformedLine l) \<longleftrightarrow>
     (\<exists>ys zs. ls = ys @ l # zs \<and> list_all (\<lambda>l. CHR ''='' \<in> set l) ys \<and> CHR ''='' \<notin> set l)"
proof (cases "ls = []")
  case True
  then show ?thesis by (simp add: from_lines_def)
next
  case False
  then have "from_lines ls = Err (MalformedLine l) \<longleftrightarrow>
    (\<exists>ys x zs t. ls = ys @ x # zs \<and> try_fold parse_line default_request ys = Ok t \<and>
       parse_line t x = Err (MalformedLine l))"
    by (simp add: from_lines_def try_fold_Err_iff)
  then show ?thesis
    by (auto simp: try_fold_parse_line parse_line_Err_iff)
qed

lemma from_lines_empty [simp]: "from_lines [] = Err EmptyRequest"
  by (simp add: from_lines_def)

end
