(* ===== verification/Proto_Codec.thy ===== *)
theory Proto_Codec
  imports Proto_Request Proto_Response
begin

text \<open>
  Module \<open>proto\<close>, the codec (\<open>rspf/src/proto/codec.rs\<close>): cutting a byte stream into requests at
  empty lines, and writing responses. The buffer \<open>BytesMut\<close> is a byte string; \<open>decode\<close> returns
  what is left of it.

  The locale \<open>frame_decoder\<close> states what a framing loop relies on; its lemmas show that the
  requests found do not depend on how the stream was cut into reads.
\<close>

datatype proto_error = Parse request_parse_error | Io io_error

text \<open>\<open>slice::windows(2)\<close>\<close>

definition windows2 :: "string \<Rightarrow> string list" where
  "windows2 buf = map (\<lambda>i. take 2 (drop i buf)) [0..<length buf - 1]"

definition find_double_newline :: "string \<Rightarrow> nat option" where
  "find_double_newline buf = position (\<lambda>w. w = [LF, LF]) (windows2 buf)"

definition decode :: "string \<Rightarrow> (proto_error, policy_request option) res \<times> string" where
  "decode src =
     (case find_double_newline src of
        None \<Rightarrow> (Ok None, src)
      | Some terminator_at \<Rightarrow>
          (let block = take terminator_at src;
               src' = drop 2 (drop terminator_at src);
               ls = map from_utf8_lossy (filter (\<lambda>l. l \<noteq> []) (split_on LF block))
           in (and_then (map_err Parse (from_lines ls)) (\<lambda>req. Ok (Some req)), src')))"

definition encode :: "action \<Rightarrow> string \<Rightarrow> string" where
  "encode item dst = dst @ to_wire item"

section \<open>Finding the terminator\<close>

lemma windows2_Cons: "windows2 (c # cs) = (if cs = [] then [] else [c, hd cs] # windows2 cs)"
proof (cases cs)
  case Nil
  then show ?thesis by (simp add: windows2_def)
next
  case (Cons d ds)
  have "map (\<lambda>i. take 2 (drop i (c # d # ds))) [0..<Suc (length ds)] =
        [c, d] # map (\<lambda>i. take 2 (drop i (d # ds))) [0..<length ds]"
    by (simp add: upt_conv_Cons map_Suc_upt [symmetric] del: upt_Suc)
  with Cons show ?thesis by (simp add: windows2_def del: upt_Suc)
qed

lemma find_double_newline_simps [simp]:
  "find_double_newline [] = None"
  "find_double_newline (c # cs) =
     (if prefix [LF, LF] (c # cs) then Some 0 else map_option Suc (find_double_newline cs))"
proof -
  show "find_double_newline [] = None" by (simp add: find_double_newline_def windows2_def)
  show "find_double_newline (c # cs) =
     (if prefix [LF, LF] (c # cs) then Some 0 else map_option Suc (find_double_newline cs))"
    by (cases cs) (auto simp: find_double_newline_def windows2_Cons, auto simp: windows2_def)
qed

lemma find_double_newline_less:
  "find_double_newline b = Some i \<Longrightarrow> Suc i < length b"
  by (induction b arbitrary: i) (auto split: if_splits simp: prefix_def)

lemma find_double_newline_append:
  "find_double_newline b = Some i \<Longrightarrow> find_double_newline (b @ c) = Some i"
proof (induction b arbitrary: i)
  case Nil
  then show ?case by simp
next
  case (Cons x b)
  then show ?case
    by (cases b) (auto split: if_splits)
qed

text \<open>A block of lines as Postfix sends it: each line and a line feed, then an empty line.\<close>

fun join_lines :: "string list \<Rightarrow> string" where
  "join_lines [] = []"
| "join_lines [l] = l"
| "join_lines (l # m # ls) = l @ LF # join_lines (m # ls)"

definition wire_block :: "string list \<Rightarrow> string" where
  "wire_block ls = join_lines ls @ [LF, LF]"

definition line_ok :: "string \<Rightarrow> bool" where
  "line_ok l \<longleftrightarrow> l \<noteq> [] \<and> LF \<notin> set l"

lemma find_double_newline_line:
  assumes "LF \<notin> set l" and "l \<noteq> []"
  shows "find_double_newline (l @ t) = map_option ((+) (length l)) (find_double_newline t)"
  using assms
proof (induction l)
  case Nil
  then show ?case by simp
next
  case (Cons c l)
  then have "\<not> prefix [LF, LF] ((c # l) @ t)" by auto
  with Cons show ?case
    by (cases l) (auto simp: option.map_comp comp_def)
qed

lemma find_double_newline_block:
  assumes "ls \<noteq> []" and "list_all line_ok ls"
  shows "find_double_newline (wire_block ls @ rest) = Some (length (join_lines ls))"
  unfolding wire_block_def
  using assms
proof (induction ls rule: join_lines.induct)
  case 1
  then show ?case by simp
next
  case (2 l)
  then show ?case by (simp add: line_ok_def find_double_newline_line)
next
  case (3 l m ls)
  then obtain c t where m: "join_lines (m # ls) @ [LF, LF] @ rest = c # t" and c: "c \<noteq> LF"
    by (cases m; cases ls) (auto simp: line_ok_def)
  have "find_double_newline (LF # c # t) = map_option Suc (find_double_newline (c # t))"
    using c by simp
  with 3 m show ?case
    by (simp add: line_ok_def find_double_newline_line del: find_double_newline_simps)
qed

lemma split_on_join_lines:
  "ls \<noteq> [] \<Longrightarrow> list_all line_ok ls \<Longrightarrow> split_on LF (join_lines ls) = ls"
  by (induction ls rule: join_lines.induct) (auto simp: line_ok_def)

lemma decode_wire_block:
  assumes "ls \<noteq> []" and "list_all line_ok ls"
  shows "decode (wire_block ls @ rest) =
    (and_then (map_err Parse (from_lines (map from_utf8_lossy ls))) (\<lambda>req. Ok (Some req)), rest)"
proof -
  have "filter (\<lambda>l. l \<noteq> []) ls = ls"
    using assms(2) by (simp add: list_all_iff line_ok_def)
  then show ?thesis
    using assms find_double_newline_block [OF assms, of rest]
    by (simp add: decode_def wire_block_def split_on_join_lines)
qed

lemma decode_None_iff: "decode b = (Ok None, b') \<longleftrightarrow> find_double_newline b = None \<and> b' = b"
  by (auto simp: decode_def Let_def and_then_Ok_iff split: option.splits)

lemma decode_append:
  assumes "find_double_newline b = Some i"
  shows "decode (b @ c) = (fst (decode b), snd (decode b) @ c)"
  using assms find_double_newline_less [OF assms] find_double_newline_append [OF assms, of c]
  by (simp add: decode_def Let_def)

lemma decode_progress:
  "find_double_newline b = Some i \<Longrightarrow> length (snd (decode b)) < length b"
  using find_double_newline_less [of b i] by (auto simp: decode_def Let_def)

lemma decode_found:
  assumes "decode b = (r, b')" and "r \<noteq> Ok None"
  obtains i where "find_double_newline b = Some i"
  using assms by (cases "find_double_newline b") (auto simp: decode_def)

lemma decode_item_progress: "decode b = (Ok (Some req), b') \<Longrightarrow> length b' < length b"
  by (metis decode_found decode_progress option.distinct(1) snd_conv sum.inject(2))

text \<open>No attribute of a decoded request has a line feed in it.\<close>

lemma decode_attribute_no_LF:
  assumes "decode b = (Ok (Some req), b')" and "attribute req k = Some v"
  shows "LF \<notin> set v"
proof -
  obtain i where i: "find_double_newline b = Some i"
    using assms(1) by (rule decode_found) simp
  let ?ls = "map from_utf8_lossy (filter (\<lambda>l. l \<noteq> []) (split_on LF (take i b)))"
  have req: "from_lines ?ls = Ok req"
    using assms(1) i by (auto simp: decode_def Let_def and_then_Ok_iff)
  have "LF \<notin> set l" if "l \<in> set ?ls" for l
    using that set_from_utf8_lossy split_on_no_sep
    by (fastforce simp: replacement_char_def)
  with req assms(2) show ?thesis by (rule attribute_bytes)
qed

section \<open>The framing loop\<close>

text \<open>
  \<open>while let Some(req) = codec.decode(&mut buf)\<close>: the requests that are complete in the buffer,
  the error that ended the loop, if any, and the bytes left.
\<close>

function drain :: "string \<Rightarrow> policy_request list \<times> proto_error option \<times> string" where
  "drain buf =
     (case decode buf of
        (Inl e, buf') \<Rightarrow> ([], Some e, buf')
      | (Inr None, buf') \<Rightarrow> ([], None, buf')
      | (Inr (Some req), buf') \<Rightarrow>
          (case drain buf' of (reqs, e, buf'') \<Rightarrow> (req # reqs, e, buf'')))"
  by pat_completeness auto
termination
  by (relation "measure length") (auto dest!: sym [of _ "decode _"] intro: decode_item_progress)

declare drain.simps [simp del]

text \<open>
  The same over a sequence of reads, each appended to what the one before left. The loop of the
  codec's tests, \<open>decode_all\<close>, unwraps every result, so an error is a panic there, written
  \<open>None\<close>.
\<close>

fun feed :: "string \<Rightarrow> string list \<Rightarrow> policy_request list \<times> proto_error option \<times> string" where
  "feed buf [] = ([], None, buf)"
| "feed buf (chunk # chunks) =
     (case drain (buf @ chunk) of
        (reqs, Some e, buf') \<Rightarrow> (reqs, Some e, buf')
      | (reqs, None, buf') \<Rightarrow>
          (case feed buf' chunks of (reqs', e, buf'') \<Rightarrow> (reqs @ reqs', e, buf'')))"

definition decode_all :: "string list \<Rightarrow> policy_request list option" where
  "decode_all chunks =
     (case feed [] chunks of (reqs, None, _) \<Rightarrow> Some reqs | (_, Some _, _) \<Rightarrow> None)"

text \<open>
  The contract between a decoder and the loop over it: a decoder that answers "not yet" leaves
  the buffer alone, one that answers anything else answers the same whatever bytes follow, and a
  decoded item uses up some bytes.
\<close>

locale frame_decoder =
  fixes decoder :: "'b list \<Rightarrow> ('e, 'i option) res \<times> 'b list"
    and loop :: "'b list \<Rightarrow> 'i list \<times> 'e option \<times> 'b list"
    and reads :: "'b list \<Rightarrow> 'b list list \<Rightarrow> 'i list \<times> 'e option \<times> 'b list"
  assumes wait: "decoder b = (Ok None, b') \<Longrightarrow> b' = b"
    and stable: "decoder b = (r, b') \<Longrightarrow> r \<noteq> Ok None \<Longrightarrow> decoder (b @ c) = (r, b' @ c)"
    and progress: "decoder b = (Ok (Some i), b') \<Longrightarrow> length b' < length b"
    and loop_step: "loop b =
      (case decoder b of
         (Inl e, b') \<Rightarrow> ([], Some e, b')
       | (Inr None, b') \<Rightarrow> ([], None, b')
       | (Inr (Some i), b') \<Rightarrow> (case loop b' of (items, e, b'') \<Rightarrow> (i # items, e, b'')))"
    and reads_Nil: "reads b [] = ([], None, b)"
    and reads_Cons: "reads b (c # cs) =
      (case loop (b @ c) of
         (items, Some e, b') \<Rightarrow> (items, Some e, b')
       | (items, None, b') \<Rightarrow>
           (case reads b' cs of (items', e, b'') \<Rightarrow> (items @ items', e, b'')))"
begin

lemma loop_wait: "decoder b = (Ok None, b') \<Longrightarrow> loop b = ([], None, b)"
  using wait [of b b'] by (subst loop_step) simp

lemma loop_left_waits:
  "loop b = (items, None, b') \<Longrightarrow> decoder b' = (Ok None, b')"
proof (induction "length b" arbitrary: b items rule: less_induct)
  case less
  obtain r b1 where d: "decoder b = (r, b1)" by (cases "decoder b")
  show ?case
  proof (cases r)
    case (Inl e)
    with d less.prems show ?thesis by (subst (asm) loop_step) simp
  next
    case (Inr m)
    show ?thesis
    proof (cases m)
      case None
      with d Inr have "decoder b = (Ok None, b1)" by simp
      with loop_wait wait less.prems show ?thesis by fastforce
    next
      case (Some i)
      with d Inr have di: "decoder b = (Ok (Some i), b1)" by simp
      obtain js e b2 where "loop b1 = (js, e, b2)" by (cases "loop b1") auto
      with di less.prems have "loop b1 = (js, None, b')" by (subst (asm) loop_step) simp
      then show ?thesis using less.hyps progress [OF di] by blast
    qed
  qed
qed

lemma loop_append:
  "loop (b @ c) =
     (case loop b of
        (items, Some e, b') \<Rightarrow> (items, Some e, b' @ c)
      | (items, None, b') \<Rightarrow>
          (case loop (b' @ c) of (items', e, b'') \<Rightarrow> (items @ items', e, b'')))"
proof (induction "length b" arbitrary: b rule: less_induct)
  case less
  obtain r b1 where d: "decoder b = (r, b1)" by (cases "decoder b")
  show ?case
  proof (cases "r = Ok None")
    case True
    with d loop_wait have "loop b = ([], None, b)" by simp
    then show ?thesis by (simp split: prod.splits)
  next
    case False
    then have dc: "decoder (b @ c) = (r, b1 @ c)" using stable d by blast
    show ?thesis
    proof (cases r)
      case (Inl e)
      with d dc show ?thesis by (simp add: loop_step [of b] loop_step [of "b @ c"])
    next
      case (Inr m)
      with False obtain i where m: "m = Some i" by (cases m) auto
      with d Inr have "length b1 < length b" by (simp add: progress)
      then have "loop (b1 @ c) =
        (case loop b1 of
           (items, Some e, b') \<Rightarrow> (items, Some e, b' @ c)
         | (items, None, b') \<Rightarrow>
             (case loop (b' @ c) of (items', e, b'') \<Rightarrow> (items @ items', e, b'')))"
        using less by blast
      with d dc Inr m show ?thesis
        by (simp add: loop_step [of b] loop_step [of "b @ c"] split: prod.splits option.splits)
    qed
  qed
qed

text \<open>
  Reading the stream in pieces gives the items and the error of reading it at once, and, where
  there is no error, the same bytes are left.
\<close>

lemma reads_concat:
  assumes "decoder b = (Ok None, b)"
  shows "fst (reads b cs) = fst (loop (b @ concat cs)) \<and>
         fst (snd (reads b cs)) = fst (snd (loop (b @ concat cs))) \<and>
         (fst (snd (reads b cs)) = None \<longrightarrow> snd (snd (reads b cs)) = snd (snd (loop (b @ concat cs))))"
  using assms
proof (induction cs arbitrary: b)
  case Nil
  then show ?case by (simp add: reads_Nil loop_wait)
next
  case (Cons c cs)
  obtain items e b' where l: "loop (b @ c) = (items, e, b')" by (cases "loop (b @ c)") auto
  show ?case
  proof (cases e)
    case None
    with l have "decoder b' = (Ok None, b')" by (simp add: loop_left_waits)
    from Cons.IH [OF this] l None show ?thesis
      using loop_append [of "b @ c" "concat cs"]
      by (auto simp: reads_Cons split: prod.splits)
  next
    case (Some x)
    with l show ?thesis
      using loop_append [of "b @ c" "concat cs"] by (simp add: reads_Cons)
  qed
qed

end

interpretation codec: frame_decoder decode drain feed
proof
  fix b b' assume "decode b = (Ok None, b')" then show "b' = b" by (simp add: decode_None_iff)
next
  fix b r b' c
  assume d: "decode b = (r, b')" and "r \<noteq> Ok None"
  then obtain i where "find_double_newline b = Some i" by (rule decode_found)
  with d show "decode (b @ c) = (r, b' @ c)" by (simp add: decode_append)
next
  fix b i b'
  assume "decode b = (Ok (Some i), b')"
  then show "length b' < length b" by (rule decode_item_progress)
qed (rule drain.simps, simp, simp)

section \<open>A stream of requests\<close>

text \<open>The requests of a stream of well-formed blocks, in order, and nothing is left over.\<close>

lemma drain_Nil [simp]: "drain [] = ([], None, [])"
  by (rule codec.loop_wait) (simp add: decode_def)

lemma drain_wire_block:
  assumes "ls \<noteq> []" and "list_all line_ok ls" and "from_lines (map from_utf8_lossy ls) = Ok req"
  shows "drain (wire_block ls @ rest) =
    (case drain rest of (reqs, e, b) \<Rightarrow> (req # reqs, e, b))"
  using assms by (simp add: drain.simps [of "wire_block ls @ rest"] decode_wire_block)

lemma drain_wire_blocks:
  assumes "list_all2 (\<lambda>ls req. list_all line_ok ls \<and> from_lines (map from_utf8_lossy ls) = Ok req) bs reqs"
  shows "drain (concat (map wire_block bs)) = (reqs, None, [])"
  using assms
proof (induction bs reqs rule: list_all2_induct)
  case Nil
  show ?case by simp
next
  case (Cons ls bs req reqs)
  then have "ls \<noteq> []" by auto
  with Cons show ?case by (simp add: drain_wire_block)
qed

section \<open>Responses\<close>

text \<open>Reading back any sequence of written actions gives one reply of one line for each.\<close>

lemma responses_read_back:
  assumes "list_all (\<lambda>a. LF \<notin> set (action_text a)) acts"
  shows "read_replies (fold encode acts []) = map (\<lambda>a. [show_action a]) acts"
proof -
  have "fold encode acts out = out @ concat (map to_wire acts)" for out
    by (induction acts arbitrary: out) (simp_all add: encode_def)
  then show ?thesis using read_replies_to_wire [OF assms] by simp
qed

end
