(* ===== verification/Server.thy ===== *)
theory Server
  imports Config_Load Whitelist Srs Engine Mail_Log Proto_Codec
begin

text \<open>
  Module \<open>server\<close> (\<open>rspf/src/server.rs\<close>): the shared state, the answer to one request, the loop
  over one connection, the accept loops and \<open>run\<close>, which waits for them.

  The two \<open>ArcSwap\<close> cells of the state may be replaced between the loads that one request makes,
  so a request is answered from a \<open>view\<close>, the values of its three loads in the order in which the
  code makes them. \<open>handle_request\<close> is the case of a state that stays. What happens outside (the
  next item of the framed stream, the outcome of a write, an accepted connection, the
  cancellation token) comes in as a list of events. Debug and warning messages are left out.
\<close>

section \<open>The shared state\<close>

datatype ('re, 'pe) app_state_error =
    Resolver_Error 're
  | Whitelist_Error "'pe whitelist_error"

record ('net, 'n, 'le) app_state =
  st_config :: "'net config"
  st_whitelist :: "'net whitelist"
  st_evaluator :: "('n, 'le) lookup spf_evaluator"

definition app_state_new ::
  "('net, 'pe) ipnet \<Rightarrow> 'n name_ops \<Rightarrow> file_system \<Rightarrow> ('re, ('n, 'le) lookup) res \<Rightarrow>
     'net config \<Rightarrow> (('re, 'pe) app_state_error, ('net, 'n, 'le) app_state) res"
where
  "app_state_new N NO fs system_resolver cfg =
     and_then (map_err Resolver_Error (from_system_conf system_resolver)) (\<lambda>hickory.
     let lk = override_impl NO (override_new (hickory_impl hickory) (map_of (overrides cfg)));
         evaluator = evaluator_new lk (spf_cfg cfg)
     in and_then (map_err Whitelist_Error (whitelist_load N fs (whitelist_cfg cfg))) (\<lambda>wl.
     Ok \<lparr>st_config = cfg, st_whitelist = wl, st_evaluator = evaluator\<rparr>))"

section \<open>Exemptions\<close>

fun whitelist_reason_str :: "whitelist_reason \<Rightarrow> string" where
  "whitelist_reason_str WR_Ip = ''whitelist.ips''"
| "whitelist_reason_str WR_Helo = ''whitelist.helo_names''"
| "whitelist_reason_str WR_Domain = ''whitelist.domains''"
| "whitelist_reason_str WR_DomainPtr = ''whitelist.domains_ptr''"

text \<open>The part of the sender behind the last at sign.\<close>

definition mail_from_domain :: "string \<Rightarrow> string option" where
  "mail_from_domain sndr = map_option snd (rsplit_once (CHR ''@'') sndr)"

definition sasl_exempt :: "'net config \<Rightarrow> policy_request \<Rightarrow> bool" where
  "sasl_exempt cfg req =
     (exempt_sasl_authenticated (relay_cfg cfg) \<and>
      (case sasl_username req of None \<Rightarrow> False | Some u \<Rightarrow> u \<noteq> []))"

definition should_skip ::
  "('net, 'pe) ipnet \<Rightarrow> 'net config \<Rightarrow> 'net whitelist \<Rightarrow> policy_request \<Rightarrow> ip_addr \<Rightarrow> string \<Rightarrow>
     string \<Rightarrow> string option"
where
  "should_skip N cfg wl req ip helo sndr =
     (if cidr_contains N (addresses (skip_cfg cfg)) ip
      then Some ''client_address matches skip.addresses''
      else if cidr_contains N (trusted_relays (relay_cfg cfg)) ip
      then Some ''client_address matches relay.trusted_relays''
      else if sasl_exempt cfg req
      then Some ''sasl_username present and relay.exempt_sasl_authenticated is set''
      else map_option whitelist_reason_str
             (matches N wl ip helo (mail_from_domain sndr) (reverse_client_name req)))"

section \<open>One request\<close>

record 'net view =
  skip_config_seen :: "'net config"
  whitelist_seen :: "'net whitelist"
  config_seen :: "'net config"

text \<open>The sender that is checked; \<open>None\<close> is the panic of a clock before the epoch.\<close>

definition effective_sender :: "clock \<Rightarrow> crypto \<Rightarrow> srs_config \<Rightarrow> string \<Rightarrow> string option" where
  "effective_sender clk C cfg sndr =
     map_option (\<lambda>u. case u of Valid original \<Rightarrow> original | _ \<Rightarrow> sndr) (try_unwrap clk C sndr cfg)"

definition handle_request_at ::
  "('net, 'pe) ipnet \<Rightarrow> ('x, 'm, 'c, 's, 'd, 'l) viaspf \<Rightarrow> crypto \<Rightarrow> clock \<Rightarrow> 'net view \<Rightarrow>
     'l spf_evaluator \<Rightarrow> policy_request \<Rightarrow> syslog \<Rightarrow> (action \<times> syslog) option"
where
  "handle_request_at N V C clk vw ev req slog =
     (case (helo_name req, sender req, client_ip req) of
        (Some helo, Some raw_sender, Inr ip) \<Rightarrow>
          (let rcpt = (case recipient req of None \<Rightarrow> [] | Some r \<Rightarrow> r) in
           if should_skip N (skip_config_seen vw) (whitelist_seen vw) req ip helo raw_sender \<noteq> None
           then Some (Dunno, slog)
           else
             (let cfg = config_seen vw in
              case effective_sender clk C (srs_cfg cfg) raw_sender of
                None \<Rightarrow> None
              | Some sndr \<Rightarrow>
                  (let helo_outcome = check_helo V ev ip helo;
                       mail_from_outcome = check_mail_from V ev ip sndr helo;
                       ctx = \<lparr>ctx_ip = ip, ctx_sender = sndr, ctx_helo = helo, ctx_recipient = rcpt\<rparr>;
                       act = decide V cfg helo_outcome mail_from_outcome ctx
                   in Some (act,
                        log_evaluated_spf V ip (reverse_client_name req) helo sndr
                          (oc_result helo_outcome) (oc_result mail_from_outcome) act slog))))
      | _ \<Rightarrow> Some (Dunno, slog))"

definition state_view :: "('net, 'n, 'le) app_state \<Rightarrow> 'net view" where
  "state_view st =
     \<lparr>skip_config_seen = st_config st, whitelist_seen = st_whitelist st, config_seen = st_config st\<rparr>"

definition handle_request ::
  "('net, 'pe) ipnet \<Rightarrow> ('x, 'm, 'c, 's, 'd, ('n, 'le) lookup) viaspf \<Rightarrow> crypto \<Rightarrow> clock \<Rightarrow>
     ('net, 'n, 'le) app_state \<Rightarrow> policy_request \<Rightarrow> syslog \<Rightarrow> (action \<times> syslog) option"
where
  "handle_request N V C clk st req slog =
     handle_request_at N V C clk (state_view st) (st_evaluator st) req slog"

section \<open>One connection\<close>

text \<open>
  What one turn of the loop meets: the cancellation, the end of the stream, an item that does not
  decode, or a request, with the view and the clock it is answered at and whether the response
  could be written.
\<close>

datatype 'net conn_event =
    Cancelled
  | Stream_End
  | Stream_Error proto_error
  | Stream_Request policy_request "'net view" clock bool

datatype conn_end =
    Conn_Open
  | Conn_Shutdown
  | Conn_Closed
  | Conn_Decode_Failed proto_error
  | Conn_Write_Failed
  | Conn_Panicked

text \<open>The bytes written count the responses whose write succeeded.\<close>

fun handle_connection ::
  "('net, 'pe) ipnet \<Rightarrow> ('x, 'm, 'c, 's, 'd, 'l) viaspf \<Rightarrow> crypto \<Rightarrow> 'l spf_evaluator \<Rightarrow>
     'net conn_event list \<Rightarrow> string \<Rightarrow> syslog \<Rightarrow> conn_end \<times> string \<times> syslog"
where
  "handle_connection N V C ev [] out slog = (Conn_Open, out, slog)"
| "handle_connection N V C ev (Cancelled # es) out slog = (Conn_Shutdown, out, slog)"
| "handle_connection N V C ev (Stream_End # es) out slog = (Conn_Closed, out, slog)"
| "handle_connection N V C ev (Stream_Error e # es) out slog = (Conn_Decode_Failed e, out, slog)"
| "handle_connection N V C ev (Stream_Request req vw clk sent # es) out slog =
     (case handle_request_at N V C clk vw ev req slog of
        None \<Rightarrow> (Conn_Panicked, out, slog)
      | Some (act, slog') \<Rightarrow>
          if sent then handle_connection N V C ev es (encode act out) slog'
          else (Conn_Write_Failed, out, slog'))"

section \<open>Listeners\<close>

text \<open>
  The operating system's part: binding an address and removing a file, over a state of the file
  system that is a parameter. The result of the removal is ignored.
\<close>

record 'fs os_sockets =
  tcp_bind :: "socket_addr \<Rightarrow> 'fs \<Rightarrow> (io_error, 'fs) res"
  unix_bind :: "string \<Rightarrow> 'fs \<Rightarrow> (io_error, 'fs) res"
  remove_file :: "string \<Rightarrow> 'fs \<Rightarrow> 'fs"

datatype 'conn accept_event =
    Listener_Cancelled
  | Accepted 'conn
  | Accept_Failed io_error

text \<open>The accept loop: the connections it has spawned and whether it has returned.\<close>

fun accept_loop :: "'conn accept_event list \<Rightarrow> 'conn list \<times> bool" where
  "accept_loop [] = ([], False)"
| "accept_loop (Listener_Cancelled # es) = ([], True)"
| "accept_loop (Accept_Failed e # es) = accept_loop es"
| "accept_loop (Accepted c # es) = (case accept_loop es of (cs, returned) \<Rightarrow> (c # cs, returned))"

datatype 'conn task =
    Task_Serving "'conn list"
  | Task_Returned "'conn list"
  | Task_Failed io_error
  | Task_Panicked

definition serving_task :: "'conn list \<times> bool \<Rightarrow> 'conn task" where
  "serving_task r = (case r of (cs, returned) \<Rightarrow> if returned then Task_Returned cs else Task_Serving cs)"

definition run_tcp_listener ::
  "'fs os_sockets \<Rightarrow> socket_addr \<Rightarrow> 'conn accept_event list \<Rightarrow> 'fs \<Rightarrow> 'conn task \<times> 'fs"
where
  "run_tcp_listener S addr es fs =
     (case tcp_bind S addr fs of
        Inl e \<Rightarrow> (Task_Failed e, fs)
      | Inr fs' \<Rightarrow> (serving_task (accept_loop es), fs'))"

definition run_unix_listener ::
  "'fs os_sockets \<Rightarrow> string \<Rightarrow> 'conn accept_event list \<Rightarrow> 'fs \<Rightarrow> 'conn task \<times> 'fs"
where
  "run_unix_listener S path es fs =
     (let fs1 = remove_file S path fs in
      case unix_bind S path fs1 of
        Inl e \<Rightarrow> (Task_Failed e, fs1)
      | Inr fs' \<Rightarrow> (serving_task (accept_loop es), fs'))"

fun run_listener ::
  "'fs os_sockets \<Rightarrow> listen_addr \<times> 'conn accept_event list \<Rightarrow> 'fs \<Rightarrow> 'conn task \<times> 'fs"
where
  "run_listener S (Tcp addr, es) fs = run_tcp_listener S addr es fs"
| "run_listener S (Unix path, es) fs = run_unix_listener S path es fs"

fun spawn_listeners ::
  "'fs os_sockets \<Rightarrow> (listen_addr \<times> 'conn accept_event list) list \<Rightarrow> 'fs \<Rightarrow> 'conn task list \<times> 'fs"
where
  "spawn_listeners S [] fs = ([], fs)"
| "spawn_listeners S (l # ls) fs =
     (case run_listener S l fs of (t, fs1) \<Rightarrow>
        (case spawn_listeners S ls fs1 of (ts, fs2) \<Rightarrow> (t # ts, fs2)))"

text \<open>
  The loop that awaits the tasks in order: \<open>None\<close> while it waits for one that is serving. A task
  that panicked is a \<open>JoinError\<close>, which the code converts to an I/O error of its own kind.
\<close>

datatype run_error = Run_Io io_error | Run_Join

fun join_tasks :: "'conn task list \<Rightarrow> (run_error, unit) res option" where
  "join_tasks [] = Some (Ok ())"
| "join_tasks (Task_Serving cs # ts) = None"
| "join_tasks (Task_Returned cs # ts) = join_tasks ts"
| "join_tasks (Task_Failed e # ts) = Some (Err (Run_Io e))"
| "join_tasks (Task_Panicked # ts) = Some (Err Run_Join)"

text \<open>
  The listeners are those of the configuration at the start. Each is paired with the events of
  its accept loop so far, and they bind in the order in which they were spawned.
\<close>

definition run ::
  "'fs os_sockets \<Rightarrow> 'net config \<Rightarrow> (listen_addr \<Rightarrow> 'conn accept_event list) \<Rightarrow> 'fs \<Rightarrow>
     (run_error, unit) res option"
where
  "run S cfg events fs =
     join_tasks (fst (spawn_listeners S (map (\<lambda>l. (l, events l)) (listen (server_cfg cfg))) fs))"

section \<open>What a request comes to\<close>

text \<open>The requests that reach SPF evaluation, with the identities and the client they name.\<close>

definition evaluated ::
  "('net, 'pe) ipnet \<Rightarrow> 'net view \<Rightarrow> policy_request \<Rightarrow> string \<Rightarrow> string \<Rightarrow> ip_addr \<Rightarrow> bool"
where
  "evaluated N vw req helo raw ip \<longleftrightarrow>
     helo_name req = Some helo \<and> sender req = Some raw \<and> client_ip req = Ok ip \<and>
     should_skip N (skip_config_seen vw) (whitelist_seen vw) req ip helo raw = None"

lemma not_evaluated_dunno:
  assumes "\<And>helo raw ip. \<not> evaluated N vw req helo raw ip"
  shows "handle_request_at N V C clk vw ev req slog = Some (Dunno, slog)"
proof -
  consider "helo_name req = None" | "sender req = None" | e where "client_ip req = Err e"
    | helo raw ip where "helo_name req = Some helo" "sender req = Some raw" "client_ip req = Ok ip"
    by (cases "helo_name req"; cases "sender req"; cases "client_ip req") auto
  then show ?thesis
  proof cases
    case 4
    with assms [of helo raw ip] show ?thesis
      by (simp add: handle_request_at_def evaluated_def Let_def)
  qed (auto simp: handle_request_at_def split: option.splits sum.splits)
qed

definition request_context :: "policy_request \<Rightarrow> ip_addr \<Rightarrow> string \<Rightarrow> string \<Rightarrow> decision_context" where
  "request_context req ip sndr helo =
     \<lparr>ctx_ip = ip, ctx_sender = sndr, ctx_helo = helo,
      ctx_recipient = (case recipient req of None \<Rightarrow> [] | Some r \<Rightarrow> r)\<rparr>"

lemma handle_evaluated:
  assumes "evaluated N vw req helo raw ip"
  shows "handle_request_at N V C clk vw ev req slog =
    (case effective_sender clk C (srs_cfg (config_seen vw)) raw of
       None \<Rightarrow> None
     | Some sndr \<Rightarrow>
         (let h = check_helo V ev ip helo; m = check_mail_from V ev ip sndr helo;
              act = decide V (config_seen vw) h m (request_context req ip sndr helo)
          in Some (act, log_evaluated_spf V ip (reverse_client_name req) helo sndr
                          (oc_result h) (oc_result m) act slog)))"
  using assms
  by (simp add: handle_request_at_def evaluated_def request_context_def Let_def split: option.split)

text \<open>Either the request is answered "dunno" without evaluation, or it is evaluated.\<close>

lemma handle_cases:
  obtains (dunno) "\<And>helo raw ip. \<not> evaluated N vw req helo raw ip"
      "handle_request_at N V C clk vw ev req slog = Some (Dunno, slog)"
  | (evaluated) helo raw ip where "evaluated N vw req helo raw ip"
  using not_evaluated_dunno [of N vw req] by blast

lemma evaluated_unique:
  "evaluated N vw req helo raw ip \<Longrightarrow> evaluated N vw req helo' raw' ip' \<Longrightarrow>
     helo' = helo \<and> raw' = raw \<and> ip' = ip"
  by (simp add: evaluated_def)

text \<open>
  The syslog that an answer leaves: the calls so far, and one more line exactly where the request
  was evaluated.
\<close>

lemma log_evaluated_calls:
  "log_evaluated_spf D ip cname helo sndr hr mr act s =
     s\<lparr>syslog_calls := syslog_calls s @
         [Syslog_Mail_Info (sanitize (log_message D ip cname helo sndr hr mr act))]\<rparr>"
  by (simp add: log_evaluated_spf_def write_sanitized)

lemma handle_log:
  assumes "handle_request_at N V C clk vw ev req slog = Some (act, slog')"
  obtains (same) "slog' = slog" "act = Dunno" "\<And>helo raw ip. \<not> evaluated N vw req helo raw ip"
  | (line) helo raw ip msg where "evaluated N vw req helo raw ip"
      "slog' = slog\<lparr>syslog_calls := syslog_calls slog @ [Syslog_Mail_Info (sanitize msg)]\<rparr>"
proof (cases rule: handle_cases [of N vw req V C clk ev slog])
  case dunno
  with assms same show thesis by simp
next
  case (evaluated helo raw ip)
  with assms line show thesis
    by (auto simp: handle_evaluated [OF evaluated] Let_def log_evaluated_calls split: option.splits)
qed

lemma effective_sender_total: "effective_sender (Some secs) C cfg sndr \<noteq> None"
  by (simp add: effective_sender_def try_unwrap_total)

lemma handle_total: "handle_request_at N V C (Some secs) vw ev req slog \<noteq> None"
proof (cases rule: handle_cases [of N vw req V C "Some secs" ev slog])
  case (evaluated helo raw ip)
  then show ?thesis
    using effective_sender_total [of secs C "srs_cfg (config_seen vw)" raw]
    by (auto simp: handle_evaluated [OF evaluated] Let_def)
qed simp

text \<open>The answer does not depend on what was logged before.\<close>

lemma handle_slog:
  "map_option fst (handle_request_at N V C clk vw ev req slog) =
   map_option fst (handle_request_at N V C clk vw ev req slog')"
proof (cases rule: handle_cases [of N vw req V C clk ev slog])
  case dunno
  then show ?thesis using not_evaluated_dunno [of N vw req V C clk ev slog'] by simp
next
  case (evaluated helo raw ip)
  then show ?thesis by (simp add: handle_evaluated Let_def split: option.split)
qed

section \<open>One line for each request\<close>

lemma effective_sender_bytes:
  assumes "effective_sender clk C cfg raw = Some sndr"
  shows "set sndr \<subseteq> set raw"
proof -
  from assms obtain u where u: "try_unwrap clk C raw cfg = Some u"
    and sndr: "sndr = (case u of Valid original \<Rightarrow> original | _ \<Rightarrow> raw)"
    by (auto simp: effective_sender_def)
  show ?thesis
  proof (cases "\<exists>original. u = Valid original")
    case True
    with u sndr have "try_unwrap clk C raw cfg = Some (Valid sndr)" by auto
    then show ?thesis by (auto simp: try_unwrap_Valid_iff srs_form_def)
  next
    case False
    with sndr show ?thesis by (cases u) auto
  qed
qed

text \<open>A request as the codec hands it out: no attribute has a line feed.\<close>

definition request_single_line :: "policy_request \<Rightarrow> bool" where
  "request_single_line req \<longleftrightarrow> (\<forall>k v. attribute req k = Some v \<longrightarrow> LF \<notin> set v)"

lemma request_single_line_fields:
  assumes "request_single_line req"
  shows "helo_name req = Some v \<Longrightarrow> LF \<notin> set v" and "sender req = Some v \<Longrightarrow> LF \<notin> set v"
    and "recipient req = Some v \<Longrightarrow> LF \<notin> set v"
  using assms attribute_fields unfolding request_single_line_def by metis+

lemma handle_single_line:
  assumes "config_single_line (config_seen vw)" and "display_single_line V"
    and "request_single_line req"
    and "handle_request_at N V C clk vw ev req slog = Some (act, slog')"
  shows "LF \<notin> set (action_text act)"
proof (cases rule: handle_cases [of N vw req V C clk ev slog])
  case dunno
  with assms(4) show ?thesis by simp
next
  case (evaluated helo raw ip)
  from assms(4) obtain sndr where sndr: "effective_sender clk C (srs_cfg (config_seen vw)) raw = Some sndr"
    and act: "act = decide V (config_seen vw) (check_helo V ev ip helo)
      (check_mail_from V ev ip sndr helo) (request_context req ip sndr helo)"
    by (auto simp: handle_evaluated [OF evaluated] Let_def split: option.splits)
  have "context_single_line (request_context req ip sndr helo)"
    using evaluated request_single_line_fields [OF assms(3)] effective_sender_bytes [OF sndr]
    by (auto simp: context_single_line_def request_context_def evaluated_def split: option.splits)
  then show ?thesis unfolding act by (rule decide_single_line [OF assms(1,2)])
qed

section \<open>The connection loop\<close>

text \<open>What a loop over a sequence of requests at one view relies on: every request has an answer.\<close>

fun respond_all :: "('q \<Rightarrow> 's \<Rightarrow> ('a \<times> 's) option) \<Rightarrow> 'q list \<Rightarrow> 's \<Rightarrow> ('a list \<times> 's) option" where
  "respond_all f [] s = Some ([], s)"
| "respond_all f (q # qs) s =
     (case f q s of
        None \<Rightarrow> None
      | Some (a, s') \<Rightarrow>
          (case respond_all f qs s' of None \<Rightarrow> None | Some (as, s'') \<Rightarrow> Some (a # as, s'')))"

locale responder =
  fixes respond :: "'q \<Rightarrow> 's \<Rightarrow> ('a \<times> 's) option"
    and request_ok :: "'q \<Rightarrow> bool"
    and answer_ok :: "'a \<Rightarrow> bool"
  assumes total: "respond q s \<noteq> None"
    and answers: "request_ok q \<Longrightarrow> respond q s = Some (a, s') \<Longrightarrow> answer_ok a"
    and stateless: "map_option fst (respond q s) = map_option fst (respond q s')"
begin

definition answer_of :: "'q \<Rightarrow> 'a" where
  "answer_of q = fst (the (respond q undefined))"

lemma respond_answer: "\<exists>s'. respond q s = Some (answer_of q, s')"
proof -
  obtain a s' where r: "respond q s = Some (a, s')" using total [of q s] by auto
  obtain b s'' where u: "respond q undefined = Some (b, s'')" using total [of q undefined] by auto
  have "a = b" using stateless [of q s undefined] r u by simp
  with r u show ?thesis by (simp add: answer_of_def)
qed

lemma respond_all_answers: "\<exists>s'. respond_all respond qs s = Some (map answer_of qs, s')"
proof (induction qs arbitrary: s)
  case Nil
  show ?case by simp
next
  case (Cons q qs)
  obtain s1 where "respond q s = Some (answer_of q, s1)" using respond_answer by blast
  moreover obtain s2 where "respond_all respond qs s1 = Some (map answer_of qs, s2)"
    using Cons.IH by blast
  ultimately show ?case by simp
qed

lemma respond_all_ok:
  "list_all request_ok qs \<Longrightarrow> respond_all respond qs s = Some (as, s') \<Longrightarrow> list_all answer_ok as"
proof (induction qs arbitrary: s as)
  case Nil
  then show ?case by simp
next
  case (Cons q qs)
  then obtain a s1 as' where r: "respond q s = Some (a, s1)" and as: "as = a # as'"
    and rest: "respond_all respond qs s1 = Some (as', s')" by (auto split: option.splits)
  have "answer_ok a" using r Cons.prems(1) by (auto intro: answers)
  moreover have "list_all answer_ok as'" using Cons.IH Cons.prems(1) rest by auto
  ultimately show ?case using as by simp
qed

lemma respond_all_length: "respond_all respond qs s = Some (as, s') \<Longrightarrow> length as = length qs"
  using respond_all_answers [of qs s] by auto

lemma respond_all_each:
  assumes "respond_all respond qs s = Some (as, s')"
  shows "list_all2 (\<lambda>q a. map_option fst (respond q s0) = Some a) qs as"
proof -
  have "as = map answer_of qs" using assms respond_all_answers [of qs s] by auto
  moreover have "map_option fst (respond q s0) = Some (answer_of q)" for q
    using respond_answer [of q s0] by auto
  ultimately show ?thesis by (simp add: list_all2_map2 list.rel_refl)
qed

end

interpretation handler: responder
  "\<lambda>req. handle_request_at N V C (Some secs) vw ev req"
  "\<lambda>req. config_single_line (config_seen vw) \<and> display_single_line V \<and> request_single_line req"
  "\<lambda>act. LF \<notin> set (action_text act)"
  for N :: "('net, 'pe) ipnet" and V :: "('x, 'm, 'c, 's, 'd, 'l) viaspf" and C :: crypto
    and secs :: u64 and vw :: "'net view" and ev :: "'l spf_evaluator"
proof (unfold_locales, goal_cases)
  case (1 q s)
  show ?case by (rule handle_total)
next
  case (2 q s a s')
  then show ?case by (elim conjE) (rule handle_single_line)
next
  case (3 q s s')
  show ?case by (rule handle_slog)
qed

text \<open>The loop is that sequence of answers, each written out before the next item is read.\<close>

lemma handle_connection_requests:
  assumes "respond_all (handle_request_at N V C clk vw ev) reqs slog = Some (acts, slog')"
  shows "handle_connection N V C ev (map (\<lambda>r. Stream_Request r vw clk True) reqs @ es) out slog =
         handle_connection N V C ev es (out @ concat (map to_wire acts)) slog'"
  using assms
proof (induction reqs arbitrary: out slog acts)
  case Nil
  then show ?case by simp
next
  case (Cons r reqs)
  then obtain a s1 as where r: "handle_request_at N V C clk vw ev r slog = Some (a, s1)"
    and acts: "acts = a # as" and rest: "respond_all (handle_request_at N V C clk vw ev) reqs s1 = Some (as, slog')"
    by (auto split: option.splits)
  show ?case using Cons.IH [OF rest] r acts by (simp add: encode_def)
qed

text \<open>Once a connection is over, nothing that follows has an effect.\<close>

lemma handle_connection_over:
  assumes "handle_connection N V C ev es out slog = (en, out', slog')" and "en \<noteq> Conn_Open"
  shows "handle_connection N V C ev (es @ fs) out slog = (en, out', slog')"
  using assms
  by (induction N V C ev es out slog rule: handle_connection.induct)
     (auto split: option.splits prod.splits if_splits)

text \<open>Output and log only grow.\<close>

lemma handle_connection_grows:
  assumes "handle_connection N V C ev es out slog = (en, out', slog')"
  shows "prefix out out' \<and> prefix (syslog_calls slog) (syslog_calls slog')"
  using assms
proof (induction N V C ev es out slog rule: handle_connection.induct)
  case (5 N V C ev req vw clk sent es out slog)
  show ?case
  proof (cases "handle_request_at N V C clk vw ev req slog")
    case None
    with "5.prems" show ?thesis by simp
  next
    case (Some p)
    then obtain act s1 where r: "handle_request_at N V C clk vw ev req slog = Some (act, s1)"
      by (cases p) auto
    then have log: "prefix (syslog_calls slog) (syslog_calls s1)" by (rule handle_log) auto
    show ?thesis
    proof (cases sent)
      case True
      then have "prefix (encode act out) out' \<and> prefix (syslog_calls s1) (syslog_calls slog')"
        using "5.prems" r "5.IH" [OF r refl True] by simp
      with log show ?thesis
        by (auto simp: encode_def dest: append_prefixD intro: prefix_order.trans)
    next
      case False
      with "5.prems" r log show ?thesis by auto
    qed
  qed
qed auto

text \<open>The events of a byte stream: its requests, all at one view and clock, and its error, if any.\<close>

definition conn_events ::
  "'net view \<Rightarrow> clock \<Rightarrow> policy_request list \<times> proto_error option \<times> string \<Rightarrow> 'net conn_event list"
where
  "conn_events vw clk r =
     (case r of (reqs, e, _) \<Rightarrow>
        map (\<lambda>req. Stream_Request req vw clk True) reqs @
        (case e of None \<Rightarrow> [] | Some err \<Rightarrow> [Stream_Error err]))"

lemma drain_single_line:
  "drain b = (reqs, e, b') \<Longrightarrow> req \<in> set reqs \<Longrightarrow> request_single_line req"
proof (induction b arbitrary: reqs rule: drain.induct)
  case (1 buf)
  obtain r b1 where d: "decode buf = (r, b1)" by (cases "decode buf")
  consider (found) q where "r = Ok (Some q)" | (other) "\<And>q. r \<noteq> Ok (Some q)" by blast
  then show ?case
  proof cases
    case found
    with d have dq: "decode buf = (Ok (Some q), b1)" by simp
    obtain reqs' where rest: "drain b1 = (reqs', e, b')" and reqs: "reqs = q # reqs'"
      using "1.prems"(1) dq by (auto simp: drain.simps [of buf] split: prod.splits)
    have "request_single_line q"
      using decode_attribute_no_LF [OF dq] by (auto simp: request_single_line_def)
    moreover have "request_single_line req" if "req \<in> set reqs'"
      using "1.IH" [OF dq [symmetric] refl refl rest that] .
    ultimately show ?thesis using "1.prems"(2) reqs by auto
  next
    case other
    with d "1.prems" have "reqs = []"
      by (cases r) (auto simp: drain.simps [of buf] split: option.splits prod.splits)
    with "1.prems"(2) show ?thesis by simp
  qed
qed

lemma feed_drain:
  "fst (feed [] chunks) = fst (drain (concat chunks)) \<and>
   fst (snd (feed [] chunks)) = fst (snd (drain (concat chunks)))"
  using codec.reads_concat [of "[]" chunks] by (simp add: decode_def)

text \<open>A connection on which a whole stream arrives, in any pieces.\<close>

lemma connection_stream:
  assumes "config_single_line (config_seen vw)" and "display_single_line V"
    and d: "drain (concat chunks) = (reqs, e, rest)"
  obtains acts slog' where
    "respond_all (handle_request_at N V C (Some secs) vw ev) reqs slog = Some (acts, slog')"
    and "handle_connection N V C ev (conn_events vw (Some secs) (feed [] chunks) @ es) [] slog =
      (case e of
         None \<Rightarrow> handle_connection N V C ev es (concat (map to_wire acts)) slog'
       | Some err \<Rightarrow> (Conn_Decode_Failed err, concat (map to_wire acts), slog'))"
    and "read_replies (concat (map to_wire acts)) = map (\<lambda>a. [show_action a]) acts"
proof -
  obtain acts slog' where r:
    "respond_all (handle_request_at N V C (Some secs) vw ev) reqs slog = Some (acts, slog')"
    using handler.respond_all_answers by meson
  have "list_all request_single_line reqs"
    using drain_single_line [OF d] by (simp add: list_all_iff)
  then have "list_all (\<lambda>act. LF \<notin> set (action_text act)) acts"
    using assms(1,2) by (intro handler.respond_all_ok [OF _ r]) (simp add: list_all_iff)
  then have "read_replies (concat (map to_wire acts)) = map (\<lambda>a. [show_action a]) acts"
    by (rule read_replies_to_wire)
  moreover obtain rest' where f: "feed [] chunks = (reqs, e, rest')"
    using feed_drain [of chunks] d by (cases "feed [] chunks") auto
  ultimately show thesis
    using handle_connection_requests [OF r, of _ "[]"]
    by (intro that [OF r]) (simp_all add: conn_events_def split: option.split)
qed

section \<open>Accepting and waiting\<close>

fun accepted_conn :: "'conn accept_event \<Rightarrow> 'conn option" where
  "accepted_conn (Accepted c) = Some c"
| "accepted_conn _ = None"

text \<open>A failed accept costs no other connection, and only the cancellation ends the loop.\<close>

lemma accept_loop_eq:
  "accept_loop es =
     (List.map_filter accepted_conn (takeWhile (\<lambda>e. e \<noteq> Listener_Cancelled) es),
      Listener_Cancelled \<in> set es)"
  by (induction es rule: accept_loop.induct) auto

fun task_returned :: "'conn task \<Rightarrow> bool" where
  "task_returned (Task_Returned _) = True"
| "task_returned _ = False"

fun task_result :: "'conn task \<Rightarrow> (run_error, unit) res option" where
  "task_result (Task_Serving _) = None"
| "task_result (Task_Returned _) = Some (Ok ())"
| "task_result (Task_Failed e) = Some (Err (Run_Io e))"
| "task_result Task_Panicked = Some (Err Run_Join)"

text \<open>The tasks are awaited in order: the first that has not returned normally decides.\<close>

lemma join_tasks_first:
  "join_tasks ts =
     (case dropWhile task_returned ts of [] \<Rightarrow> Some (Ok ()) | t # _ \<Rightarrow> task_result t)"
  by (induction ts rule: join_tasks.induct) auto

lemma join_tasks_Ok: "join_tasks ts = Some (Ok ()) \<longleftrightarrow> list_all task_returned ts"
  by (induction ts rule: join_tasks.induct) auto

text \<open>A state of the file system in which every address binds, one after the other.\<close>

fun all_bind :: "'fs os_sockets \<Rightarrow> listen_addr list \<Rightarrow> 'fs \<Rightarrow> bool" where
  "all_bind S [] fs = True"
| "all_bind S (Tcp addr # ls) fs =
     (case tcp_bind S addr fs of Inl _ \<Rightarrow> False | Inr fs' \<Rightarrow> all_bind S ls fs')"
| "all_bind S (Unix path # ls) fs =
     (case unix_bind S path (remove_file S path fs) of Inl _ \<Rightarrow> False | Inr fs' \<Rightarrow> all_bind S ls fs')"

lemma spawn_listeners_bound:
  assumes "all_bind S ls fs"
  shows "fst (spawn_listeners S (map (\<lambda>l. (l, events l)) ls) fs) =
         map (\<lambda>l. serving_task (accept_loop (events l))) ls"
  using assms
  by (induction S ls fs rule: all_bind.induct)
     (auto simp: run_tcp_listener_def run_unix_listener_def Let_def split: sum.splits prod.splits)

lemma task_returned_serving [simp]: "task_returned (serving_task r) = snd r"
  by (simp add: serving_task_def split: prod.split)

end
