(* ===== verification/Daemon.thy ===== *)
theory Daemon
  imports Server
begin

text \<open>
  The binary (\<open>rspfd/src/main.rs\<close>): the start-up sequence, the reload on SIGHUP, and the daemon as
  a transition system in which reloads and requests interleave.

  A reload replaces the two shared cells one after the other, and a request loads them one after
  the other; the step relation has each store and each load as a step of its own. The invariant
  says which mixtures of old and new a request can be answered from.
\<close>

section \<open>Start-up\<close>

record args =
  arg_config :: string
  arg_check_config :: bool
  arg_dump_example_config :: bool

datatype ('te, 've) load_failure = Loading string "('te, 've) config_error"

definition load_config ::
  "file_system \<Rightarrow> (string \<Rightarrow> ('te, 'net config) res) \<Rightarrow> (string \<Rightarrow> ('ve, 'rec) res) \<Rightarrow> string \<Rightarrow>
     (('te, 've) load_failure, 'net config) res"
where
  "load_config fs from_toml parse_record path =
     map_err (Loading path) (config_load fs from_toml parse_record path)"

datatype ('te, 've, 're, 'pe) main_error =
    Main_Config "('te, 've) load_failure"
  | Main_State "('re, 'pe) app_state_error"
  | Main_Run run_error

text \<open>
  What \<open>main\<close> uses of its surroundings: files, the parsers, the resolver, the sockets, the events
  of each listener so far, and the example configuration that is compiled into the binary.
\<close>

record ('net, 'pe, 'n, 'le, 're, 'te, 've, 'rec, 'lv, 'fs, 'conn) main_env =
  me_files :: file_system
  me_from_toml :: "string \<Rightarrow> ('te, 'net config) res"
  me_parse_record :: "string \<Rightarrow> ('ve, 'rec) res"
  me_ipnet :: "('net, 'pe) ipnet"
  me_names :: "'n name_ops"
  me_resolver :: "('re, ('n, 'le) lookup) res"
  me_levels :: "'lv tracing_levels"
  me_sockets :: "'fs os_sockets"
  me_socket_state :: 'fs
  me_events :: "listen_addr \<Rightarrow> 'conn accept_event list"
  me_example_toml :: string

text \<open>The outcome: standard output, the log filter, syslog, and the result, if \<open>main\<close> returned.\<close>

record ('te, 've, 're, 'pe) main_run =
  mr_stdout :: string
  mr_filter :: "string option"
  mr_syslog :: syslog
  mr_result :: "(('te, 've, 're, 'pe) main_error, unit) res option"

definition main ::
  "('net, 'pe, 'n, 'le, 're, 'te, 've, 'rec, 'lv, 'fs, 'conn) main_env \<Rightarrow> args \<Rightarrow>
     ('te, 've, 're, 'pe) main_run"
where
  "main E args =
     (let quiet = \<lparr>mr_stdout = [], mr_filter = None,
                   mr_syslog = \<lparr>init_done = False, syslog_calls = []\<rparr>, mr_result = Some (Ok ())\<rparr>
      in if arg_dump_example_config args then quiet\<lparr>mr_stdout := me_example_toml E\<rparr>
         else case load_config (me_files E) (me_from_toml E) (me_parse_record E) (arg_config args) of
           Inl e \<Rightarrow> quiet\<lparr>mr_result := Some (Err (Main_Config e))\<rparr>
         | Inr cfg \<Rightarrow>
             if arg_check_config args
             then quiet\<lparr>mr_stdout := ''config OK: '' @ show_radix 10 (length (listen (server_cfg cfg))) @
                    '' listener(s) configured'' @ [LF]\<rparr>
             else
               (let started = quiet\<lparr>mr_filter := logging_init (me_levels E) (level (log_cfg cfg)) None,
                                    mr_syslog := mail_log_init (mr_syslog quiet)\<rparr>
                in case app_state_new (me_ipnet E) (me_names E) (me_files E) (me_resolver E) cfg of
                     Inl e \<Rightarrow> started\<lparr>mr_result := Some (Err (Main_State e))\<rparr>
                   | Inr st \<Rightarrow>
                       started\<lparr>mr_result :=
                         map_option (map_err Main_Run)
                           (run (me_sockets E) (st_config st) (me_events E) (me_socket_state E))\<rparr>))"

section \<open>Reload\<close>

datatype ('te, 've, 'pe) reload_error =
    Reload_Config "('te, 've) load_failure"
  | Reload_Whitelist "'pe whitelist_error"

definition reload_load ::
  "('net, 'pe) ipnet \<Rightarrow> file_system \<Rightarrow> (string \<Rightarrow> ('te, 'net config) res) \<Rightarrow>
     (string \<Rightarrow> ('ve, 'rec) res) \<Rightarrow> string \<Rightarrow>
     (('te, 've, 'pe) reload_error, 'net config \<times> 'net whitelist) res"
where
  "reload_load N fs from_toml parse_record path =
     (case load_config fs from_toml parse_record path of
        Inr new_config \<Rightarrow>
          (case whitelist_load N fs (whitelist_cfg new_config) of
             Inr new_whitelist \<Rightarrow> Ok (new_config, new_whitelist)
           | Inl e \<Rightarrow> Err (Reload_Whitelist e))
      | Inl e \<Rightarrow> Err (Reload_Config e))"

definition store_whitelist :: "'net whitelist \<Rightarrow> ('net, 'n, 'le) app_state \<Rightarrow> ('net, 'n, 'le) app_state" where
  "store_whitelist wl st = st\<lparr>st_whitelist := wl\<rparr>"

definition store_config :: "'net config \<Rightarrow> ('net, 'n, 'le) app_state \<Rightarrow> ('net, 'n, 'le) app_state" where
  "store_config cfg st = st\<lparr>st_config := cfg\<rparr>"

definition reload ::
  "('net, 'pe) ipnet \<Rightarrow> file_system \<Rightarrow> (string \<Rightarrow> ('te, 'net config) res) \<Rightarrow>
     (string \<Rightarrow> ('ve, 'rec) res) \<Rightarrow> string \<Rightarrow> ('net, 'n, 'le) app_state \<Rightarrow> ('net, 'n, 'le) app_state"
where
  "reload N fs from_toml parse_record path st =
     (case reload_load N fs from_toml parse_record path of
        Inr (cfg, wl) \<Rightarrow> store_config cfg (store_whitelist wl st)
      | Inl e \<Rightarrow> st)"

section \<open>Reloads and requests interleaved\<close>

datatype 'net reload_phase =
    RL_Waiting
  | RL_Loaded "'net config" "'net whitelist"
  | RL_Half "'net config"

datatype 'net request_phase =
    RQ_Start
  | RQ_Skip_Config "'net config"
  | RQ_Whitelist "'net config" "'net whitelist"
  | RQ_View "'net view"

text \<open>
  The system: the shared state, the reload task, the requests under way by task, syslog, and the
  answers given, each with the view it was given at. The last field is a ghost, the pairs that
  were published, oldest first; no step reads it.
\<close>

record ('net, 'n, 'le) system =
  sy_state :: "('net, 'n, 'le) app_state"
  sy_reload :: "'net reload_phase"
  sy_tasks :: "nat \<rightharpoonup> policy_request \<times> 'net request_phase"
  sy_syslog :: syslog
  sy_answers :: "('net view \<times> policy_request \<times> action) list"
  sy_published :: "('net config \<times> 'net whitelist) list"

definition system_start :: "('net, 'n, 'le) app_state \<Rightarrow> syslog \<Rightarrow> ('net, 'n, 'le) system" where
  "system_start st slog =
     \<lparr>sy_state = st, sy_reload = RL_Waiting, sy_tasks = Map.empty, sy_syslog = slog,
      sy_answers = [], sy_published = [(st_config st, st_whitelist st)]\<rparr>"

text \<open>What stays the same while the daemon runs.\<close>

record ('net, 'pe, 'x, 'm, 'c, 's, 'd, 'n, 'le, 'te, 've, 'rec) daemon_env =
  de_ipnet :: "('net, 'pe) ipnet"
  de_viaspf :: "('x, 'm, 'c, 's, 'd, ('n, 'le) lookup) viaspf"
  de_crypto :: crypto
  de_from_toml :: "string \<Rightarrow> ('te, 'net config) res"
  de_parse_record :: "string \<Rightarrow> ('ve, 'rec) res"
  de_path :: string

inductive step ::
  "('net, 'pe, 'x, 'm, 'c, 's, 'd, 'n, 'le, 'te, 've, 'rec) daemon_env \<Rightarrow>
     ('net, 'n, 'le) system \<Rightarrow> ('net, 'n, 'le) system \<Rightarrow> bool"
  for E :: "('net, 'pe, 'x, 'm, 'c, 's, 'd, 'n, 'le, 'te, 've, 'rec) daemon_env"
where
  sighup_loaded:
    "sy_reload w = RL_Waiting \<Longrightarrow>
     reload_load (de_ipnet E) fs (de_from_toml E) (de_parse_record E) (de_path E) = Ok (cfg, wl) \<Longrightarrow>
     step E w (w\<lparr>sy_reload := RL_Loaded cfg wl\<rparr>)"
| sighup_failed:
    "sy_reload w = RL_Waiting \<Longrightarrow>
     reload_load (de_ipnet E) fs (de_from_toml E) (de_parse_record E) (de_path E) = Err e \<Longrightarrow>
     step E w w"
| whitelist_stored:
    "sy_reload w = RL_Loaded cfg wl \<Longrightarrow>
     step E w (w\<lparr>sy_state := store_whitelist wl (sy_state w), sy_reload := RL_Half cfg,
                 sy_published := sy_published w @ [(cfg, wl)]\<rparr>)"
| config_stored:
    "sy_reload w = RL_Half cfg \<Longrightarrow>
     step E w (w\<lparr>sy_state := store_config cfg (sy_state w), sy_reload := RL_Waiting\<rparr>)"
| arrive:
    "sy_tasks w t = None \<Longrightarrow> step E w (w\<lparr>sy_tasks := (sy_tasks w)(t \<mapsto> (req, RQ_Start))\<rparr>)"
| skip_config_loaded:
    "sy_tasks w t = Some (req, RQ_Start) \<Longrightarrow>
     step E w (w\<lparr>sy_tasks := (sy_tasks w)(t \<mapsto> (req, RQ_Skip_Config (st_config (sy_state w))))\<rparr>)"
| whitelist_loaded:
    "sy_tasks w t = Some (req, RQ_Skip_Config c) \<Longrightarrow>
     step E w (w\<lparr>sy_tasks :=
       (sy_tasks w)(t \<mapsto> (req, RQ_Whitelist c (st_whitelist (sy_state w))))\<rparr>)"
| config_loaded:
    "sy_tasks w t = Some (req, RQ_Whitelist c wl) \<Longrightarrow>
     step E w (w\<lparr>sy_tasks := (sy_tasks w)(t \<mapsto> (req, RQ_View
       \<lparr>skip_config_seen = c, whitelist_seen = wl, config_seen = st_config (sy_state w)\<rparr>))\<rparr>)"
| answered:
    "sy_tasks w t = Some (req, RQ_View vw) \<Longrightarrow>
     handle_request_at (de_ipnet E) (de_viaspf E) (de_crypto E) clk vw (st_evaluator (sy_state w))
       req (sy_syslog w) = Some (act, slog) \<Longrightarrow>
     step E w (w\<lparr>sy_tasks := (sy_tasks w)(t := None), sy_syslog := slog,
                 sy_answers := sy_answers w @ [(vw, req, act)]\<rparr>)"
| panicked:
    "sy_tasks w t = Some (req, RQ_View vw) \<Longrightarrow>
     handle_request_at (de_ipnet E) (de_viaspf E) (de_crypto E) clk vw (st_evaluator (sy_state w))
       req (sy_syslog w) = None \<Longrightarrow>
     step E w (w\<lparr>sy_tasks := (sy_tasks w)(t := None)\<rparr>)"

inductive_cases step_cases: "step E w w'"

definition reachable ::
  "('net, 'pe, 'x, 'm, 'c, 's, 'd, 'n, 'le, 'te, 've, 'rec) daemon_env \<Rightarrow>
     ('net, 'n, 'le) system \<Rightarrow> ('net, 'n, 'le) system \<Rightarrow> bool"
where
  "reachable E = (step E)\<^sup>*\<^sup>*"

lemma reachable_refl [intro]: "reachable E w w"
  by (simp add: reachable_def)

lemma reachable_step: "step E w w' \<Longrightarrow> reachable E w' w'' \<Longrightarrow> reachable E w w''"
  unfolding reachable_def by (rule converse_rtranclp_into_rtranclp)

lemma reachable_trans: "reachable E w w' \<Longrightarrow> reachable E w' w'' \<Longrightarrow> reachable E w w''"
  unfolding reachable_def by (rule rtranclp_trans)

text \<open>
  The stores of a reload that has the reload task to itself come to the function \<open>reload\<close>, and a
  request can always be brought to its answer, whatever the reload task is doing.
\<close>

lemma reload_steps:
  assumes "sy_reload w = RL_Waiting"
    and "reload_load (de_ipnet E) fs (de_from_toml E) (de_parse_record E) (de_path E) = Ok (cfg, wl)"
  shows "reachable E w (w\<lparr>sy_state := store_config cfg (store_whitelist wl (sy_state w)),
    sy_published := sy_published w @ [(cfg, wl)]\<rparr>)"
proof -
  let ?w1 = "w\<lparr>sy_reload := RL_Loaded cfg wl\<rparr>"
  let ?w2 = "?w1\<lparr>sy_state := store_whitelist wl (sy_state w), sy_reload := RL_Half cfg,
    sy_published := sy_published w @ [(cfg, wl)]\<rparr>"
  let ?w3 = "?w2\<lparr>sy_state := store_config cfg (store_whitelist wl (sy_state w)), sy_reload := RL_Waiting\<rparr>"
  have "step E w ?w1" by (rule step.sighup_loaded [OF assms])
  moreover have "step E ?w1 ?w2" using step.whitelist_stored [of ?w1 cfg wl E] by simp
  moreover have "step E ?w2 ?w3" using step.config_stored [of ?w2 cfg E] by simp
  ultimately have "reachable E w ?w3" by (meson reachable_refl reachable_step)
  moreover have "?w3 = w\<lparr>sy_state := store_config cfg (store_whitelist wl (sy_state w)),
      sy_published := sy_published w @ [(cfg, wl)]\<rparr>"
    by (rule system.equality) (simp_all add: assms(1))
  ultimately show ?thesis by simp
qed

lemma view_answered:
  assumes "sy_tasks w t = Some (req, RQ_View vw)"
  shows "\<exists>w' act. reachable E w w' \<and> sy_tasks w' t = None \<and> sy_answers w' = sy_answers w @ [(vw, req, act)]"
proof -
  obtain act slog where act: "handle_request_at (de_ipnet E) (de_viaspf E) (de_crypto E) (Some 0) vw
      (st_evaluator (sy_state w)) req (sy_syslog w) = Some (act, slog)"
    using handle_total by fastforce
  let ?w' = "w\<lparr>sy_tasks := (sy_tasks w)(t := None), sy_syslog := slog,
    sy_answers := sy_answers w @ [(vw, req, act)]\<rparr>"
  have "reachable E w ?w'"
    using step.answered [OF assms act] by (rule reachable_step) (rule reachable_refl)
  then show ?thesis by (intro exI [of _ ?w'] exI [of _ act]) simp
qed

lemma task_answered:
  assumes "sy_tasks w t = Some (req, ph)"
  shows "\<exists>w' vw act. reachable E w w' \<and> sy_tasks w' t = None \<and>
    sy_answers w' = sy_answers w @ [(vw, req, act)]"
proof -
  have view: ?thesis if "reachable E w w1" "sy_tasks w1 t = Some (req, RQ_View vw)"
      "sy_answers w1 = sy_answers w" for w1 vw
    using view_answered [OF that(2), of E] that(1,3) reachable_trans by metis
  have whitelist: ?thesis if "reachable E w w1" "sy_tasks w1 t = Some (req, RQ_Whitelist c wl)"
      "sy_answers w1 = sy_answers w" for w1 c wl
    by (rule view [OF reachable_trans [OF that(1) reachable_step [OF step.config_loaded [OF that(2)] reachable_refl]]])
       (simp_all add: that(3))
  have skip: ?thesis if "reachable E w w1" "sy_tasks w1 t = Some (req, RQ_Skip_Config c)"
      "sy_answers w1 = sy_answers w" for w1 c
    by (rule whitelist [OF reachable_trans [OF that(1) reachable_step [OF step.whitelist_loaded [OF that(2)] reachable_refl]]])
       (simp_all add: that(3))
  show ?thesis
  proof (cases ph)
    case RQ_Start
    with assms have "sy_tasks w t = Some (req, RQ_Start)" by simp
    show ?thesis
      by (rule skip [OF reachable_step [OF step.skip_config_loaded reachable_refl]], fact) simp_all
  qed (use assms skip [OF reachable_refl] whitelist [OF reachable_refl] view [OF reachable_refl] in auto)
qed

section \<open>Invariants of a transition system\<close>

locale transition_system =
  fixes tr :: "'w \<Rightarrow> 'w \<Rightarrow> bool"
    and start :: "'w \<Rightarrow> bool"
    and inv :: "'w \<Rightarrow> bool"
  assumes inv_start: "start w \<Longrightarrow> inv w"
    and inv_step: "inv w \<Longrightarrow> tr w w' \<Longrightarrow> inv w'"
begin

lemma inv_steps: "tr\<^sup>*\<^sup>* w w' \<Longrightarrow> inv w \<Longrightarrow> inv w'"
  by (induction rule: rtranclp_induct) (auto intro: inv_step)

lemma inv_reachable: "start w \<Longrightarrow> tr\<^sup>*\<^sup>* w w' \<Longrightarrow> inv w'"
  by (blast intro: inv_steps inv_start)

end

section \<open>What was published\<close>

text \<open>
  A pair that a reload may publish: a valid configuration, and a whitelist in lower case with at
  least the entries of that configuration.
\<close>

definition pair_ok ::
  "('net, 'pe) ipnet \<Rightarrow> (string \<Rightarrow> ('ve, 'rec) res) \<Rightarrow> 'net config \<times> 'net whitelist \<Rightarrow> bool"
where
  "pair_ok N parse_record p \<longleftrightarrow>
     config_valid parse_record (fst p) \<and> normal (snd p) \<and>
     extends N (whitelist_of_config (whitelist_cfg (fst p))) (snd p)"

lemma reload_load_ok:
  "reload_load N fs from_toml parse_record path = Ok p \<Longrightarrow> pair_ok N parse_record p"
  by (cases p)
     (auto simp: reload_load_def load_config_def pair_ok_def map_err_Ok_iff
       intro: file_config.load_valid whitelist_load_normal whitelist_load_extends
       split: sum.splits)

text \<open>How many of the published configurations are behind the one in place.\<close>

fun config_index :: "'net reload_phase \<Rightarrow> nat \<Rightarrow> nat" where
  "config_index (RL_Half _) n = n - 2"
| "config_index _ n = n - 1"

definition config_now :: "('net, 'n, 'le) system \<Rightarrow> nat" where
  "config_now w = config_index (sy_reload w) (length (sy_published w))"

text \<open>
  A view is coherent with the published pairs: its whitelist is not older than the first
  configuration it saw, nor is the second configuration, which is at most one behind the
  whitelist.
\<close>

definition view_at :: "('net config \<times> 'net whitelist) list \<Rightarrow> nat \<Rightarrow> nat \<Rightarrow> nat \<Rightarrow> 'net view \<Rightarrow> bool" where
  "view_at P i j k vw \<longleftrightarrow>
     i \<le> j \<and> i \<le> k \<and> j \<le> Suc k \<and> j < length P \<and> k < length P \<and>
     skip_config_seen vw = fst (P ! i) \<and> whitelist_seen vw = snd (P ! j) \<and>
     config_seen vw = fst (P ! k)"

definition view_ok :: "('net config \<times> 'net whitelist) list \<Rightarrow> 'net view \<Rightarrow> bool" where
  "view_ok P vw \<longleftrightarrow> (\<exists>i j k. view_at P i j k vw)"

fun phase_ok :: "('net config \<times> 'net whitelist) list \<Rightarrow> nat \<Rightarrow> 'net request_phase \<Rightarrow> bool" where
  "phase_ok P n RQ_Start = True"
| "phase_ok P n (RQ_Skip_Config c) = (\<exists>i\<le>n. c = fst (P ! i))"
| "phase_ok P n (RQ_Whitelist c wl) =
     (\<exists>i\<le>n. \<exists>j\<le>Suc n. i \<le> j \<and> j < length P \<and> c = fst (P ! i) \<and> wl = snd (P ! j))"
| "phase_ok P n (RQ_View vw) = view_ok P vw"

lemma view_ok_append: "view_ok P vw \<Longrightarrow> view_ok (P @ Q) vw"
  unfolding view_ok_def view_at_def by (elim exE conjE, intro exI conjI) (auto simp: nth_append)

lemma phase_ok_mono:
  assumes "phase_ok P n ph" and "n < length P" and "n \<le> n'"
  shows "phase_ok (P @ Q) n' ph"
proof (cases ph)
  case (RQ_Skip_Config c)
  with assms obtain i where "i \<le> n" "c = fst (P ! i)" by auto
  with assms RQ_Skip_Config show ?thesis by (auto simp: nth_append intro!: exI [of _ i])
next
  case (RQ_Whitelist c wl)
  with assms obtain i j where "i \<le> n" "j \<le> Suc n" "i \<le> j" "j < length P" "c = fst (P ! i)" "wl = snd (P ! j)"
    by auto
  with assms(2,3) show ?thesis
    unfolding RQ_Whitelist phase_ok.simps
    by (intro exI [of _ i] exI [of _ j] conjI) (simp_all add: nth_append)
qed (use assms in \<open>simp_all add: view_ok_append\<close>)

section \<open>The invariant\<close>

text \<open>The cells and the reload task.\<close>

definition cells_inv ::
  "('net, 'pe) ipnet \<Rightarrow> (string \<Rightarrow> ('ve, 'rec) res) \<Rightarrow> ('n, 'le) lookup spf_evaluator \<Rightarrow>
     ('net, 'n, 'le) system \<Rightarrow> bool"
where
  "cells_inv N parse_record ev w \<longleftrightarrow>
     sy_published w \<noteq> [] \<and> list_all (pair_ok N parse_record) (sy_published w) \<and>
     st_evaluator (sy_state w) = ev \<and>
     st_whitelist (sy_state w) = snd (last (sy_published w)) \<and>
     st_config (sy_state w) = fst (sy_published w ! config_now w) \<and>
     (case sy_reload w of
        RL_Waiting \<Rightarrow> True
      | RL_Loaded cfg wl \<Rightarrow> pair_ok N parse_record (cfg, wl)
      | RL_Half cfg \<Rightarrow> cfg = fst (last (sy_published w)) \<and> 2 \<le> length (sy_published w))"

text \<open>The requests under way.\<close>

definition tasks_inv :: "('net, 'n, 'le) system \<Rightarrow> bool" where
  "tasks_inv w \<longleftrightarrow>
     (\<forall>t req ph. sy_tasks w t = Some (req, ph) \<longrightarrow> phase_ok (sy_published w) (config_now w) ph)"

text \<open>The answers given: each is the handler's, at a coherent view and with the first evaluator.\<close>

definition answers_inv ::
  "('net, 'pe, 'x, 'm, 'c, 's, 'd, 'n, 'le, 'te, 've, 'rec) daemon_env \<Rightarrow>
     ('n, 'le) lookup spf_evaluator \<Rightarrow> ('net, 'n, 'le) system \<Rightarrow> bool"
where
  "answers_inv E ev w \<longleftrightarrow>
     (\<forall>vw req act. (vw, req, act) \<in> set (sy_answers w) \<longrightarrow> view_ok (sy_published w) vw \<and>
        (\<exists>clk slog slog'. handle_request_at (de_ipnet E) (de_viaspf E) (de_crypto E) clk vw ev req slog =
           Some (act, slog')))"

definition system_inv ::
  "('net, 'pe, 'x, 'm, 'c, 's, 'd, 'n, 'le, 'te, 've, 'rec) daemon_env \<Rightarrow>
     ('n, 'le) lookup spf_evaluator \<Rightarrow> ('net, 'n, 'le) system \<Rightarrow> bool"
where
  "system_inv E ev w \<longleftrightarrow>
     cells_inv (de_ipnet E) (de_parse_record E) ev w \<and> tasks_inv w \<and> answers_inv E ev w"

lemma config_now_less: "cells_inv N pr ev w \<Longrightarrow> config_now w < length (sy_published w)"
  by (cases "sy_reload w") (auto simp: cells_inv_def config_now_def)

lemma config_now_last: "cells_inv N pr ev w \<Longrightarrow> length (sy_published w) - 1 \<le> Suc (config_now w)"
  by (cases "sy_reload w") (auto simp: cells_inv_def config_now_def)

lemma cells_step:
  assumes "cells_inv (de_ipnet E) (de_parse_record E) ev w" and "step E w w'"
  shows "cells_inv (de_ipnet E) (de_parse_record E) ev w'"
  using assms(2,1)
proof cases
  case (sighup_loaded fs cfg wl)
  then show ?thesis using assms(1) reload_load_ok [OF sighup_loaded(3)]
    by (simp add: cells_inv_def config_now_def)
next
  case (whitelist_stored cfg wl)
  then show ?thesis using assms(1)
    by (simp add: cells_inv_def config_now_def store_whitelist_def nth_append Suc_le_eq)
next
  case (config_stored cfg)
  then show ?thesis using assms(1)
    by (simp add: cells_inv_def config_now_def store_config_def last_conv_nth)
qed (simp_all add: cells_inv_def config_now_def split: reload_phase.splits)

text \<open>Nothing that was published is lost, and the configuration in place only advances.\<close>

lemma published_step:
  assumes "cells_inv (de_ipnet E) (de_parse_record E) ev w" and "step E w w'"
  shows "(\<exists>Q. sy_published w' = sy_published w @ Q) \<and> config_now w \<le> config_now w'"
  using assms(2,1)
  by cases (simp_all add: cells_inv_def config_now_def)

lemma phase_ok_step:
  assumes "cells_inv (de_ipnet E) (de_parse_record E) ev w" and "step E w w'"
    and "phase_ok (sy_published w) (config_now w) ph"
  shows "phase_ok (sy_published w') (config_now w') ph"
  using published_step [OF assms(1,2)] phase_ok_mono [OF assms(3) config_now_less [OF assms(1)]]
  by auto

text \<open>A step changes at most one task, to a phase that agrees with the cells it loaded from.\<close>

lemma task_loaded:
  assumes "cells_inv N pr ev w"
  shows "phase_ok (sy_published w) (config_now w) (RQ_Skip_Config (st_config (sy_state w)))"
    and "phase_ok (sy_published w) (config_now w) (RQ_Skip_Config c) \<Longrightarrow>
         phase_ok (sy_published w) (config_now w) (RQ_Whitelist c (st_whitelist (sy_state w)))"
    and "phase_ok (sy_published w) (config_now w) (RQ_Whitelist c wl) \<Longrightarrow>
         phase_ok (sy_published w) (config_now w) (RQ_View
           \<lparr>skip_config_seen = c, whitelist_seen = wl, config_seen = st_config (sy_state w)\<rparr>)"
proof -
  let ?P = "sy_published w" and ?n = "config_now w" and ?m = "length (sy_published w) - 1"
  have P: "?P \<noteq> []" and cfg: "st_config (sy_state w) = fst (?P ! ?n)"
    and wl: "st_whitelist (sy_state w) = snd (?P ! ?m)"
    using assms by (simp_all add: cells_inv_def last_conv_nth)
  have n: "?n < length ?P" "?n \<le> ?m" "?m \<le> Suc ?n" "?m < length ?P"
    using config_now_less [OF assms] config_now_last [OF assms] P by auto
  show "phase_ok ?P ?n (RQ_Skip_Config (st_config (sy_state w)))"
    using cfg by auto
  show "phase_ok ?P ?n (RQ_Whitelist c (st_whitelist (sy_state w)))"
    if skip: "phase_ok ?P ?n (RQ_Skip_Config c)"
  proof -
    obtain i where "i \<le> ?n" "c = fst (?P ! i)" using skip by auto
    with n show ?thesis
      unfolding phase_ok.simps wl by (intro exI [of _ i] exI [of _ ?m] conjI) simp_all
  qed
  show "phase_ok ?P ?n (RQ_Whitelist c wl) \<Longrightarrow> phase_ok ?P ?n (RQ_View
      \<lparr>skip_config_seen = c, whitelist_seen = wl, config_seen = st_config (sy_state w)\<rparr>)"
    unfolding phase_ok.simps cfg view_ok_def view_at_def using n by fastforce
qed

lemma tasks_invD:
  "tasks_inv w \<Longrightarrow> sy_tasks w t = Some (req, ph) \<Longrightarrow> phase_ok (sy_published w) (config_now w) ph"
  unfolding tasks_inv_def by blast

lemma task_step:
  assumes "step E w w'" and inv: "cells_inv N pr ev w" "tasks_inv w"
  obtains (kept) "\<And>t req ph. sy_tasks w' t = Some (req, ph) \<Longrightarrow> sy_tasks w t = Some (req, ph)"
  | (moved) t req ph where "sy_tasks w' = (sy_tasks w)(t \<mapsto> (req, ph))"
      "phase_ok (sy_published w) (config_now w) ph"
  using assms(1)
proof cases
  case (skip_config_loaded t req)
  then show thesis by (intro moved [of t req]) (simp, rule task_loaded(1) [OF inv(1)])
next
  case (whitelist_loaded t req c)
  then show thesis
    by (intro moved [of t req]) (simp, rule task_loaded(2) [OF inv(1)], erule tasks_invD [OF inv(2)])
next
  case (config_loaded t req c wl)
  then show thesis
    by (intro moved [of t req]) (simp, rule task_loaded(3) [OF inv(1)], erule tasks_invD [OF inv(2)])
next
  case (arrive t req)
  then show thesis by (intro moved [of t req RQ_Start]) simp_all
qed (auto intro!: kept split: if_splits)

lemma tasks_step:
  assumes "cells_inv (de_ipnet E) (de_parse_record E) ev w" and "tasks_inv w" and "step E w w'"
  shows "tasks_inv w'"
  using assms(3,1,2)
proof (cases rule: task_step)
  case kept
  then show ?thesis
    using tasks_invD [OF assms(2)] phase_ok_step [OF assms(1,3)] unfolding tasks_inv_def by blast
next
  case (moved t req ph)
  have "(req', ph') = (req, ph) \<or> sy_tasks w t' = Some (req', ph')"
    if "sy_tasks w' t' = Some (req', ph')" for t' req' ph'
    using that moved(1) by (auto split: if_splits)
  then show ?thesis
    using moved(2) tasks_invD [OF assms(2)] phase_ok_step [OF assms(1,3)] unfolding tasks_inv_def by blast
qed

lemma answers_step:
  assumes "system_inv E ev w" and "step E w w'"
  shows "answers_inv E ev w'"
proof -
  obtain Q where Q: "sy_published w' = sy_published w @ Q"
    using published_step [of E ev w w'] assms by (auto simp: system_inv_def)
  have old: "view_ok (sy_published w') vw \<and>
      (\<exists>clk slog slog'. handle_request_at (de_ipnet E) (de_viaspf E) (de_crypto E) clk vw ev req slog =
         Some (act, slog'))" if "(vw, req, act) \<in> set (sy_answers w)" for vw req act
    using that assms(1) by (auto simp: system_inv_def answers_inv_def Q intro: view_ok_append)
  from assms(2) show ?thesis
  proof cases
    case (answered t req vw clk act slog)
    then have "view_ok (sy_published w) vw" and "st_evaluator (sy_state w) = ev"
      using assms(1) tasks_invD [of w t req "RQ_View vw"]
      by (simp_all add: system_inv_def cells_inv_def)
    with answered have "view_ok (sy_published w') vw \<and> (\<exists>clk slog slog'.
        handle_request_at (de_ipnet E) (de_viaspf E) (de_crypto E) clk vw ev req slog = Some (act, slog'))"
      by auto
    moreover have "sy_answers w' = sy_answers w @ [(vw, req, act)]" using answered by simp
    ultimately show ?thesis using old by (auto simp: answers_inv_def)
  qed (use old in \<open>simp_all add: answers_inv_def\<close>)
qed

lemma system_start_inv:
  assumes "pair_ok (de_ipnet E) (de_parse_record E) (st_config st, st_whitelist st)"
  shows "system_inv E (st_evaluator st) (system_start st slog)"
  using assms
  by (simp add: system_inv_def cells_inv_def tasks_inv_def answers_inv_def system_start_def config_now_def)

interpretation daemon: transition_system "step E"
  "\<lambda>w. \<exists>st slog. pair_ok (de_ipnet E) (de_parse_record E) (st_config st, st_whitelist st) \<and>
          st_evaluator st = ev \<and> w = system_start st slog"
  "system_inv E ev"
  for E :: "('net, 'pe, 'x, 'm, 'c, 's, 'd, 'n, 'le, 'te, 've, 'rec) daemon_env"
    and ev :: "('n, 'le) lookup spf_evaluator"
proof (unfold_locales, goal_cases)
  case (1 w)
  then show ?case using system_start_inv by blast
next
  case (2 w w')
  then show ?case
    using cells_step tasks_step answers_step by (simp add: system_inv_def) blast
qed

text \<open>The state that start-up builds is a start of the system.\<close>

lemma app_state_new_pair:
  assumes "app_state_new N NO fs system_resolver cfg = Ok st" and "config_valid parse_record cfg"
  shows "pair_ok N parse_record (st_config st, st_whitelist st)"
  using assms
  by (auto simp: app_state_new_def Let_def and_then_Ok_iff pair_ok_def
      intro: whitelist_load_normal whitelist_load_extends)

lemma system_inv_reachable:
  assumes "app_state_new (de_ipnet E) NO fs system_resolver cfg = Ok st"
    and "config_load fs (de_from_toml E) (de_parse_record E) path = Ok cfg"
    and "reachable E (system_start st slog) w"
  shows "system_inv E (st_evaluator st) w"
proof (rule daemon.inv_reachable)
  show "(step E)\<^sup>*\<^sup>* (system_start st slog) w" using assms(3) by (simp add: reachable_def)
  show "\<exists>st' slog'. pair_ok (de_ipnet E) (de_parse_record E) (st_config st', st_whitelist st') \<and>
      st_evaluator st' = st_evaluator st \<and> system_start st slog = system_start st' slog'"
    using app_state_new_pair [OF assms(1)] file_config.load_valid [OF assms(2)] by blast
qed

section \<open>The log of the answers\<close>

text \<open>The line that an answer writes, and the requests whose answer writes one.\<close>

definition answer_line ::
  "('net, 'pe, 'x, 'm, 'c, 's, 'd, 'n, 'le, 'te, 've, 'rec) daemon_env \<Rightarrow>
     ('n, 'le) lookup spf_evaluator \<Rightarrow> 'net view \<times> policy_request \<times> action \<Rightarrow> string \<Rightarrow> bool"
where
  "answer_line E ev a line \<longleftrightarrow>
     (case a of (vw, req, act) \<Rightarrow> \<exists>clk slog.
        handle_request_at (de_ipnet E) (de_viaspf E) (de_crypto E) clk vw ev req slog =
          Some (act, slog\<lparr>syslog_calls := syslog_calls slog @ [Syslog_Mail_Info line]\<rparr>))"

definition was_evaluated :: "('net, 'pe) ipnet \<Rightarrow> 'net view \<times> policy_request \<times> action \<Rightarrow> bool" where
  "was_evaluated N a \<longleftrightarrow>
     (case a of (vw, req, act) \<Rightarrow> \<exists>helo raw ip. evaluated N vw req helo raw ip)"

definition log_inv ::
  "('net, 'pe, 'x, 'm, 'c, 's, 'd, 'n, 'le, 'te, 've, 'rec) daemon_env \<Rightarrow>
     ('n, 'le) lookup spf_evaluator \<Rightarrow> syslog \<Rightarrow> ('net, 'n, 'le) system \<Rightarrow> bool"
where
  "log_inv E ev slog w \<longleftrightarrow>
     (\<exists>ls. syslog_calls (sy_syslog w) = syslog_calls slog @ map Syslog_Mail_Info ls \<and>
        list_all2 (answer_line E ev) (filter (was_evaluated (de_ipnet E)) (sy_answers w)) ls)"

lemma log_inv_same:
  "log_inv E ev slog w \<Longrightarrow> sy_syslog w' = sy_syslog w \<Longrightarrow> sy_answers w' = sy_answers w \<Longrightarrow>
   log_inv E ev slog w'"
  by (simp add: log_inv_def)

lemma log_step:
  assumes "system_inv E ev w" and "step E w w'" and inv: "log_inv E ev slog w"
  shows "log_inv E ev slog w'"
  using assms(2)
proof cases
  case (answered t req vw clk act slog')
  have "st_evaluator (sy_state w) = ev" using assms(1) by (simp add: system_inv_def cells_inv_def)
  with answered(3) have act: "handle_request_at (de_ipnet E) (de_viaspf E) (de_crypto E) clk vw ev req
      (sy_syslog w) = Some (act, slog')" by simp
  obtain ls where ls: "syslog_calls (sy_syslog w) = syslog_calls slog @ map Syslog_Mail_Info ls"
      "list_all2 (answer_line E ev) (filter (was_evaluated (de_ipnet E)) (sy_answers w)) ls"
    using inv by (auto simp: log_inv_def)
  from act show ?thesis
  proof (cases rule: handle_log)
    case same
    then have "\<not> was_evaluated (de_ipnet E) (vw, req, act)" by (simp add: was_evaluated_def)
    with ls same(1) show ?thesis unfolding answered(1) log_inv_def by auto
  next
    case (line helo raw ip msg)
    then have "was_evaluated (de_ipnet E) (vw, req, act)" by (auto simp: was_evaluated_def)
    moreover have "answer_line E ev (vw, req, act) (sanitize msg)"
      using act line(2) by (auto simp: answer_line_def)
    ultimately show ?thesis
      using ls line(2) unfolding answered(1) log_inv_def
      by (intro exI [of _ "ls @ [sanitize msg]"]) (simp add: list_all2_appendI)
  qed
qed (rule log_inv_same [OF inv]; simp)+

interpretation logging: transition_system "step E"
  "\<lambda>w. \<exists>st. pair_ok (de_ipnet E) (de_parse_record E) (st_config st, st_whitelist st) \<and>
          st_evaluator st = ev \<and> w = system_start st slog"
  "\<lambda>w. system_inv E ev w \<and> log_inv E ev slog w"
  for E :: "('net, 'pe, 'x, 'm, 'c, 's, 'd, 'n, 'le, 'te, 've, 'rec) daemon_env"
    and ev :: "('n, 'le) lookup spf_evaluator" and slog :: syslog
proof (unfold_locales, goal_cases)
  case (1 w)
  then show ?case
    using system_start_inv by (fastforce simp: log_inv_def system_start_def)
next
  case (2 w w')
  then show ?case using log_step daemon.inv_step by blast
qed

lemma log_inv_reachable:
  assumes "app_state_new (de_ipnet E) NO fs system_resolver cfg = Ok st"
    and "config_load fs (de_from_toml E) (de_parse_record E) path = Ok cfg"
    and "reachable E (system_start st slog) w"
  shows "log_inv E (st_evaluator st) slog w"
proof -
  have "\<exists>st'. pair_ok (de_ipnet E) (de_parse_record E) (st_config st', st_whitelist st') \<and>
      st_evaluator st' = st_evaluator st \<and> system_start st slog = system_start st' slog"
    using app_state_new_pair [OF assms(1) file_config.load_valid [OF assms(2)]] by blast
  from logging.inv_reachable [OF this assms(3) [unfolded reachable_def]] show ?thesis by simp
qed

end
