(* ===== verification/Sample_Deployment.thy ===== *)
theory Sample_Deployment
  imports Daemon
begin

text \<open>
  A concrete deployment, for evaluating the model: small functions in the places of the crates,
  the file system and the clock. Nothing in the model depends on it; the examples that accompany
  the theorems are computed with it.
\<close>

text \<open>A network is one address.\<close>

definition sample_ipnet :: "(ip_addr, unit) ipnet" where
  "sample_ipnet =
     \<lparr>net_contains = (=),
      net_from_str = (\<lambda>s. case parse_ip_addr s of None \<Rightarrow> Err () | Some ip \<Rightarrow> Ok ip)\<rparr>"

definition sample_names :: "string name_ops" where
  "sample_names = \<lparr>name_to_string = (\<lambda>n. n), name_new = Some\<rparr>"

definition sample_lookup_errors :: "string lookup_errors" where
  "sample_lookup_errors =
     \<lparr>err_timeout = ''timeout'', err_no_records = ''no records'', err_dns_none = ''dns''\<rparr>"

text \<open>DNS: one domain that allows nobody and one that allows everybody.\<close>

definition sample_dns :: "(string, string) lookup" where
  "sample_dns = mock_impl sample_names sample_lookup_errors
     (with_txt (with_txt mock_new ''a.example'' [''v=spf1 -all'']) ''b.example'' [''v=spf1 +all''])"

fun sample_show_result :: "string spf_result \<Rightarrow> string" where
  "sample_show_result Spf_None = ''none''"
| "sample_show_result Spf_Neutral = ''neutral''"
| "sample_show_result Spf_Pass = ''pass''"
| "sample_show_result (Spf_Fail _) = ''fail''"
| "sample_show_result Spf_Softfail = ''softfail''"
| "sample_show_result Spf_Temperror = ''temperror''"
| "sample_show_result Spf_Permerror = ''permerror''"

definition sample_query ::
  "(string, string) lookup \<Rightarrow> viaspf_config \<Rightarrow> ip_addr \<Rightarrow> string \<Rightarrow> string option \<Rightarrow>
     (string, string, string) query_result"
where
  "sample_query lk cfg ip domain helo_domain =
     \<lparr>q_spf_result =
        (case lookup_txt lk domain of
           Inl _ \<Rightarrow> Spf_None
         | Inr records \<Rightarrow> if records = [''v=spf1 -all''] then Spf_Fail [] else Spf_Pass),
      q_cause = None\<rparr>"

definition sample_domain :: "string \<Rightarrow> string option" where
  "sample_domain s = (if s = [] then None else Some s)"

definition sample_viaspf ::
  "(string, string, string, string, string, (string, string) lookup) viaspf"
where
  "sample_viaspf =
     \<lparr>show_result = sample_show_result, show_mechanism = (\<lambda>_. ''all''),
      show_error_cause = (\<lambda>_. ''error''),
      sender_from_domain = sample_domain,
      sender_from_address = (\<lambda>a. map_option snd (rsplit_once (CHR ''@'') a)),
      sender_domain = (\<lambda>s. s), domain_name_new = sample_domain,
      evaluate_sender = sample_query\<rparr>"

definition sample_crypto :: crypto where
  "sample_crypto = \<lparr>hmac_sha1 = (\<lambda>key msg. Some (key @ msg)), base64_encode = (\<lambda>s. s)\<rparr>"

definition sample_config :: "ip_addr config" where
  "sample_config = minimal_config \<lparr>listen = [Unix ''/run/rspfd''], test_only = False\<rparr>"

text \<open>A second configuration, which also exempts a domain; both are written in one letter.\<close>

definition sample_config_b :: "ip_addr config" where
  "sample_config_b = sample_config\<lparr>whitelist_cfg := (whitelist_cfg sample_config)
     \<lparr>cfg_domains := [''A.example'']\<rparr>\<rparr>"

definition sample_from_toml :: "string \<Rightarrow> (string, ip_addr config) res" where
  "sample_from_toml raw =
     (if raw = ''a'' then Ok sample_config else if raw = ''b'' then Ok sample_config_b
      else Err ''syntax'')"

definition sample_parse_record :: "string \<Rightarrow> (string, string) res" where
  "sample_parse_record r = (if prefix ''v=spf1'' r then Ok r else Err r)"

text \<open>The file system in which every file has the given content.\<close>

definition sample_files :: "string \<Rightarrow> file_system" where
  "sample_files content = (\<lambda>_. Ok content)"

definition sample_state :: "(ip_addr, string, string) app_state" where
  "sample_state =
     \<lparr>st_config = sample_config, st_whitelist = whitelist_of_config (whitelist_cfg sample_config),
      st_evaluator = evaluator_new
        (override_impl sample_names (override_new sample_dns (map_of (overrides sample_config))))
        (spf_cfg sample_config)\<rparr>"

definition sample_env ::
  "(ip_addr, unit, string, string, string, string, string, string, string, string, string, string) daemon_env"
where
  "sample_env =
     \<lparr>de_ipnet = sample_ipnet, de_viaspf = sample_viaspf, de_crypto = sample_crypto,
      de_from_toml = sample_from_toml, de_parse_record = sample_parse_record,
      de_path = ''/etc/rspf/rspf.toml''\<rparr>"

definition sample_syslog :: syslog where
  "sample_syslog = \<lparr>init_done = True, syslog_calls = []\<rparr>"

definition sample_request :: policy_request where
  "sample_request = default_request
     \<lparr>helo_name := Some ''b.example'', sender := Some ''u@a.example'', recipient := Some ''r@c.example'',
      client_address := Some ''192.0.2.1''\<rparr>"

definition sample_ip :: ip_addr where
  "sample_ip = V4 (Ipv4Addr 192 0 2 1)"

definition sample_context :: decision_context where
  "sample_context =
     \<lparr>ctx_ip = sample_ip, ctx_sender = ''u@a.example'', ctx_helo = ''b.example'',
      ctx_recipient = ''r@c.example''\<rparr>"

text \<open>The same request as lines of the protocol.\<close>

definition sample_lines :: "string list" where
  "sample_lines =
     [''helo_name=b.example'', ''sender=u@a.example'', ''recipient=r@c.example'',
      ''client_address=192.0.2.1'']"

section \<open>What it computes\<close>

lemmas sample_defs =
  sample_ipnet_def sample_names_def sample_lookup_errors_def sample_query_def sample_domain_def
  sample_viaspf_def sample_crypto_def sample_from_toml_def sample_parse_record_def
  sample_files_def sample_syslog_def

lemma sample_single_line: "config_single_line sample_config" "display_single_line sample_viaspf"
proof -
  show "config_single_line sample_config"
    by (simp add: config_single_line_def sample_config_def message_list_def config_defaults message_defaults)
  have "LF \<notin> set (sample_show_result r)" for r by (cases r) simp_all
  then show "display_single_line sample_viaspf"
    by (simp add: display_single_line_def sample_viaspf_def)
qed

lemma sample_load:
  "config_load (sample_files ''a'') sample_from_toml sample_parse_record path = Ok sample_config"
  "config_load (sample_files ''b'') sample_from_toml sample_parse_record path = Ok sample_config_b"
  by code_simp+

lemma sample_reload:
  "reload_load sample_ipnet (sample_files ''b'') sample_from_toml sample_parse_record path =
     Ok (sample_config_b, whitelist_of_config (whitelist_cfg sample_config_b))"
  by (simp add: reload_load_def load_config_def sample_load whitelist_load_def sample_config_b_def
      sample_config_def config_defaults)

lemma sample_start:
  "app_state_new sample_ipnet sample_names fs (Ok sample_dns :: (string, _) res) sample_config =
     Ok sample_state"
  by (simp add: app_state_new_def from_system_conf_def Let_def whitelist_load_def sample_state_def
      sample_config_def config_defaults)

lemma sample_from_lines: "from_lines sample_lines = Ok sample_request"
  by (simp add: from_lines_def sample_lines_def parse_line_def set_attribute_def sample_request_def
      default_request_def)

lemma sample_lines_ok:
  "sample_lines \<noteq> []" "list_all line_ok sample_lines" "map from_utf8_lossy sample_lines = sample_lines"
proof -
  have "list_all (list_all is_ascii) sample_lines" by code_simp
  then show "map from_utf8_lossy sample_lines = sample_lines"
    by (intro map_idI from_utf8_lossy_ascii) (auto simp: list_all_iff)
qed code_simp+

lemma sample_decode: "decode (wire_block sample_lines @ rest) = (Ok (Some sample_request), rest)"
  by (simp add: decode_wire_block sample_lines_ok sample_from_lines)

lemma sample_drain: "drain (wire_block sample_lines) = ([sample_request], None, [])"
  using drain_wire_blocks [of "[sample_lines]" "[sample_request]"]
  by (simp add: sample_lines_ok sample_from_lines)

end
