(* ===== verification/Proto_Properties.thy ===== *)
theory Proto_Properties
  imports Sample_Deployment
begin

text \<open>
  Properties of the protocol component: requests cut out of a byte stream, their attributes, and
  responses on the wire. Each is followed, where it has hypotheses, by an example that applies it.
\<close>

section \<open>Requests\<close>

text \<open>
  C8: The requests decoded from a connection do not depend on how the network cut the bytes into
  reads, and neither does the decoding error, if there is one.
\<close>

theorem decode_all_chunks:
  "decode_all chunks = decode_all [concat chunks]"
proof -
  have "feed [] [concat chunks] = drain (concat chunks)"
    by (simp split: prod.split option.split)
  with feed_drain [of chunks] show ?thesis
    by (cases "feed [] chunks"; cases "drain (concat chunks)")
       (auto simp: decode_all_def split: option.split)
qed

text \<open>
  C22: A stream of request blocks, each a sequence of non-empty lines and an empty line, is decoded
  to exactly those requests, in order, however it is cut into reads; every line is taken as UTF-8
  with replacement of invalid bytes.
\<close>

theorem decode_all_blocks:
  assumes "list_all2 (\<lambda>ls req. list_all line_ok ls \<and> from_lines (map from_utf8_lossy ls) = Ok req) bs reqs"
    and "concat chunks = concat (map wire_block bs)"
  shows "decode_all chunks = Some reqs"
proof -
  have "fst (feed [] chunks) = reqs" "fst (snd (feed [] chunks)) = None"
    using feed_drain [of chunks] drain_wire_blocks [OF assms(1)] assms(2) by simp_all
  then show ?thesis by (cases "feed [] chunks") (simp add: decode_all_def)
qed

lemma decode_all_blocks_example:
  "decode_all [take 7 (wire_block sample_lines), drop 7 (wire_block sample_lines)] = Some [sample_request]"
proof (rule decode_all_blocks [where bs = "[sample_lines]"])
  show "list_all2 (\<lambda>ls req. list_all line_ok ls \<and> from_lines (map from_utf8_lossy ls) = Ok req)
      [sample_lines] [sample_request]"
    by (simp add: sample_lines_ok sample_from_lines)
qed (simp only: concat.simps list.map append_Nil2 append_take_drop_id)

text \<open>
  C9: Parsing a block of lines: it fails on an empty block; it fails on the first line without an
  equals sign, and names it; and otherwise every attribute has the value of its last line, whether
  the request keeps it in a field of its own or among the others.
\<close>

theorem from_lines_outcome:
  "case from_lines ls of
     Inl e \<Rightarrow> (if ls = [] then e = EmptyRequest
               else \<exists>l. List.find (\<lambda>l. CHR ''='' \<notin> set l) ls = Some l \<and> e = MalformedLine l)
   | Inr req \<Rightarrow> ls \<noteq> [] \<and> List.find (\<lambda>l. CHR ''='' \<notin> set l) ls = None \<and>
       attribute req = map_of (rev (attribute_list ls))"
proof (cases "from_lines ls")
  case (Inl e)
  have "\<exists>l. List.find (\<lambda>l. CHR ''='' \<notin> set l) ls = Some l \<and> e = MalformedLine l" if "ls \<noteq> []"
  proof -
    have "try_fold parse_line default_request ls = Err e" using Inl that by (simp add: from_lines_def)
    then obtain ys l zs t where ls: "ls = ys @ l # zs"
      and ys: "try_fold parse_line default_request ys = Ok t" and l: "parse_line t l = Err e"
      unfolding try_fold_Err_iff by blast
    have "List.find (\<lambda>l. CHR ''='' \<notin> set l) ys = None"
      using ys by (auto simp: try_fold_parse_line find_None_iff list_all_iff)
    then show ?thesis
      using l ls by (auto simp: parse_line_Err_iff find_append)
  qed
  with Inl show ?thesis by (auto simp: from_lines_def)
next
  case (Inr req)
  moreover have "ls \<noteq> []" "List.find (\<lambda>l. CHR ''='' \<notin> set l) ls = None"
    using Inr by (simp_all add: from_lines_Ok_iff find_None_iff list_all_iff)
  ultimately show ?thesis using attribute_from_lines [OF Inr] by simp
qed

text \<open>
  C23: Decoding a buffer stops only at an error or where no complete block is left: what stays in
  the buffer has no empty line, and it is the end of the input. A complete block is never kept back.
\<close>

theorem drain_leftover:
  "case drain b of
     (reqs, None, rest) \<Rightarrow> find_double_newline rest = None \<and> suffix rest b
   | (reqs, Some e, rest) \<Rightarrow> suffix rest b \<and> length rest < length b"
proof (induction b rule: drain.induct)
  case (1 b)
  have suf: "suffix (snd (decode b)) b"
    by (auto simp: decode_def Let_def suffix_drop suffix_order.trans [OF suffix_drop suffix_drop]
        simp del: drop_drop split: option.split)
  obtain r b1 where d: "decode b = (r, b1)" by (cases "decode b")
  consider (err) e where "r = Err e" | (wait) "r = Ok None" | (req) q where "r = Ok (Some q)"
    by (cases r) auto
  then show ?case
  proof cases
    case err
    then obtain i where "find_double_newline b = Some i" using d by (auto elim: decode_found)
    with err d suf decode_progress [of b i] show ?thesis by (simp add: drain.simps [of b])
  next
    case wait
    with d have "find_double_newline b = None \<and> b1 = b" by (simp add: decode_None_iff)
    with wait d show ?thesis by (simp add: drain.simps [of b])
  next
    case req
    with d have dq: "decode b = (Ok (Some q), b1)" by simp
    have b1: "suffix b1 b" "length b1 < length b" using suf d decode_item_progress [OF dq] by simp_all
    obtain reqs e rest where rest: "drain b1 = (reqs, e, rest)" by (cases "drain b1") auto
    have "case drain b1 of
       (reqs, None, rest) \<Rightarrow> find_double_newline rest = None \<and> suffix rest b1
     | (reqs, Some e, rest) \<Rightarrow> suffix rest b1 \<and> length rest < length b1"
      using "1.IH" [OF dq [symmetric] refl refl] .
    with rest b1 dq show ?thesis
      by (auto simp: drain.simps [of b] dest: suffix_order.trans split: option.splits)
  qed
qed

end
