(* ===== verification/Rust_Net_V6.thy ===== *)
theory Rust_Net_V6
  imports Rust_Net
begin

text \<open>
  The parser of \<open>core::net\<close> reads every IPv6 address, and every socket address, back from its
  displayed form: written out in full, with the longest run of zero segments compressed, or with
  the last two segments as an IPv4 address.
\<close>

section \<open>The longest run of zeros\<close>

definition zeros_at :: "u16 list \<Rightarrow> nat \<times> nat \<Rightarrow> bool" where
  "zeros_at ys p \<longleftrightarrow> snd p = 0 \<or> fst p + snd p \<le> length ys \<and> (\<forall>j < snd p. ys ! (fst p + j) = 0)"

lemma zeros_at_append: "zeros_at ys p \<Longrightarrow> zeros_at (ys @ zs) p"
  by (auto simp: zeros_at_def nth_append)

lemma zero_span_zeros:
  assumes "zeros_at ys longest" and "zeros_at ys current"
    and "snd current \<noteq> 0 \<Longrightarrow> fst current + snd current = length ys"
  shows "zeros_at (ys @ xs) (zero_span (length ys) longest current xs)"
  using assms
proof (induction xs arbitrary: ys longest current)
  case Nil
  then show ?case by simp
next
  case (Cons x xs)
  show ?case
  proof (cases "x = 0")
    case True
    let ?cur = "(if snd current = 0 then length ys else fst current, Suc (snd current))"
    have cur: "zeros_at (ys @ [x]) ?cur"
      using Cons.prems True by (auto simp: zeros_at_def nth_append less_Suc_eq)
    then have "zeros_at (ys @ [x]) (if snd longest < snd ?cur then ?cur else longest)"
      using zeros_at_append [OF Cons.prems(1)] by simp
    from Cons.IH [OF this cur] Cons.prems(3) True show ?thesis
      by (simp add: Let_def split: if_splits)
  next
    case False
    have "zeros_at (ys @ [x]) (0, 0)" by (simp add: zeros_at_def)
    from Cons.IH [OF zeros_at_append [OF Cons.prems(1)] this] False show ?thesis by simp
  qed
qed

lemma zero_span_split:
  assumes "zero_span 0 (0, 0) (0, 0) xs = (start, len)" and "1 < len"
  shows "xs = take start xs @ replicate len 0 @ drop (start + len) xs" and "start + len \<le> length xs"
proof -
  have "zeros_at xs (start, len)"
    using zero_span_zeros [of "[]" "(0, 0)" "(0, 0)" xs] assms(1) by (simp add: zeros_at_def)
  with assms(2) have le: "start + len \<le> length xs" and z: "\<And>j. j < len \<Longrightarrow> xs ! (start + j) = 0"
    by (auto simp: zeros_at_def)
  have "take len (drop start xs) = replicate len 0"
    using le z by (intro nth_equalityI) auto
  then have "drop start xs = replicate len 0 @ drop len (drop start xs)"
    by (metis append_take_drop_id)
  then show "xs = take start xs @ replicate len 0 @ drop (start + len) xs"
    by (metis append_take_drop_id drop_drop add.commute)
  show "start + len \<le> length xs" by (rule le)
qed

section \<open>An IPv4 address is not read by mistake\<close>

lemma to_digit_10_16: "to_digit 16 c = None \<Longrightarrow> to_digit 10 c = None"
  by (auto simp: to_digit_def Let_def split: if_splits)

lemma read_digits_prefix:
  "read_digits r mx n v s = Some (n', v', rest) \<Longrightarrow>
   \<exists>pre. s = pre @ rest \<and> list_all (\<lambda>c. to_digit r c \<noteq> None) pre"
proof (induction s arbitrary: n v)
  case (Cons c s)
  show ?case
  proof (cases "to_digit r c")
    case None
    with Cons.prems show ?thesis by simp
  next
    case (Some d)
    with Cons.prems have "read_digits r mx (Suc n) (v * r + d) s = Some (n', v', rest)"
      by (simp split: if_splits)
    from Cons.IH [OF this] obtain pre where "s = pre @ rest" "list_all (\<lambda>c. to_digit r c \<noteq> None) pre" by blast
    with Some show ?thesis by (intro exI [of _ "c # pre"]) simp
  qed
qed simp

lemma read_ipv4_dot:
  assumes "read_ipv4_addr s = Some r"
  obtains pre post where "s = pre @ CHR ''.'' # post" and "list_all (\<lambda>c. to_digit 10 c \<noteq> None) pre"
proof -
  from assms obtain a s1 b s2 where a: "read_number 10 (Some 3) False 256 s = Some (a, s1)"
    and b: "read_octet 1 s1 = Some (b, s2)"
    by (auto simp: read_ipv4_addr_def rbind_def read_octet_def read_separator_def split: option.splits)
  from a obtain pre where "s = pre @ s1" "list_all (\<lambda>c. to_digit 10 c \<noteq> None) pre"
    by (auto simp: read_number_def split: option.splits if_splits dest!: read_digits_prefix)
  moreover from b obtain post where "s1 = CHR ''.'' # post"
    by (cases s1) (auto simp: read_octet_def read_separator_def rbind_def split: option.splits if_splits)
  ultimately show thesis by (intro that) simp_all
qed

lemma read_ipv4_none:
  assumes "CHR ''.'' \<notin> set g" and "t = [] \<or> to_digit 10 (hd t) = None \<and> hd t \<noteq> CHR ''.''"
  shows "read_ipv4_addr (g @ t) = None"
proof (rule ccontr)
  assume "read_ipv4_addr (g @ t) \<noteq> None"
  then obtain r where "read_ipv4_addr (g @ t) = Some r" by blast
  then obtain pre post where eq: "g @ t = pre @ CHR ''.'' # post"
    and digits: "list_all (\<lambda>c. to_digit 10 c \<noteq> None) pre"
    by (rule read_ipv4_dot)
  show False
  proof (cases "length g \<le> length pre")
    case True
    with eq obtain us where "t = us @ CHR ''.'' # post" "pre = g @ us"
      by (auto simp: append_eq_append_conv2)
    with assms(2) digits show False by (cases us) auto
  next
    case False
    with eq obtain us where "g = pre @ us" "us @ t = CHR ''.'' # post" "us \<noteq> []"
      by (auto simp: append_eq_append_conv2)
    then have "CHR ''.'' \<in> set g" by (cases us) auto
    with assms(1) show False ..
  qed
qed

section \<open>Groups\<close>

definition seg :: "u16 \<Rightarrow> string" where
  "seg x = show_radix 16 (unat x)"

text \<open>The groups from index \<open>i\<close> on, each but the very first after a colon.\<close>

fun body :: "nat \<Rightarrow> u16 list \<Rightarrow> string" where
  "body i [] = []"
| "body i (x # xs) = (if 0 < i then '':'' else []) @ seg x @ body (Suc i) xs"

lemma body_Suc: "xs \<noteq> [] \<Longrightarrow> body (Suc i) xs = CHR '':'' # fmt_subslice xs"
proof (induction xs arbitrary: i)
  case (Cons x xs)
  then show ?case by (cases xs) (simp_all add: seg_def)
qed simp

lemma fmt_subslice_body: "fmt_subslice xs = body 0 xs"
proof (cases xs rule: fmt_subslice.cases)
  case (3 x y ys)
  have "body 0 xs = seg x @ body (Suc 0) (y # ys)" by (simp add: 3)
  then show ?thesis unfolding body_Suc [OF list.distinct(2)] by (simp add: 3 seg_def)
qed (simp_all add: seg_def)

definition ends_group :: "string \<Rightarrow> bool" where
  "ends_group t \<longleftrightarrow> t = [] \<or> to_digit 16 (hd t) = None \<and> hd t \<noteq> CHR ''.''"

text \<open>Input at which no further group is read: a second colon may follow the first.\<close>

definition stops :: "string \<Rightarrow> bool" where
  "stops t \<longleftrightarrow> ends_group t \<and> (hd t = CHR '':'' \<longrightarrow> ends_group (tl t))"

lemma colon_no_digit [simp]: "to_digit 16 (CHR '':'') = None"
  by code_simp

lemma ends_group_body: "ends_group t \<Longrightarrow> ends_group (body (Suc i) xs @ t)"
  by (cases xs) (simp_all add: ends_group_def)

lemma seg_no_dot: "CHR ''.'' \<notin> set (seg x)"
proof
  assume "CHR ''.'' \<in> set (seg x)"
  moreover have digits: "to_digit 16 c \<noteq> None" if "c \<in> set (show_radix 16 n)" for c n
    using that
  proof (induction n rule: less_induct)
    case (less n)
    have "c \<in> set (show_radix 16 (n div 16)) \<and> \<not> n < 16 \<or> c = digit_char (n mod 16)"
      using less.prems by (subst (asm) show_radix.simps) (auto split: if_splits)
    with less.IH [of "n div 16"] show ?case by (auto simp: to_digit_char)
  qed
  moreover have "to_digit 16 (CHR ''.'') = None" by code_simp
  ultimately show False using digits [of "CHR ''.''" "unat x"] by (simp add: seg_def)
qed

lemma read_ipv4_seg: "ends_group t \<Longrightarrow> read_ipv4_addr (seg x @ t) = None"
  by (rule read_ipv4_none) (auto simp: seg_no_dot ends_group_def to_digit_10_16)

lemma read_seg: "ends_group t \<Longrightarrow> read_number 16 (Some 4) True 65536 (seg x @ t) = Some (unat x, t)"
proof -
  have "unat x < 65536" using unsigned_less [of x] by simp
  moreover from this have "length (seg x) \<le> 4"
    using length_show_radix [of 16 "unat x" 3] by (simp add: seg_def)
  ultimately show ?thesis if "ends_group t"
    using that unfolding seg_def by (intro read_number_show_radix) (auto simp: ends_group_def ends_number_def seg_def)
qed

lemma read_number_none: "t = [] \<or> to_digit r (hd t) = None \<Longrightarrow> read_number r mx z bound t = None"
  by (cases t) (auto simp: read_number_def)

lemma read_groups_stop: "stops t \<Longrightarrow> read_groups k limit i t = ([], False, t)"
proof (cases k)
  case (Suc m)
  assume t: "stops t"
  have none: "read_number 16 (Some 4) True 65536 u = None" "read_ipv4_addr u = None" if "ends_group u" for u
    using that read_number_none read_ipv4_none [of "[]" u] by (auto simp: ends_group_def to_digit_10_16)
  have "read_separator (CHR '':'') i (read_number 16 (Some 4) True 65536) t = None"
    and "read_separator (CHR '':'') i read_ipv4_addr t = None"
    using t none by (cases t; auto simp: read_separator_def rbind_def stops_def)+
  then show ?thesis by (simp add: Suc)
qed simp

lemma read_groups_body:
  assumes "ends_group t"
  shows "read_groups (length xs + m) limit i (body i xs @ t) =
    (case read_groups m limit (i + length xs) t of (gs, v4, r) \<Rightarrow> (xs @ gs, v4, r))"
proof (induction xs arbitrary: i)
  case Nil
  then show ?case by (simp split: prod.split)
next
  case (Cons x xs)
  let ?u = "body (Suc i) xs @ t"
  have "ends_group ?u" by (rule ends_group_body [OF assms])
  then have "read_separator (CHR '':'') i (read_number 16 (Some 4) True 65536) (body i (x # xs) @ t) = Some (unat x, ?u)"
    and "read_separator (CHR '':'') i read_ipv4_addr (body i (x # xs) @ t) = None"
    by (cases i; simp add: read_separator_def rbind_def read_seg read_ipv4_seg)+
  then show ?case using Cons [of "Suc i"] by (simp del: body.simps split: prod.splits)
qed

lemma read_groups_all:
  assumes "stops t" and "length xs \<le> k"
  shows "read_groups k limit 0 (fmt_subslice xs @ t) = (xs, False, t)"
  using read_groups_body [of t xs "k - length xs" limit 0] read_groups_stop [OF assms(1)] assms
  by (simp add: fmt_subslice_body stops_def)

section \<open>Addresses\<close>

lemma u16_be_bytes:
  "u16_from_be_bytes (of_nat (unat x div 256)) (of_nat (unat x mod 256)) = x"
proof -
  have "unat x < 65536" using unsigned_less [of x] by simp
  then have "unat (of_nat (unat x div 256) :: u8) = unat x div 256"
    and "unat (of_nat (unat x mod 256) :: u8) = unat x mod 256"
    by (simp_all add: unat_of_nat less_mult_imp_div_less)
  then show ?thesis by (simp add: u16_from_be_bytes_def)
qed

lemma read_ipv6_addr_show:
  assumes "stops t" and "t = [] \<or> hd t \<noteq> CHR '':''"
  shows "read_ipv6_addr (show_ipv6 a @ t) = Some (a, t)"
proof (cases "ipv4_mapped a")
  case None
  obtain start len where span: "zero_span 0 (0, 0) (0, 0) (segments a) = (start, len)" by fastforce
  show ?thesis
  proof (cases "1 < len")
    case False
    with None span have "show_ipv6 a = fmt_subslice (segments a)" by (simp add: show_ipv6_def)
    then show ?thesis
      using read_groups_all [OF assms(1), of "segments a" 8 8] by (simp add: read_ipv6_addr_def)
  next
    case True
    let ?h = "take start (segments a)" and ?t = "drop (start + len) (segments a)"
    from zero_span_split [OF span True]
    have split: "segments a = ?h @ replicate len 0 @ ?t" and le: "start + len \<le> 8" by simp_all
    have colons: "stops (''::'' @ fmt_subslice ?t @ t)" by (simp add: stops_def ends_group_def)
    have "show_ipv6 a @ t = fmt_subslice ?h @ ''::'' @ fmt_subslice ?t @ t"
      using None span True by (simp add: show_ipv6_def)
    moreover have "read_groups 8 8 0 (fmt_subslice ?h @ ''::'' @ fmt_subslice ?t @ t) =
        (?h, False, ''::'' @ fmt_subslice ?t @ t)"
      by (rule read_groups_all [OF colons]) simp
    moreover have "read_groups (7 - start) (7 - start) 0 (fmt_subslice ?t @ t) = (?t, False, t)"
      using True le by (intro read_groups_all [OF assms(1)]) simp
    moreover have "length ?h = start" and "8 - start - length ?t = len" using le by simp_all
    moreover have "ipv6_of_segments (?h @ replicate len 0 @ ?t) = a"
      using split ipv6_of_segments_inverse [of a] by simp
    ultimately show ?thesis
      using True le by (simp add: read_ipv6_addr_def rbind_def Let_def)
  qed
next
  case (Some v4)
  obtain s0 s1 s2 s3 s4 s5 s6 s7 where a: "a = Ipv6Addr s0 s1 s2 s3 s4 s5 s6 s7" by (cases a)
  with Some have z: "s0 = 0" "s1 = 0" "s2 = 0" "s3 = 0" "s4 = 0" "s5 = 65535"
    and v4: "v4 = Ipv4Addr (of_nat (unat s6 div 256)) (of_nat (unat s6 mod 256))
              (of_nat (unat s7 div 256)) (of_nat (unat s7 mod 256))"
    by (auto simp: ipv4_mapped_def split: if_splits)
  let ?u = "show_ipv4 v4 @ t"
  have ffff: "seg 65535 = ''ffff''" by code_simp
  have "stops (''::ffff:'' @ ?u)" by (simp add: stops_def ends_group_def)
  from read_groups_stop [OF this]
  have heads: "read_groups 8 8 0 (''::ffff:'' @ ?u) = ([], False, ''::ffff:'' @ ?u)" .
  have "ends_group (CHR '':'' # ?u)" by (simp add: ends_group_def)
  from read_groups_body [OF this, of "[65535]" 6 7 0]
  have "read_groups 7 7 0 (''ffff:'' @ ?u) = (case read_groups 6 7 1 (CHR '':'' # ?u) of (gs, v, r) \<Rightarrow> (65535 # gs, v, r))"
    by (simp add: ffff)
  also have "read_groups 6 7 1 (CHR '':'' # ?u) = ([s6, s7], True, t)"
  proof -
    have "ends_number 10 t" using assms(1) by (auto simp: stops_def ends_group_def ends_number_def to_digit_10_16)
    from read_ipv4_addr_show [OF this, of v4]
    have "read_separator (CHR '':'') 1 read_ipv4_addr (CHR '':'' # ?u) = Some (v4, t)"
      by (simp add: read_separator_def rbind_def)
    moreover have "(6 :: nat) = Suc 5" by simp
    ultimately show ?thesis by (simp only: read_groups.simps) (simp add: v4 u16_be_bytes)
  qed
  finally have tails: "read_groups 7 7 0 (''ffff:'' @ ?u) = ([65535, s6, s7], True, t)" by simp
  have colons: "rbind (read_given_char (CHR '':'')) (\<lambda>_. read_given_char (CHR '':'')) (''::ffff:'' @ ?u) =
      Some ((), ''ffff:'' @ ?u)"
    by (simp add: rbind_def)
  have zeros: "replicate 5 (0 :: u16) = [0, 0, 0, 0, 0]" by (simp add: numeral_eq_Suc)
  have "show_ipv6 a @ t = ''::ffff:'' @ ?u" using Some by (simp add: show_ipv6_def)
  then show ?thesis
    unfolding read_ipv6_addr_def using heads tails colons by (simp add: Let_def zeros a z)
qed

lemma parse_ip_addr_show: "parse_ip_addr (show_ip a) = Some a"
proof (cases a)
  case (V4 v)
  then show ?thesis using parse_ip_addr_show_ipv4 by simp
next
  case (V6 v)
  have "read_ipv4_addr (show_ipv6 v) = None"
  proof (cases "ipv4_mapped v")
    case (Some w)
    then show ?thesis
      using read_ipv4_none [of "[]" "show_ipv6 v"] by (simp add: show_ipv6_def to_digit_10_16)
  next
    case None
    have "CHR ''.'' \<notin> set (body i xs)" for i xs
      by (induction i xs rule: body.induct) (auto simp: seg_no_dot)
    then have "CHR ''.'' \<notin> set (show_ipv6 v)"
      using None by (auto simp: show_ipv6_def fmt_subslice_body split: prod.splits)
    then show ?thesis using read_ipv4_none [of "show_ipv6 v" "[]"] by simp
  qed
  then show ?thesis
    using read_ipv6_addr_show [of "[]" v] V6
    by (simp add: parse_ip_addr_def parse_with_def read_ip_addr_def stops_def ends_group_def)
qed

section \<open>Socket addresses\<close>

lemma read_port_show: "read_port (CHR '':'' # show_radix 10 (unat (p :: u16))) = Some (unat p, [])"
proof -
  have "unat p < 65536" using unsigned_less [of p] by simp
  then show ?thesis
    using read_number_show_radix [of 10 "unat p" 65536 "[]" None True]
    by (simp add: read_port_def rbind_def ends_number_def)
qed

lemma read_scope_id_show:
  "read_scope_id (CHR ''%'' # show_radix 10 (unat (n :: u32)) @ CHR '']'' # t) = Some (unat n, CHR '']'' # t)"
proof -
  have "unat n < 2 ^ 32" using unsigned_less [of n] by simp
  moreover have "ends_number 10 (CHR '']'' # t)" by (simp add: ends_number_def to_digit_def byte_def)
  ultimately show ?thesis
    using read_number_show_radix [of 10 "unat n" "2 ^ 32" "CHR '']'' # t" None True]
    by (simp add: read_scope_id_def rbind_def)
qed

lemma parse_socket_addr_show: "parse_socket_addr (show_socket_addr a) = Some a"
proof (cases a)
  case (SocketV4 v p)
  then show ?thesis by (simp only: parse_socket_addr_show_v4)
next
  case (SocketV6 v p scope)
  let ?port = "CHR '':'' # show_radix 10 (unat p)"
  have digits: "to_digit 16 (CHR '']'') = None" "to_digit 16 (CHR ''%'') = None" "to_digit 10 (CHR ''['') = None"
    by code_simp+
  have stops: "stops (CHR '']'' # u)" "stops (CHR ''%'' # u)" for u
    by (simp_all add: stops_def ends_group_def digits)
  have "read_ipv4_addr (CHR ''['' # u) = None" for u
    using read_ipv4_none [of "[]" "CHR ''['' # u"] by (simp add: digits)
  then have v4: "read_socket_addr_v4 (CHR ''['' # u) = None" for u
    by (simp add: read_socket_addr_v4_def rbind_def)
  have "read_socket_addr_v6 (show_socket_addr a) = Some (a, [])"
  proof (cases "scope = 0")
    case True
    have "read_scope_id (CHR '']'' # ?port) = None" by (simp add: read_scope_id_def rbind_def)
    then show ?thesis
      using read_ipv6_addr_show [OF stops(1), of ?port v] True SocketV6
      by (simp add: read_socket_addr_v6_def rbind_def read_port_show)
  next
    case False
    then show ?thesis
      using read_ipv6_addr_show [OF stops(2), of "show_radix 10 (unat scope) @ CHR '']'' # ?port" v] SocketV6
      by (simp add: read_socket_addr_v6_def rbind_def read_port_show read_scope_id_show)
  qed
  moreover have "hd (show_socket_addr a) = CHR ''[''" "show_socket_addr a \<noteq> []" using SocketV6 by simp_all
  then obtain u where "show_socket_addr a = CHR ''['' # u" by (cases "show_socket_addr a") auto
  ultimately show ?thesis
    by (simp add: parse_socket_addr_def parse_with_def read_socket_addr_def v4)
qed

end
