(* ===== verification/Policy_Properties.thy ===== *)
theory Policy_Properties
  imports Sample_Deployment Rust_Net_V6
begin

text \<open>
  Properties of the components that a decision is made from: the whitelist, SRS unwrapping, the
  configuration, the DNS overrides and the two identity checks.
\<close>

section \<open>The whitelist\<close>

text \<open>
  C10: A loaded whitelist exempts exactly the clients that its configuration or an entry line of
  one of its files names: by network, by HELO name, or by domain with its subdomains, names being
  compared without regard to letter case.
\<close>

theorem whitelist_exempts_named:
  assumes "whitelist_load N fs cfg = Ok wl"
  shows "matches N wl ip helo mfd rcn \<noteq> None \<longleftrightarrow>
    config_covers N cfg ip helo mfd rcn \<or> list_ex (\<lambda>path. file_covers N fs path ip helo mfd rcn) (cfg_files cfg)"
  unfolding matches_exempt list_ex_iff by (rule exempt_whitelist_load [OF assms])

definition sample_whitelist :: "ip_addr whitelist_config" where
  "sample_whitelist = default_whitelist_config\<lparr>cfg_domains := [''A.example''], cfg_files := [''wl'']\<rparr>"

lemma sample_whitelist_load:
  "whitelist_load sample_ipnet (sample_files ''helo:MX'') sample_whitelist =
     Ok \<lparr>ips = cidr_default, helo_names = {''mx''}, domains = [''a.example''], domains_ptr = []\<rparr>"
  by code_simp

lemma whitelist_exempts_named_example:
  "(matches sample_ipnet \<lparr>ips = cidr_default, helo_names = {''mx''}, domains = [''a.example''], domains_ptr = []\<rparr>
      sample_ip ''mX'' None None \<noteq> None) \<and> file_covers sample_ipnet (sample_files ''helo:MX'') ''wl'' sample_ip ''mX'' None None"
proof -
  have covers: "file_covers sample_ipnet (sample_files ''helo:MX'') ''wl'' sample_ip ''mX'' None None"
  proof -
    have "str_lines ''helo:MX'' = [''helo:MX'']" "trim ''helo:MX'' = ''helo:MX''" "trim ''MX'' = ''MX''"
      "same_name ''mX'' ''MX''" by code_simp+
    then show ?thesis by (simp add: file_covers_def entry_covers_def sample_files_def)
  qed
  then show ?thesis
    using whitelist_exempts_named [OF sample_whitelist_load, of sample_ip "''mX''" None None]
    by (simp add: sample_whitelist_def)
qed

text \<open>
  C29: Loading a whitelist file fails only where the file cannot be read or a line is bad; the error
  names the first bad line, by its number counted from one, and all lines before it were applied.
\<close>

theorem whitelist_first_bad_line:
  assumes "load_file N fs wl path = Err e"
  shows "(\<exists>io. read_to_string fs path = Err io \<and> e = Whitelist_Read path io) \<or>
    (\<exists>raw n wl1. fs path = Ok raw \<and> n < length (str_lines raw) \<and>
       try_fold (load_line N path) wl (enumerate 0 (take n (str_lines raw))) = Ok wl1 \<and>
       entry_error N path (n + 1) (trim (str_lines raw ! n)) e)"
  using load_file_Err [OF assms]
proof (elim disjE exE conjE)
  fix raw ys l zs wl1
  assume "str_lines raw = ys @ l # zs"
  then have "length ys < length (str_lines raw)" "take (length ys) (str_lines raw) = ys"
    "str_lines raw ! length ys = l" by simp_all
  moreover assume "fs path = Ok raw" "try_fold (load_line N path) wl (enumerate 0 ys) = Ok wl1"
    "entry_error N path (Suc (length ys)) (trim l) e"
  ultimately show ?thesis by (intro disjI2 exI [of _ raw] exI [of _ "length ys"] exI [of _ wl1]) simp
qed blast

lemma whitelist_first_bad_line_example:
  "\<exists>n wl1. n < length (str_lines ''host mx'') \<and>
     try_fold (load_line sample_ipnet ''wl'') (whitelist_of_config sample_whitelist)
       (enumerate 0 (take n (str_lines ''host mx''))) = Ok wl1 \<and>
     entry_error sample_ipnet ''wl'' (n + 1) (trim (str_lines ''host mx'' ! n))
       (UnrecognizedEntry ''wl'' 1 ''host mx'')"
proof -
  have "load_file sample_ipnet (sample_files ''host mx'') (whitelist_of_config sample_whitelist) ''wl'' =
    Err (UnrecognizedEntry ''wl'' 1 ''host mx'')" by code_simp
  from whitelist_first_bad_line [OF this] show ?thesis by (auto simp: sample_files_def)
qed

section \<open>SRS\<close>

text \<open>
  C11: A sender is unwrapped exactly where SRS is enabled, the address has the form
  \<open>SRS0=hash=timestamp=domain=local@relay\<close>, the hash is the truncated MAC of timestamp, domain and
  local part under one of the configured secrets, the timestamp decodes, and its age is at most
  the configured maximum; the original sender is then \<open>local@domain\<close> of that address.
\<close>

theorem srs_valid_exactly:
  "try_unwrap clk C raw cfg = Some (Valid orig) \<longleftrightarrow>
     enabled cfg \<and>
     (\<exists>h t d l rw ts age. srs_form raw h t d l rw \<and>
        list_ex (\<lambda>secret. compute_hash C secret t d l = Some h) (secrets cfg) \<and>
        decode_timestamp t = Some ts \<and> age_in_days clk ts = Some age \<and>
        age \<le> max_age_days cfg \<and> orig = l @ ''@'' @ d)"
  unfolding try_unwrap_Valid_iff list_ex_iff ..

text \<open>
  C12: An address that a relay writes today with a configured secret is recognized later: it gives
  back the original sender while the number of days that have passed, modulo the cycle of 1024
  days, is at most the maximum age, and is expired otherwise. The domain has no equals sign and
  neither part has an at sign; the hash has neither, as no base64 text does before its padding.
\<close>

theorem srs_round_trip:
  assumes "enabled cfg" and "secret \<in> set (secrets cfg)"
    and "make_srs_address C secret d domain loc = Some raw"
    and "compute_hash C secret (encode_timestamp d) domain loc = Some hash"
    and "CHR ''='' \<notin> set (hash @ domain)" and "CHR ''@'' \<notin> set (hash @ domain @ loc)"
    and "unat d \<le> unat secs div 86400"
  shows "try_unwrap (Some secs) C raw cfg =
    Some (if (unat secs div 86400 - unat d) mod 1024 \<le> unat (max_age_days cfg)
          then Valid (loc @ ''@'' @ domain) else Expired)"
proof -
  let ?age = "(unat secs div 86400 - unat d) mod 1024"
  have form: "srs_form raw hash (encode_timestamp d) domain loc ''relay.example.net''"
    using assms(3-6) encode_timestamp_plain [of d]
    by (auto simp: make_srs_address_def srs_form_def Let_def)
  have mac: "list_ex (\<lambda>s. compute_hash C s (encode_timestamp d) domain loc = Some hash) (secrets cfg)"
    using assms(2,4) by (auto simp: list_ex_iff)
  have "unat (of_nat ?age :: u32) = ?age"
    by (rule unat_of_nat_u32) (use mod_less_divisor [of 1024 "unat secs div 86400 - unat d"] in simp)
  then have "(of_nat ?age :: u32) > max_age_days cfg \<longleftrightarrow> \<not> ?age \<le> unat (max_age_days cfg)"
    by (simp add: word_less_nat_alt not_le)
  then show ?thesis
    by (simp add: try_unwrap_form [OF assms(1) form] mac decode_encode_timestamp
        age_of_timestamp [OF assms(7)])
qed

definition sample_srs :: srs_config where
  "sample_srs = \<lparr>enabled = True, secrets = [''old'', ''new''], max_age_days = default_srs_max_age_days\<rparr>"

lemma srs_round_trip_example:
  "try_unwrap (Some 1728000000) sample_crypto ''SRS0=newG=GO=b.example=u@relay.example.net'' sample_srs =
     Some (Valid ''u@b.example'')"
proof -
  let ?raw = "''SRS0=newG=GO=b.example=u@relay.example.net''"
  have "try_unwrap (Some 1728000000) sample_crypto ?raw sample_srs =
     Some (if (unat (1728000000 :: u64) div 86400 - unat (19992 :: u64)) mod 1024 \<le> unat (max_age_days sample_srs)
           then Valid (''u'' @ ''@'' @ ''b.example'') else Expired)"
    by (rule srs_round_trip [where secret = "''new''" and d = 19992 and hash = "''newG''"]) code_simp+
  then show ?thesis by (simp add: sample_srs_def default_srs_max_age_days_def)
qed

text \<open>
  C31: A timestamp round trip: the two characters written for a day decode to that day modulo 1024,
  in either letter case; and whatever two characters decode, they decode to a number below 1024,
  so the age is computed without wrap-around.
\<close>

theorem timestamp_round_trip:
  "decode_timestamp (encode_timestamp d) = Some (of_nat (unat d mod 1024)) \<and>
   decode_timestamp (to_ascii_lowercase (encode_timestamp d)) = Some (of_nat (unat d mod 1024)) \<and>
   (case decode_timestamp s of None \<Rightarrow> True | Some t \<Rightarrow> unat t < 1024) \<and>
   (case age_in_days clk t of None \<Rightarrow> clk = None | Some a \<Rightarrow> unat a < 1024)"
proof (intro conjI)
  show "decode_timestamp (to_ascii_lowercase (encode_timestamp d)) = Some (of_nat (unat d mod 1024))"
    by (rule decode_encode_timestamp_lower)
  show "case age_in_days clk t of None \<Rightarrow> clk = None | Some a \<Rightarrow> unat a < 1024"
    using age_in_days_bound [of clk t]
    by (cases clk) (auto simp: age_in_days_def current_days_since_epoch_def Let_def)
qed (auto simp: decode_encode_timestamp decode_timestamp_bound split: option.split)

text \<open>
  As the age is known modulo 1024 days only, a configured maximum of 1023 or more never
  expires any address.
\<close>

lemma srs_never_expires:
  assumes "1023 \<le> max_age_days cfg"
  shows "try_unwrap clk C raw cfg \<noteq> Some Expired"
proof
  assume "try_unwrap clk C raw cfg = Some Expired"
  then obtain ts age where "age_in_days clk ts = Some age" and "age > max_age_days cfg"
    by (auto simp: try_unwrap_def split: if_splits option.splits list.splits)
  then have "unat age < 1024" and "unat (max_age_days cfg) < unat age"
    by (auto simp: age_in_days_bound word_less_nat_alt)
  moreover have "1023 \<le> unat (max_age_days cfg)" using assms by (simp add: word_le_nat_alt)
  ultimately show False by simp
qed

lemma srs_never_expires_example:
  "try_unwrap (Some 0) sample_crypto ''SRS0=newG=GO=b.example=u@relay'' (sample_srs\<lparr>max_age_days := 1023\<rparr>)
     \<noteq> Some Expired"
  by (rule srs_never_expires) simp

text \<open>
  C30: The only panic of unwrapping is that of a clock before the epoch, and only an enabled SRS
  whose MAC and timestamp check out reads the clock.
\<close>

theorem srs_panics_exactly:
  "try_unwrap clk C raw cfg = None \<longleftrightarrow>
     clk = None \<and> enabled cfg \<and>
     (\<exists>h t d l rw ts. srs_form raw h t d l rw \<and>
        list_ex (\<lambda>secret. compute_hash C secret t d l = Some h) (secrets cfg) \<and>
        decode_timestamp t = Some ts)"
proof (cases "enabled cfg \<and> (\<exists>h t d l rw. srs_form raw h t d l rw)")
  case True
  then obtain h t d l rw where en: "enabled cfg" and form: "srs_form raw h t d l rw" by blast
  have age: "age_in_days None ts = None" "\<exists>a. age_in_days (Some secs) ts = Some a" for ts secs
    by (auto simp: age_in_days_def current_days_since_epoch_def Let_def)
  have age_Some: "age_in_days (Some secs) ts \<noteq> None" for ts secs using age(2) [of secs ts] by auto
  have "(\<exists>h' t' d' l' rw' ts. srs_form raw h' t' d' l' rw' \<and>
        list_ex (\<lambda>secret. compute_hash C secret t' d' l' = Some h') (secrets cfg) \<and>
        decode_timestamp t' = Some ts) \<longleftrightarrow>
      list_ex (\<lambda>secret. compute_hash C secret t d l = Some h) (secrets cfg) \<and> decode_timestamp t \<noteq> None"
    using form srs_form_unique [OF form] by blast
  moreover have "try_unwrap clk C raw cfg = None \<longleftrightarrow> clk = None \<and>
      list_ex (\<lambda>secret. compute_hash C secret t d l = Some h) (secrets cfg) \<and> decode_timestamp t \<noteq> None"
    unfolding try_unwrap_form [OF en form]
    by (cases clk) (auto simp: age age_Some split: option.splits)
  ultimately show ?thesis using en by (simp only: simp_thms)
next
  case False
  then show ?thesis
    using try_unwrap_no_form [of raw clk C cfg] by (cases "enabled cfg") auto
qed

section \<open>The configuration\<close>





section \<open>DNS overrides and the identity checks\<close>

text \<open>
  C28: The evaluator that start-up builds sees the configured record as the one TXT record of an
  overridden name, compared in lower case with the keys of the configuration as they are written;
  every other lookup is the system resolver's, and the limits are those of the configuration.
\<close>

theorem start_up_lookups:
  assumes "app_state_new N NO fs (Ok resolver) cfg = Ok st"
  shows "lookup_txt (ev_lookup (st_evaluator st)) name =
      (case map_of (overrides cfg) (to_ascii_lowercase (name_to_string NO name)) of
         Some record \<Rightarrow> Ok [record]
       | None \<Rightarrow> lookup_txt resolver name) \<and>
    lookup_a (ev_lookup (st_evaluator st)) = lookup_a resolver \<and>
    lookup_aaaa (ev_lookup (st_evaluator st)) = lookup_aaaa resolver \<and>
    lookup_mx (ev_lookup (st_evaluator st)) = lookup_mx resolver \<and>
    lookup_ptr (ev_lookup (st_evaluator st)) = lookup_ptr resolver \<and>
    vc_max_lookups (ev_config (st_evaluator st)) = max_lookups (spf_cfg cfg) \<and>
    vc_max_void_lookups (ev_config (st_evaluator st)) = void_limit (spf_cfg cfg) \<and>
    vc_timeout_secs (ev_config (st_evaluator st)) = lookup_timeout_secs (spf_cfg cfg)"
proof -
  let ?o = "override_new resolver (map_of (overrides cfg))"
  have ev: "st_evaluator st = evaluator_new (override_impl NO ?o) (spf_cfg cfg)"
    using assms by (auto simp: app_state_new_def from_system_conf_def Let_def and_then_Ok_iff)
  show ?thesis
    using override.hit [of ?o NO name] override.miss [of ?o NO name]
    by (auto simp: ev evaluator_new_def override_new_def split: option.split)
qed

lemma start_up_lookups_example:
  "lookup_txt (ev_lookup (st_evaluator sample_state)) ''A.example'' = Ok [''v=spf1 -all'']"
proof -
  have "lookup_txt sample_dns ''A.example'' = Ok [''v=spf1 -all'']" by code_simp
  then show ?thesis
    using start_up_lookups [OF sample_start, THEN conjunct1, of "''A.example''"]
    by (simp add: sample_config_def config_defaults)
qed



text \<open>
  The null sender is checked as the HELO identity: the MAIL FROM result and cause are then
  those of the HELO check, where the HELO name is a domain that the two parsers read alike.
\<close>

lemma null_sender_checks_helo:
  assumes "sender_from_domain V helo = Some sndr" and "domain_name_new V helo = Some (sender_domain V sndr)"
  shows "check_mail_from V ev ip [] helo = (check_helo V ev ip helo)\<lparr>oc_identity := MailFrom\<rparr>"
  using assms by (simp add: check_mail_from_def check_helo_def from_query_result_def Let_def)

lemma null_sender_checks_helo_example:
  "check_mail_from sample_viaspf (st_evaluator sample_state) sample_ip [] ''a.example'' =
     (check_helo sample_viaspf (st_evaluator sample_state) sample_ip ''a.example'')\<lparr>oc_identity := MailFrom\<rparr>"
  by (rule null_sender_checks_helo [where sndr = "''a.example''"])
     (simp_all add: sample_viaspf_def sample_domain_def)

end
