(* ===== verification/Config_Serde.thy ===== *)
theory Config_Serde
  imports Config_Load "HOL-Library.AList"
begin

text \<open>
  Deserialization of the configuration: what the attributes \<open>#[derive(Deserialize)]\<close>,
  \<open>#[serde(default)]\<close>, \<open>#[serde(default = "...")]\<close> and \<open>#[serde(rename_all = "...")]\<close> of
  \<open>rspf/src/config/model.rs\<close> and \<open>policy.rs\<close> ask of the crate \<open>serde\<close>.

  A value of the file, its reading as a scalar, a sequence, a table or the name of a variant, and
  the errors of the crate \<open>toml\<close> are parameters. A struct is read from a table: its keys are
  visited in the order of the table, unknown keys are ignored, a key that comes twice is an error,
  and so is the absence of a field without a default. The other form that a derived implementation
  accepts, a sequence of the fields' values, is not modelled.
\<close>

record ('v, 'e, 'net) toml_reader =
  read_bool :: "'v \<Rightarrow> ('e, bool) res"
  read_u64 :: "'v \<Rightarrow> ('e, u64) res"
  read_u32 :: "'v \<Rightarrow> ('e, u32) res"
  read_str :: "'v \<Rightarrow> ('e, string) res"
  read_variant :: "'v \<Rightarrow> ('e, string) res"
  read_seq :: "'v \<Rightarrow> ('e, 'v list) res"
  read_table :: "'v \<Rightarrow> ('e, (string \<times> 'v) list) res"
  read_net :: "'v \<Rightarrow> ('e, 'net) res"
  missing_field :: "string \<Rightarrow> 'e"
  duplicate_field :: "string \<Rightarrow> 'e"
  unknown_variant :: "string \<Rightarrow> 'e"
  custom_error :: "listen_addr_parse_error \<Rightarrow> 'e"

section \<open>The visitor of a derived implementation\<close>

text \<open>
  A field is a key with the update of the record that its value makes. The record starts with the
  defaults; the value of a required field in it is overwritten or never seen.
\<close>

type_synonym ('v, 'e, 'r) fields = "(string \<times> ('v \<Rightarrow> 'r \<Rightarrow> ('e, 'r) res)) list"

definition field_of :: "('v \<Rightarrow> ('e, 'a) res) \<Rightarrow> (('a \<Rightarrow> 'a) \<Rightarrow> 'r \<Rightarrow> 'r) \<Rightarrow> 'v \<Rightarrow> 'r \<Rightarrow> ('e, 'r) res" where
  "field_of rd upd v r = and_then (rd v) (\<lambda>a. Ok (upd (\<lambda>_. a) r))"

definition visit_entry ::
  "(string \<Rightarrow> 'e) \<Rightarrow> ('v, 'e, 'r) fields \<Rightarrow> string list \<times> 'r \<Rightarrow> string \<times> 'v \<Rightarrow> ('e, string list \<times> 'r) res"
where
  "visit_entry dup flds st entry =
     (case (st, entry) of ((seen, r), (k, v)) \<Rightarrow>
        (case map_of flds k of
           None \<Rightarrow> Ok (seen, r)
         | Some f \<Rightarrow> if k \<in> set seen then Err (dup k) else and_then (f v r) (\<lambda>r'. Ok (k # seen, r'))))"

definition visit_struct ::
  "('v, 'e, 'net) toml_reader \<Rightarrow> ('v, 'e, 'r) fields \<Rightarrow> string list \<Rightarrow> 'r \<Rightarrow> 'v \<Rightarrow> ('e, 'r) res"
where
  "visit_struct R flds required r0 v =
     and_then (read_table R v) (\<lambda>entries.
     and_then (try_fold (visit_entry (duplicate_field R) flds) ([], r0) entries) (\<lambda>(seen, r).
     case find (\<lambda>k. k \<notin> set seen) required of Some k \<Rightarrow> Err (missing_field R k) | None \<Rightarrow> Ok r))"

definition read_vec :: "('v, 'e, 'net) toml_reader \<Rightarrow> ('v \<Rightarrow> ('e, 'a) res) \<Rightarrow> 'v \<Rightarrow> ('e, 'a list) res" where
  "read_vec R f v = and_then (read_seq R v) (collect_results f)"

definition read_enum :: "('v, 'e, 'net) toml_reader \<Rightarrow> (string \<times> 'a) list \<Rightarrow> 'v \<Rightarrow> ('e, 'a) res" where
  "read_enum R variants v =
     and_then (read_variant R v) (\<lambda>n.
       case map_of variants n of None \<Rightarrow> Err (unknown_variant R n) | Some a \<Rightarrow> Ok a)"

section \<open>The values\<close>

definition deserialize_listen_addr :: "('v, 'e, 'net) toml_reader \<Rightarrow> 'v \<Rightarrow> ('e, listen_addr) res" where
  "deserialize_listen_addr R v =
     and_then (read_str R v) (\<lambda>raw. map_err (custom_error R) (listen_addr_from_str raw))"

definition deserialize_cidr_set :: "('v, 'e, 'net) toml_reader \<Rightarrow> 'v \<Rightarrow> ('e, 'net cidr_set) res" where
  "deserialize_cidr_set R v = and_then (read_vec R (read_net R) v) (\<lambda>nets. Ok (CidrSet nets))"

definition deserialize_reject_policy :: "('v, 'e, 'net) toml_reader \<Rightarrow> 'v \<Rightarrow> ('e, reject_policy) res" where
  "deserialize_reject_policy R =
     read_enum R [(''fail'', RP_Fail), (''soft_fail'', RP_SoftFail), (''spf_not_pass'', RP_SpfNotPass),
       (''never'', RP_Never), (''no_check'', RP_NoCheck)]"

definition deserialize_log_level :: "('v, 'e, 'net) toml_reader \<Rightarrow> 'v \<Rightarrow> ('e, log_level) res" where
  "deserialize_log_level R =
     read_enum R [(''off'', LL_Off), (''error'', LL_Error), (''warn'', LL_Warn), (''info'', LL_Info),
       (''debug'', LL_Debug), (''trace'', LL_Trace)]"

definition deserialize_header_mode :: "('v, 'e, 'net) toml_reader \<Rightarrow> 'v \<Rightarrow> ('e, header_mode) res" where
  "deserialize_header_mode R = read_enum R [(''spf'', HM_Spf), (''none'', HM_None)]"

text \<open>The hash map, in one of the orders in which it may be iterated.\<close>

definition deserialize_overrides :: "('v, 'e, 'net) toml_reader \<Rightarrow> 'v \<Rightarrow> ('e, (string \<times> string) list) res" where
  "deserialize_overrides R v =
     and_then (read_table R v) (\<lambda>entries.
       try_fold (\<lambda>m (k, x). and_then (read_str R x) (\<lambda>s. Ok (AList.update k s m))) [] entries)"

section \<open>The sections\<close>

definition server_fields :: "('v, 'e, 'net) toml_reader \<Rightarrow> ('v, 'e, server_config) fields" where
  "server_fields R =
    [(''listen'', field_of (read_vec R (deserialize_listen_addr R)) listen_update),
     (''test_only'', field_of (read_bool R) test_only_update)]"

definition deserialize_server :: "('v, 'e, 'net) toml_reader \<Rightarrow> 'v \<Rightarrow> ('e, server_config) res" where
  "deserialize_server R = visit_struct R (server_fields R) [''listen'']
     \<lparr>listen = [], test_only = False\<rparr>"

definition log_fields :: "('v, 'e, 'net) toml_reader \<Rightarrow> ('v, 'e, log_config) fields" where
  "log_fields R =
    [(''level'', field_of (deserialize_log_level R) level_update)]"

definition deserialize_log :: "('v, 'e, 'net) toml_reader \<Rightarrow> 'v \<Rightarrow> ('e, log_config) res" where
  "deserialize_log R = visit_struct R (log_fields R) []
     \<lparr>level = LL_Info\<rparr>"

definition policy_fields :: "('v, 'e, 'net) toml_reader \<Rightarrow> ('v, 'e, policy_config) fields" where
  "policy_fields R =
    [(''helo_reject'', field_of (deserialize_reject_policy R) helo_reject_update),
     (''mail_from_reject'', field_of (deserialize_reject_policy R) mail_from_reject_update),
     (''permerror_reject'', field_of (read_bool R) permerror_reject_update),
     (''temperror_defer'', field_of (read_bool R) temperror_defer_update)]"

definition deserialize_policy :: "('v, 'e, 'net) toml_reader \<Rightarrow> 'v \<Rightarrow> ('e, policy_config) res" where
  "deserialize_policy R = visit_struct R (policy_fields R) []
     \<lparr>helo_reject = default_reject_policy, mail_from_reject = default_reject_policy,
      permerror_reject = False, temperror_defer = False\<rparr>"

definition skip_fields :: "('v, 'e, 'net) toml_reader \<Rightarrow> ('v, 'e, 'net skip_config) fields" where
  "skip_fields R =
    [(''addresses'', field_of (deserialize_cidr_set R) addresses_update)]"

definition deserialize_skip :: "('v, 'e, 'net) toml_reader \<Rightarrow> 'v \<Rightarrow> ('e, 'net skip_config) res" where
  "deserialize_skip R = visit_struct R (skip_fields R) []
     \<lparr>addresses = cidr_default\<rparr>"

definition whitelist_fields :: "('v, 'e, 'net) toml_reader \<Rightarrow> ('v, 'e, 'net whitelist_config) fields" where
  "whitelist_fields R =
    [(''ips'', field_of (deserialize_cidr_set R) cfg_ips_update),
     (''helo_names'', field_of (read_vec R (read_str R)) cfg_helo_names_update),
     (''domains'', field_of (read_vec R (read_str R)) cfg_domains_update),
     (''domains_ptr'', field_of (read_vec R (read_str R)) cfg_domains_ptr_update),
     (''files'', field_of (read_vec R (read_str R)) cfg_files_update)]"

definition deserialize_whitelist :: "('v, 'e, 'net) toml_reader \<Rightarrow> 'v \<Rightarrow> ('e, 'net whitelist_config) res" where
  "deserialize_whitelist R = visit_struct R (whitelist_fields R) []
     \<lparr>cfg_ips = cidr_default, cfg_helo_names = [], cfg_domains = [], cfg_domains_ptr = [],
      cfg_files = []\<rparr>"

definition spf_fields :: "('v, 'e, 'net) toml_reader \<Rightarrow> ('v, 'e, spf_config) fields" where
  "spf_fields R =
    [(''lookup_timeout_secs'', field_of (read_u64 R) lookup_timeout_secs_update),
     (''void_limit'', field_of (read_u64 R) void_limit_update),
     (''max_lookups'', field_of (read_u64 R) max_lookups_update)]"

definition deserialize_spf :: "('v, 'e, 'net) toml_reader \<Rightarrow> 'v \<Rightarrow> ('e, spf_config) res" where
  "deserialize_spf R = visit_struct R (spf_fields R) []
     \<lparr>lookup_timeout_secs = default_lookup_timeout_secs, void_limit = default_void_limit,
      max_lookups = default_max_lookups\<rparr>"

definition srs_fields :: "('v, 'e, 'net) toml_reader \<Rightarrow> ('v, 'e, srs_config) fields" where
  "srs_fields R =
    [(''enabled'', field_of (read_bool R) enabled_update),
     (''secrets'', field_of (read_vec R (read_str R)) secrets_update),
     (''max_age_days'', field_of (read_u32 R) max_age_days_update)]"

definition deserialize_srs :: "('v, 'e, 'net) toml_reader \<Rightarrow> 'v \<Rightarrow> ('e, srs_config) res" where
  "deserialize_srs R = visit_struct R (srs_fields R) []
     \<lparr>enabled = False, secrets = [], max_age_days = default_srs_max_age_days\<rparr>"

definition relay_fields :: "('v, 'e, 'net) toml_reader \<Rightarrow> ('v, 'e, 'net relay_config) fields" where
  "relay_fields R =
    [(''exempt_sasl_authenticated'', field_of (read_bool R) exempt_sasl_authenticated_update),
     (''trusted_relays'', field_of (deserialize_cidr_set R) trusted_relays_update)]"

definition deserialize_relay :: "('v, 'e, 'net) toml_reader \<Rightarrow> 'v \<Rightarrow> ('e, 'net relay_config) res" where
  "deserialize_relay R = visit_struct R (relay_fields R) []
     \<lparr>exempt_sasl_authenticated = False, trusted_relays = cidr_default\<rparr>"

definition header_fields :: "('v, 'e, 'net) toml_reader \<Rightarrow> ('v, 'e, header_config) fields" where
  "header_fields R =
    [(''mode'', field_of (deserialize_header_mode R) mode_update),
     (''hide_receiver'', field_of (read_bool R) hide_receiver_update),
     (''authserv_id'', field_of (\<lambda>v. and_then (read_str R v) (\<lambda>s. Ok (Some s))) authserv_id_update)]"

definition deserialize_header :: "('v, 'e, 'net) toml_reader \<Rightarrow> 'v \<Rightarrow> ('e, header_config) res" where
  "deserialize_header R = visit_struct R (header_fields R) []
     \<lparr>mode = HM_Spf, hide_receiver = False, authserv_id = None\<rparr>"

definition messages_fields :: "('v, 'e, 'net) toml_reader \<Rightarrow> ('v, 'e, message_templates) fields" where
  "messages_fields R =
    [(''fail'', field_of (read_str R) msg_fail_update),
     (''softfail'', field_of (read_str R) msg_softfail_update),
     (''neutral'', field_of (read_str R) msg_neutral_update),
     (''none'', field_of (read_str R) msg_none_update),
     (''permerror'', field_of (read_str R) msg_permerror_update),
     (''temperror'', field_of (read_str R) msg_temperror_update)]"

definition deserialize_messages :: "('v, 'e, 'net) toml_reader \<Rightarrow> 'v \<Rightarrow> ('e, message_templates) res" where
  "deserialize_messages R = visit_struct R (messages_fields R) []
     \<lparr>msg_fail = default_fail_message, msg_softfail = default_softfail_message,
      msg_neutral = default_neutral_message, msg_none = default_none_message,
      msg_permerror = default_permerror_message, msg_temperror = default_temperror_message\<rparr>"

definition config_fields :: "('v, 'e, 'net) toml_reader \<Rightarrow> ('v, 'e, 'net config) fields" where
  "config_fields R =
    [(''server'', field_of (deserialize_server R) server_cfg_update),
     (''log'', field_of (deserialize_log R) log_cfg_update),
     (''policy'', field_of (deserialize_policy R) policy_cfg_update),
     (''skip'', field_of (deserialize_skip R) skip_cfg_update),
     (''whitelist'', field_of (deserialize_whitelist R) whitelist_cfg_update),
     (''spf'', field_of (deserialize_spf R) spf_cfg_update),
     (''overrides'', field_of (deserialize_overrides R) overrides_update),
     (''srs'', field_of (deserialize_srs R) srs_cfg_update),
     (''relay'', field_of (deserialize_relay R) relay_cfg_update),
     (''header'', field_of (deserialize_header R) header_cfg_update),
     (''messages'', field_of (deserialize_messages R) messages_update)]"

definition deserialize_config :: "('v, 'e, 'net) toml_reader \<Rightarrow> 'v \<Rightarrow> ('e, 'net config) res" where
  "deserialize_config R = visit_struct R (config_fields R) [''server'']
     (minimal_config \<lparr>listen = [], test_only = False\<rparr>)"

text \<open>\<open>toml::from_str\<close>: the parser of the crate, then the deserialization of its value.\<close>

definition from_str_of ::
  "('v, 'e, 'net) toml_reader \<Rightarrow> (string \<Rightarrow> ('e, 'v) res) \<Rightarrow> string \<Rightarrow> ('e, 'net config) res"
where
  "from_str_of R parse raw = and_then (parse raw) (deserialize_config R)"

section \<open>What the visitor computes\<close>

text \<open>
  A field that is absent keeps its default and a field that is present has the value that its key
  reads as, whatever the order of the table and whatever other keys it has.
\<close>

definition read_or :: "('v \<Rightarrow> ('e, 'a) res) \<Rightarrow> 'a \<Rightarrow> 'v option \<Rightarrow> ('e, 'a) res" where
  "read_or rd d x = (case x of None \<Rightarrow> Ok d | Some v \<Rightarrow> rd v)"

definition keeps :: "('r \<Rightarrow> 'a) \<Rightarrow> ('v \<Rightarrow> 'r \<Rightarrow> ('e, 'r) res) \<Rightarrow> bool" where
  "keeps get f \<longleftrightarrow> (\<forall>v r r'. f v r = Ok r' \<longrightarrow> get r' = get r)"

definition writes :: "('r \<Rightarrow> 'a) \<Rightarrow> ('v \<Rightarrow> ('e, 'a) res) \<Rightarrow> ('v \<Rightarrow> 'r \<Rightarrow> ('e, 'r) res) \<Rightarrow> bool" where
  "writes get rd f \<longleftrightarrow> (\<forall>v r r'. f v r = Ok r' \<longrightarrow> rd v = Ok (get r'))"

text \<open>The key \<open>k\<close> is the only one that writes the component \<open>get\<close>.\<close>

definition owns :: "('v, 'e, 'r) fields \<Rightarrow> string \<Rightarrow> ('r \<Rightarrow> 'a) \<Rightarrow> ('v \<Rightarrow> ('e, 'a) res) \<Rightarrow> bool" where
  "owns flds k get rd \<longleftrightarrow>
     (\<exists>f. map_of flds k = Some f \<and> writes get rd f) \<and> list_all (\<lambda>(k', f). k' = k \<or> keeps get f) flds"

lemma keeps_field_of [simp]:
  "(\<And>a r. get (upd (\<lambda>_. a) r) = get r) \<Longrightarrow> keeps get (field_of rd upd)"
  by (auto simp: keeps_def field_of_def and_then_Ok_iff)

lemma writes_field_of [simp]:
  "(\<And>a r. get (upd (\<lambda>_. a) r) = a) \<Longrightarrow> writes get rd (field_of rd upd)"
  by (auto simp: writes_def field_of_def and_then_Ok_iff)

lemma visit_entry_cases:
  assumes "visit_entry dup flds (seen, r) (k, v) = Ok st"
  obtains (ignored) "map_of flds k = None" "st = (seen, r)"
  | (visited) f r' where "map_of flds k = Some f" "k \<notin> set seen" "f v r = Ok r'" "st = (k # seen, r')"
  using assms by (auto simp: visit_entry_def and_then_Ok_iff split: option.splits if_splits)

lemma visit_entries_get:
  assumes "owns flds k get rd" and "try_fold (visit_entry dup flds) (seen, r0) es = Ok (seen', r)"
  shows "if k \<in> set seen then get r = get r0 else read_or rd (get r0) (map_of es k) = Ok (get r)"
  using assms(2)
proof (induction es arbitrary: seen r0)
  case Nil
  then show ?case by (simp add: read_or_def)
next
  case (Cons e es)
  obtain k1 v where e: "e = (k1, v)" by (cases e)
  from Cons.prems obtain st where st: "visit_entry dup flds (seen, r0) (k1, v) = Ok st"
    and rest: "try_fold (visit_entry dup flds) st es = Ok (seen', r)"
    by (auto simp: e and_then_Ok_iff)
  from assms(1) obtain f0 where f0: "map_of flds k = Some f0" "writes get rd f0"
    and others: "\<And>k' f. map_of flds k' = Some f \<Longrightarrow> k' \<noteq> k \<Longrightarrow> keeps get f"
    by (fastforce simp: owns_def list_all_iff dest: map_of_SomeD)
  from st show ?case
  proof (cases rule: visit_entry_cases)
    case ignored
    with f0 have "k1 \<noteq> k" by auto
    with Cons.IH [of seen r0] rest ignored show ?thesis by (simp add: e)
  next
    case (visited f r')
    note IH = Cons.IH [of "k1 # seen" r'] rest visited
    show ?thesis
    proof (cases "k1 = k")
      case True
      with visited f0 have "rd v = Ok (get r')" by (simp add: writes_def)
      with IH True show ?thesis by (simp add: e read_or_def)
    next
      case False
      with others visited have "get r' = get r0" by (simp add: keeps_def)
      with IH False show ?thesis by (auto simp: e)
    qed
  qed
qed

lemma visit_entries_seen:
  "try_fold (visit_entry dup flds) (seen, r0) es = Ok (seen', r) \<Longrightarrow>
   set seen' = set seen \<union> (fst ` set es \<inter> dom (map_of flds))"
proof (induction es arbitrary: seen r0)
  case (Cons e es)
  obtain k v where e: "e = (k, v)" by (cases e)
  from Cons.prems obtain st where st: "visit_entry dup flds (seen, r0) (k, v) = Ok st"
    and rest: "try_fold (visit_entry dup flds) st es = Ok (seen', r)"
    by (auto simp: e and_then_Ok_iff)
  from st show ?case
  proof (cases rule: visit_entry_cases)
    case ignored
    then have "k \<notin> dom (map_of flds)" by auto
    then show ?thesis using Cons.IH rest ignored by (auto simp: e)
  next
    case (visited f r')
    then have "k \<in> dom (map_of flds)" by auto
    then show ?thesis using Cons.IH rest visited by (auto simp: e)
  qed
qed simp

text \<open>A table without repeated keys is read exactly where each of its known keys is.\<close>

definition readable :: "('v, 'e, 'r) fields \<Rightarrow> (string \<times> 'v) list \<Rightarrow> bool" where
  "readable flds es \<longleftrightarrow> (\<forall>(k, v) \<in> set es. \<forall>f. map_of flds k = Some f \<longrightarrow> (\<forall>r. is_ok (f v r)))"

lemma visit_entries_ok:
  assumes "distinct (map fst es)" and "readable flds es" and "fst ` set es \<inter> set seen = {}"
  shows "is_ok (try_fold (visit_entry dup flds) (seen, r0) es)"
  using assms
proof (induction es arbitrary: seen r0)
  case (Cons e es)
  obtain k v where e: "e = (k, v)" by (cases e)
  show ?case
  proof (cases "map_of flds k")
    case None
    then have "visit_entry dup flds (seen, r0) e = Ok (seen, r0)" by (simp add: e visit_entry_def)
    with Cons show ?thesis by (simp add: readable_def)
  next
    case (Some f)
    with Cons.prems(2) have "is_ok (f v r0)" by (simp add: e readable_def)
    then obtain r' where r': "f v r0 = Ok r'" by (auto simp: is_ok_iff)
    have "is_ok (try_fold (visit_entry dup flds) (k # seen, r') es)"
      using Cons.prems by (intro Cons.IH) (auto simp: e readable_def image_iff)
    moreover have "visit_entry dup flds (seen, r0) e = Ok (k # seen, r')"
      using Some r' Cons.prems(3) by (simp add: e visit_entry_def)
    ultimately show ?thesis by simp
  qed
qed simp

lemma visit_struct_get:
  assumes "visit_struct R flds required r0 v = Ok r" and "read_table R v = Ok es" and "owns flds k get rd"
  shows "read_or rd (get r0) (map_of es k) = Ok (get r)"
  using assms visit_entries_get [OF assms(3), of _ "[]" r0 es]
  by (auto simp: visit_struct_def and_then_Ok_iff split: option.splits)

lemma visit_struct_ok:
  assumes "read_table R v = Ok es" and "distinct (map fst es)" and "readable flds es"
    and "set required \<subseteq> fst ` set es \<inter> dom (map_of flds)"
  obtains r where "visit_struct R flds required r0 v = Ok r"
proof -
  obtain seen r where r: "try_fold (visit_entry (duplicate_field R) flds) ([], r0) es = Ok (seen, r)"
    using visit_entries_ok [OF assms(2,3), of "[]" "duplicate_field R" r0] by (auto simp: is_ok_iff)
  have "find (\<lambda>k. k \<notin> set seen) required = None"
    using visit_entries_seen [OF r] assms(4) by (auto simp: find_None_iff)
  with r assms(1) show thesis by (intro that) (simp add: visit_struct_def)
qed

lemma visit_struct_required:
  assumes "visit_struct R flds required r0 v = Ok r" and "read_table R v = Ok es" and "k \<in> set required"
  shows "map_of es k \<noteq> None"
proof -
  from assms(1,2) obtain seen where f: "try_fold (visit_entry (duplicate_field R) flds) ([], r0) es = Ok (seen, r)"
    and "find (\<lambda>k. k \<notin> set seen) required = None"
    by (auto simp: visit_struct_def and_then_Ok_iff split: option.splits)
  with assms(3) have "k \<in> set seen" by (auto simp: find_None_iff)
  with visit_entries_seen [OF f] show ?thesis by (auto simp: map_of_eq_None_iff)
qed

section \<open>The sections of the file\<close>

lemma config_fields_own:
  fixes R :: "('v, 'e, 'net) toml_reader"
  shows
    "owns (config_fields R) ''server'' server_cfg (deserialize_server R)"
    "owns (config_fields R) ''log'' log_cfg (deserialize_log R)"
    "owns (config_fields R) ''policy'' policy_cfg (deserialize_policy R)"
    "owns (config_fields R) ''skip'' skip_cfg (deserialize_skip R)"
    "owns (config_fields R) ''whitelist'' whitelist_cfg (deserialize_whitelist R)"
    "owns (config_fields R) ''spf'' spf_cfg (deserialize_spf R)"
    "owns (config_fields R) ''overrides'' overrides (deserialize_overrides R)"
    "owns (config_fields R) ''srs'' srs_cfg (deserialize_srs R)"
    "owns (config_fields R) ''relay'' relay_cfg (deserialize_relay R)"
    "owns (config_fields R) ''header'' header_cfg (deserialize_header R)"
    "owns (config_fields R) ''messages'' messages (deserialize_messages R)"
  by (simp_all add: owns_def config_fields_def)

text \<open>The configuration that a table stands for: each section on its own, or its default.\<close>

definition sections_read ::
  "('v, 'e, 'net) toml_reader \<Rightarrow> (string \<Rightarrow> 'v option) \<Rightarrow> 'net config \<Rightarrow> bool"
where
  "sections_read R m c \<longleftrightarrow>
     (\<exists>v. m ''server'' = Some v \<and> deserialize_server R v = Ok (server_cfg c)) \<and>
     read_or (deserialize_log R) default_log_config (m ''log'') = Ok (log_cfg c) \<and>
     read_or (deserialize_policy R) default_policy_config (m ''policy'') = Ok (policy_cfg c) \<and>
     read_or (deserialize_skip R) default_skip_config (m ''skip'') = Ok (skip_cfg c) \<and>
     read_or (deserialize_whitelist R) default_whitelist_config (m ''whitelist'') = Ok (whitelist_cfg c) \<and>
     read_or (deserialize_spf R) default_spf_config (m ''spf'') = Ok (spf_cfg c) \<and>
     read_or (deserialize_overrides R) [] (m ''overrides'') = Ok (overrides c) \<and>
     read_or (deserialize_srs R) default_srs_config (m ''srs'') = Ok (srs_cfg c) \<and>
     read_or (deserialize_relay R) default_relay_config (m ''relay'') = Ok (relay_cfg c) \<and>
     read_or (deserialize_header R) default_header_config (m ''header'') = Ok (header_cfg c) \<and>
     read_or (deserialize_messages R) default_message_templates (m ''messages'') = Ok (messages c)"

lemma deserialize_config_sections:
  fixes R :: "('v, 'e, 'net) toml_reader"
  assumes "read_table R v = Ok es" and "deserialize_config R v = Ok c"
  shows "sections_read R (map_of es) c"
proof -
  note ok = assms(2) [unfolded deserialize_config_def]
  note own = visit_struct_get [OF ok assms(1)]
  obtain sv where "map_of es ''server'' = Some sv"
    using visit_struct_required [OF ok assms(1), of "''server''"] by auto
  then show ?thesis
    using own [OF config_fields_own(1)] own [OF config_fields_own(2)] own [OF config_fields_own(3)]
      own [OF config_fields_own(4)] own [OF config_fields_own(5)] own [OF config_fields_own(6)]
      own [OF config_fields_own(7)] own [OF config_fields_own(8)] own [OF config_fields_own(9)]
      own [OF config_fields_own(10)] own [OF config_fields_own(11)]
    by (simp add: sections_read_def read_or_def minimal_config_def)
qed

lemma sections_read_unique:
  "sections_read R m c \<Longrightarrow> sections_read R m c' \<Longrightarrow> c = c'"
  by (auto simp: sections_read_def intro!: config.equality)

lemma readable_config_fields:
  assumes "distinct (map fst es)" and "sections_read R (map_of es) c"
  shows "readable (config_fields R) es"
proof -
  have "is_ok (f v r)" if kv: "(k, v) \<in> set es" and f: "map_of (config_fields R) k = Some f" for k v f r
  proof -
    have "map_of es k = Some v" using kv assms(1) by simp
    then show ?thesis
      using assms(2) f
      by (auto simp: config_fields_def sections_read_def read_or_def field_of_def split: if_splits)
  qed
  then show ?thesis by (auto simp: readable_def)
qed

lemma deserialize_config_iff:
  assumes "read_table R v = Ok es" and "distinct (map fst es)"
  shows "deserialize_config R v = Ok c \<longleftrightarrow> sections_read R (map_of es) c"
proof
  assume s: "sections_read R (map_of es) c"
  then have "''server'' \<in> fst ` set es"
    by (auto simp: sections_read_def image_iff dest!: map_of_SomeD) force
  moreover have "''server'' \<in> dom (map_of (config_fields R))"
    by (simp add: config_fields_def)
  ultimately obtain c' where c': "deserialize_config R v = Ok c'"
    using visit_struct_ok [OF assms readable_config_fields [OF assms(2) s], of "[''server'']"]
    unfolding deserialize_config_def by auto
  from deserialize_config_sections [OF assms(1) c'] s have "c' = c" by (rule sections_read_unique)
  with c' show "deserialize_config R v = Ok c" by simp
qed (rule deserialize_config_sections [OF assms(1)])

end
