(* ===== verification/Config_Properties.thy ===== *)
theory Config_Properties
  imports Sample_Deployment Config_Serde
begin

text \<open>
  Properties of the configuration file: what its sections stand for, alone and together with the
  validation. They are shown at a small type of TOML values.
\<close>

section \<open>Sample values\<close>

datatype sample_toml =
    T_Bool bool
  | T_Num nat
  | T_Str string
  | T_Array "sample_toml list"
  | T_Table "(string \<times> sample_toml) list"

text \<open>Reads of a value of the wrong kind fail with a message; networks are those of an \<open>ipnet\<close>.\<close>

definition sample_reader :: "('net, 'pe) ipnet \<Rightarrow> (sample_toml, string, 'net) toml_reader" where
  "sample_reader N =
     \<lparr>read_bool = (\<lambda>v. case v of T_Bool b \<Rightarrow> Ok b | _ \<Rightarrow> Err ''type''),
      read_u64 = (\<lambda>v. case v of T_Num n \<Rightarrow> if n < 2 ^ 64 then Ok (of_nat n) else Err ''range'' | _ \<Rightarrow> Err ''type''),
      read_u32 = (\<lambda>v. case v of T_Num n \<Rightarrow> if n < 2 ^ 32 then Ok (of_nat n) else Err ''range'' | _ \<Rightarrow> Err ''type''),
      read_str = (\<lambda>v. case v of T_Str s \<Rightarrow> Ok s | _ \<Rightarrow> Err ''type''),
      read_variant = (\<lambda>v. case v of T_Str s \<Rightarrow> Ok s | _ \<Rightarrow> Err ''type''),
      read_seq = (\<lambda>v. case v of T_Array vs \<Rightarrow> Ok vs | _ \<Rightarrow> Err ''type''),
      read_table = (\<lambda>v. case v of T_Table es \<Rightarrow> Ok es | _ \<Rightarrow> Err ''type''),
      read_net = (\<lambda>v. case v of
           T_Str s \<Rightarrow> (case net_from_str N s of Inl _ \<Rightarrow> Err ''network'' | Inr n \<Rightarrow> Ok n)
         | _ \<Rightarrow> Err ''type''),
      missing_field = (\<lambda>k. ''missing '' @ k), duplicate_field = (\<lambda>k. ''duplicate '' @ k),
      unknown_variant = (\<lambda>k. ''variant '' @ k), custom_error = (\<lambda>_. ''address'')\<rparr>"

definition sample_server_toml :: sample_toml where
  "sample_server_toml = T_Table [(''listen'', T_Array [T_Str ''unix:/run/rspfd''])]"

text \<open>A file with an SRS section that has no maximum age, and one section that no struct names.\<close>

definition sample_file_toml :: sample_toml where
  "sample_file_toml =
     T_Table [(''srs'', T_Table [(''enabled'', T_Bool True), (''secrets'', T_Array [T_Str ''k''])]),
       (''unknown'', T_Num 7), (''server'', sample_server_toml)]"

definition sample_file_config :: "ip_addr config" where
  "sample_file_config =
     sample_config\<lparr>srs_cfg := \<lparr>enabled = True, secrets = [''k''], max_age_days = 21\<rparr>\<rparr>"

lemma sample_read_table: "read_table (sample_reader N) (T_Table es) = Ok es"
  by (simp add: sample_reader_def)

lemma sample_server_read:
  "deserialize_server (sample_reader sample_ipnet) sample_server_toml =
     Ok \<lparr>listen = [Unix ''/run/rspfd''], test_only = False\<rparr>"
  by code_simp

lemma sample_srs_read:
  "deserialize_srs (sample_reader sample_ipnet)
     (T_Table [(''enabled'', T_Bool True), (''secrets'', T_Array [T_Str ''k''])]) =
   Ok \<lparr>enabled = True, secrets = [''k''], max_age_days = 21\<rparr>"
  by code_simp

lemma sample_sections:
  "sections_read (sample_reader sample_ipnet)
     (map_of [(''srs'', T_Table [(''enabled'', T_Bool True), (''secrets'', T_Array [T_Str ''k''])]),
       (''unknown'', T_Num 7), (''server'', sample_server_toml)]) sample_file_config"
  using sample_server_read sample_srs_read
  by (simp add: sections_read_def read_or_def sample_file_config_def sample_config_def config_defaults)

section \<open>Properties\<close>



text \<open>
  C34: The maximum age of SRS addresses: 21 days where the section is there without the key, but
  0 where the section is absent. The second value is never in effect, since SRS is disabled then.
\<close>

theorem srs_section_default:
  assumes "read_table R v = Ok es" and "deserialize_config R v = Ok c"
  shows
    "case map_of es ''srs'' of
       None \<Rightarrow> \<not> enabled (srs_cfg c) \<and> max_age_days (srs_cfg c) = 0
     | Some sv \<Rightarrow> \<exists>ses. read_table R sv = Ok ses \<and>
         read_or (read_u32 R) 21 (map_of ses ''max_age_days'') = Ok (max_age_days (srs_cfg c)) \<and>
         read_or (read_bool R) False (map_of ses ''enabled'') = Ok (enabled (srs_cfg c))"
proof (cases "map_of es ''srs''")
  case None
  with deserialize_config_sections [OF assms] have "srs_cfg c = default_srs_config"
    by (simp add: sections_read_def read_or_def)
  with None show ?thesis by (simp add: default_srs_config_def)
next
  case (Some sv)
  with deserialize_config_sections [OF assms] have srs: "deserialize_srs R sv = Ok (srs_cfg c)"
    by (simp add: sections_read_def read_or_def)
  then obtain ses where ses: "read_table R sv = Ok ses"
    by (auto simp: deserialize_srs_def visit_struct_def and_then_Ok_iff)
  note get = visit_struct_get [OF srs [unfolded deserialize_srs_def] ses]
  have age: "owns (srs_fields R) ''max_age_days'' max_age_days (read_u32 R)"
    and on: "owns (srs_fields R) ''enabled'' enabled (read_bool R)"
    by (simp_all add: owns_def srs_fields_def)
  show ?thesis
    using Some ses get [OF age] get [OF on] by (simp add: default_srs_max_age_days_def)
qed

lemma srs_section_default_example:
  "read_or (read_u32 (sample_reader sample_ipnet)) 21 None = Ok (max_age_days (srs_cfg sample_file_config))"
proof -
  have "deserialize_config (sample_reader sample_ipnet) sample_file_toml = Ok sample_file_config"
    unfolding sample_file_toml_def
    by (subst deserialize_config_iff [OF sample_read_table]) (simp, rule sample_sections)
  from srs_section_default [OF sample_read_table this [unfolded sample_file_toml_def]] show ?thesis
    by (simp add: sample_read_table)
qed

text \<open>
  C33: A file with nothing but a server section loads to the defaults exactly where it names a
  listener, whatever parser of SPF records the validation uses.
\<close>

theorem minimal_file_loads:
  fixes R :: "('v, 'e, 'net) toml_reader" and parse_record :: "string \<Rightarrow> ('ve, 'rec) res"
  assumes "read_to_string fs path = Ok raw" and "parse raw = Ok v"
    and "read_table R v = Ok [(''server'', sv)]" and "deserialize_server R sv = Ok srv"
  shows "config_load fs (from_str_of R parse) parse_record path =
     (if listen srv = [] then Err NoListenAddresses else Ok (minimal_config srv))"
proof -
  have "deserialize_config R v = Ok (minimal_config srv)"
    using assms(4) deserialize_config_iff [OF assms(3)]
    by (simp add: sections_read_def read_or_def minimal_config_def)
  moreover have "validate parse_record (minimal_config srv :: 'net config) =
      (if listen srv = [] then Err NoListenAddresses else Ok () :: (('e, 've) config_error, unit) res)"
    using validate_Ok_iff [of parse_record "minimal_config srv :: 'net config"]
      minimal_config_valid [of parse_record srv]
    by (auto simp: validate_def minimal_config_def)
  ultimately show ?thesis
    using assms(1,2) by (simp add: config_load_def from_str_of_def)
qed

lemma minimal_file_loads_example:
  "config_load (sample_files ''server'')
     (from_str_of (sample_reader sample_ipnet) (\<lambda>_. Ok (T_Table [(''server'', sample_server_toml)])))
     sample_parse_record ''/etc/rspf/rspf.toml'' = Ok sample_config"
proof -
  have "read_to_string (sample_files ''server'') ''/etc/rspf/rspf.toml'' = Ok ''server''"
    by code_simp
  from minimal_file_loads [OF this _ sample_read_table sample_server_read,
      of "\<lambda>_. Ok (T_Table [(''server'', sample_server_toml)])" sample_parse_record]
  show ?thesis by (simp add: sample_config_def)
qed

end
