(* ===== verification/Decision_Properties.thy ===== *)
theory Decision_Properties
  imports Sample_Deployment
begin

text \<open>
  Properties of the decision engine: which action, with which text, and how reply messages are
  rendered.
\<close>

section \<open>The action\<close>

text \<open>
  C7: The policy table decides: a message is rejected exactly where one of the two identities is
  rejected by its own policy, and deferred exactly where none is rejected and one is deferred.
  Permanent errors are rejected only if configured, temporary errors deferred only if configured,
  and an identity with the policy \<open>NoCheck\<close> does neither.
\<close>

theorem decide_by_policy:
  "((\<exists>m. decide D cfg helo mail_from ctx = Reject m) \<longleftrightarrow>
      rejects (helo_reject (policy_cfg cfg)) (oc_result helo) (permerror_reject (policy_cfg cfg)) \<or>
      rejects (mail_from_reject (policy_cfg cfg)) (oc_result mail_from) (permerror_reject (policy_cfg cfg))) \<and>
   ((\<exists>m. decide D cfg helo mail_from ctx = DeferIfPermit m) \<longleftrightarrow>
      \<not> rejects (helo_reject (policy_cfg cfg)) (oc_result helo) (permerror_reject (policy_cfg cfg)) \<and>
      \<not> rejects (mail_from_reject (policy_cfg cfg)) (oc_result mail_from) (permerror_reject (policy_cfg cfg)) \<and>
      (defers (helo_reject (policy_cfg cfg)) (oc_result helo) (temperror_defer (policy_cfg cfg)) \<or>
       defers (mail_from_reject (policy_cfg cfg)) (oc_result mail_from) (temperror_defer (policy_cfg cfg))))"
proof -
  let ?a = "decide D cfg helo mail_from ctx"
  let ?h = "helo_severity cfg (oc_result helo)" and ?m = "mail_from_severity cfg (oc_result mail_from)"
  have sev: "action_severity ?a = max ?h ?m" by (rule action_severity_decide)
  have "(\<exists>m. ?a = DeferIfPermit m) \<longleftrightarrow> max ?h ?m = Sev_Defer"
    unfolding sev [symmetric] by (cases ?a) simp_all
  moreover have "max ?h ?m = Sev_Defer \<longleftrightarrow>
      ?h \<noteq> Sev_Reject \<and> ?m \<noteq> Sev_Reject \<and> (?h = Sev_Defer \<or> ?m = Sev_Defer)"
    by (cases ?h; cases ?m) (simp_all add: max_def severity_order)
  ultimately show ?thesis
    by (simp add: decide_Reject_iff helo_severity_def mail_from_severity_def
        classify_Reject_iff classify_Defer_iff)
qed

text \<open>
  C21: The text of the action: a reject or defer message is that of an identity whose own severity
  is the action's, the MAIL FROM identity where both are, and never of a result "pass"; the
  header that is prepended is that of the MAIL FROM outcome, and only in header mode \<open>Spf\<close>.
\<close>

theorem decide_text:
  "case decide D cfg helo mail_from ctx of
     Reject msg \<Rightarrow> (\<exists>r. r \<noteq> Spf_Pass \<and> msg = render_message D (messages cfg) r ctx \<and>
       (if mail_from_severity cfg (oc_result mail_from) = Sev_Reject then r = oc_result mail_from
        else r = oc_result helo \<and> helo_severity cfg r = Sev_Reject))
   | DeferIfPermit msg \<Rightarrow> (\<exists>r. r = Spf_Temperror \<and> msg = render_message D (messages cfg) r ctx)
   | Prepend hdr \<Rightarrow> mode (header_cfg cfg) = HM_Spf \<and>
       hdr = ''Received-SPF: '' @ build_received_spf D mail_from (ctx_ip ctx) (ctx_sender ctx)
               (ctx_helo ctx) (ctx_recipient ctx) (header_cfg cfg)
   | Dunno \<Rightarrow> mode (header_cfg cfg) = HM_None"
proof -
  let ?h = "oc_result helo" and ?m = "oc_result mail_from"
  let ?r = "responsible_result cfg ?h ?m"
  have pass: "max (helo_severity cfg ?h) (mail_from_severity cfg ?m) \<noteq> Sev_None \<Longrightarrow> ?r \<noteq> Spf_Pass"
    by (rule responsible_not_pass)
  show ?thesis
  proof (cases "max (helo_severity cfg ?h) (mail_from_severity cfg ?m)")
    case Sev_None
    then show ?thesis by (simp add: decide_eq Let_def split: header_mode.split)
  next
    case Sev_Reject
    have "if mail_from_severity cfg ?m = Sev_Reject then ?r = ?m else ?r = ?h \<and> helo_severity cfg ?r = Sev_Reject"
      using Sev_Reject
      by (cases "helo_severity cfg ?h"; cases "mail_from_severity cfg ?m")
         (simp_all add: responsible_result_def max_def severity_order)
    then show ?thesis
      using Sev_Reject pass by (simp add: decide_eq Let_def) (rule exI [of _ ?r], auto)
  next
    case Sev_Defer
    have "helo_severity cfg ?h = Sev_Defer \<and> ?r = ?h \<or> mail_from_severity cfg ?m = Sev_Defer \<and> ?r = ?m"
      using Sev_Defer
      by (cases "helo_severity cfg ?h"; cases "mail_from_severity cfg ?m")
         (simp_all add: responsible_result_def max_def severity_order)
    then have "?r = Spf_Temperror"
      by (auto simp: helo_severity_def mail_from_severity_def classify_Defer_iff defers_def)
    with Sev_Defer show ?thesis by (simp add: decide_eq Let_def)
  qed
qed

text \<open>
  An identity that is not checked has no influence: with the HELO policy \<open>NoCheck\<close>, the action
  is the same whatever the HELO check found.
\<close>

lemma helo_no_check_no_influence:
  assumes "helo_reject (policy_cfg cfg) = RP_NoCheck"
  shows "decide D cfg helo mail_from ctx = decide D cfg helo' mail_from ctx"
  using helo_severity_NoCheck [OF assms, of "oc_result helo"]
    helo_severity_NoCheck [OF assms, of "oc_result helo'"]
  by (simp add: decide_eq Let_def responsible_result_def severity_order)

lemma helo_no_check_no_influence_example:
  "decide sample_viaspf (sample_config\<lparr>policy_cfg := default_policy_config\<lparr>helo_reject := RP_NoCheck\<rparr>\<rparr>)
     (outcome_permerror Helo) (outcome_permerror MailFrom) sample_context =
   decide sample_viaspf (sample_config\<lparr>policy_cfg := default_policy_config\<lparr>helo_reject := RP_NoCheck\<rparr>\<rparr>)
     \<lparr>oc_identity = Helo, oc_result = Spf_Fail [], oc_cause = None\<rparr> (outcome_permerror MailFrom) sample_context"
  by (rule helo_no_check_no_influence) simp

text \<open>
  C35: With the two error switches off, permanent and temporary errors of both identities let the
  message through under every policy, \<open>SpfNotPass\<close> included.
\<close>

theorem errors_pass_by_default:
  assumes "\<not> permerror_reject (policy_cfg cfg)" and "\<not> temperror_defer (policy_cfg cfg)"
    and "oc_result helo = Spf_Permerror \<or> oc_result helo = Spf_Temperror"
    and "oc_result mail_from = Spf_Permerror \<or> oc_result mail_from = Spf_Temperror"
  shows "action_severity (decide D cfg helo mail_from ctx) = Sev_None"
  using assms
  by (auto simp: action_severity_decide max_severity_None helo_severity_def mail_from_severity_def
      classify_severity_def)

lemma errors_pass_by_default_example:
  "action_severity (decide sample_viaspf
     (sample_config\<lparr>policy_cfg :=
        default_policy_config\<lparr>helo_reject := RP_SpfNotPass, mail_from_reject := RP_SpfNotPass\<rparr>\<rparr>)
     (outcome_permerror Helo) (outcome_permerror MailFrom) sample_context) = Sev_None"
  by (rule errors_pass_by_default)
     (simp_all add: default_policy_config_def outcome_permerror_def)

section \<open>Messages\<close>

text \<open>
  C15: A template that validation accepts is rendered as its grammar says, each placeholder by its
  value and everything else as it is, all at once, where no value has an opening brace. The five
  replacements one after the other then do not interfere.
\<close>

theorem render_by_grammar:
  assumes "config_valid parse_record cfg" and "values_brace_free D r ctx"
  shows "\<exists>ps tail. template_form (message_template (messages cfg) r) ps tail \<and>
    render_message D (messages cfg) r ctx =
      concat (map (subst_piece (hole_value D r ctx)) ps) @ tail \<and>
    tail_ok (render_message D (messages cfg) r ctx)"
proof -
  let ?t = "message_template (messages cfg) r"
  have "template_ok ''550 5.7.1 SPF check failed''"
    unfolding template_ok_def template_form_def
    by (rule exI [of _ "[]"]) (simp add: tail_ok_def)
  then have ok: "template_ok ?t"
    using assms(1) by (cases r) (simp_all add: config_valid_def message_list_def)
  then obtain ps tail where "template_form ?t ps tail" by (auto simp: template_ok_def)
  then show ?thesis
    using substitute_simultaneous [OF _ assms(2)] substitute_complete [OF ok assms(2)]
    by (auto simp: render_message_def)
qed

lemma render_by_grammar_example:
  "tail_ok (render_message sample_viaspf (messages sample_config) Spf_Softfail sample_context)"
proof -
  have valid: "config_valid sample_parse_record sample_config"
    using sample_load(1) [of "[]"] file_config.load_valid by blast
  have "values_brace_free sample_viaspf Spf_Softfail sample_context"
    by (simp add: values_brace_free_def sample_viaspf_def sample_context_def)
  from render_by_grammar [OF valid this] show ?thesis by blast
qed

text \<open>
  The default templates keep their reply codes whatever the request says: a rejection begins
  with 550 5.7.1, a deferral with 451 4.7.1.
\<close>

lemma default_reply_codes:
  "prefix (if r = Spf_Temperror then ''451 4.7.1 '' else ''550 5.7.1 '')
     (render_message D default_message_templates r ctx)"
proof -
  have "prefix (if r = Spf_Temperror then ''451 4.7.1 '' else ''550 5.7.1 '')
     (message_template default_message_templates r)"
    by (cases r) (simp_all add: default_message_templates_def message_defaults)
  then show ?thesis
    unfolding render_message_def by (rule reply.render_prefix) (simp split: if_split)
qed


end
