(* ===== verification/Error_Text.thy ===== *)
theory Error_Text
  imports Server
begin

text \<open>
  The texts of the program's errors: the \<open>Display\<close> implementations that \<open>thiserror\<close> derives from the
  \<open>#[error("...")]\<close> attributes, and \<open>str\<close>'s \<open>Debug\<close>, which they use for quoted values. The texts of
  I/O errors and of the errors of other crates are parameters, and so is the set of the non-ASCII
  characters that are printed as they are (the Unicode tables of \<open>core\<close>).
\<close>

section \<open>Debug of a string\<close>

fun code_point :: "string \<Rightarrow> nat" where
  "code_point [a] = byte a"
| "code_point [a, b] = (byte a - 192) * 64 + (byte b - 128)"
| "code_point [a, b, c] = (byte a - 224) * 4096 + (byte b - 128) * 64 + (byte c - 128)"
| "code_point [a, b, c, d] =
     (byte a - 240) * 262144 + (byte b - 128) * 4096 + (byte c - 128) * 64 + (byte d - 128)"
| "code_point _ = 0"

definition unicode_escape :: "string \<Rightarrow> string" where
  "unicode_escape c = [CHR 0x5C] @ ''u{'' @ show_radix 16 (code_point c) @ ''}''"

definition escape_debug :: "(string \<Rightarrow> bool) \<Rightarrow> string \<Rightarrow> string" where
  "escape_debug P c =
     (if c = [CHR 0x00] then [CHR 0x5C, CHR ''0'']
      else if c = [CHR 0x09] then [CHR 0x5C, CHR ''t'']
      else if c = [CHR 0x0D] then [CHR 0x5C, CHR ''r'']
      else if c = [CHR 0x0A] then [CHR 0x5C, CHR ''n'']
      else if c = [CHR 0x5C] \<or> c = [CHR 0x22] then [CHR 0x5C] @ c
      else if (case c of [a] \<Rightarrow> 32 \<le> byte a \<and> byte a < 127 | _ \<Rightarrow> P c) then c
      else unicode_escape c)"

definition debug_str :: "(string \<Rightarrow> bool) \<Rightarrow> string \<Rightarrow> string" where
  "debug_str P s = [CHR 0x22] @ concat (map (escape_debug P) (chars s)) @ [CHR 0x22]"

section \<open>The errors\<close>

fun show_request_parse_error :: "(string \<Rightarrow> bool) \<Rightarrow> request_parse_error \<Rightarrow> string" where
  "show_request_parse_error P (MalformedLine l) =
     ''malformed attribute line (missing '' @ [CHR 0x27] @ ''='' @ [CHR 0x27] @ ''): '' @ debug_str P l"
| "show_request_parse_error P EmptyRequest = ''empty request (no attribute lines before terminator)''"
| "show_request_parse_error P MissingClientAddress = ''client_address attribute is missing''"
| "show_request_parse_error P (InvalidClientAddress a) =
     ''client_address '' @ debug_str P a @ '' is not a valid IP address''"

fun show_proto_error :: "(string \<Rightarrow> bool) \<Rightarrow> (io_error \<Rightarrow> string) \<Rightarrow> proto_error \<Rightarrow> string" where
  "show_proto_error P show_io (Parse e) = show_request_parse_error P e"
| "show_proto_error P show_io (Io e) = ''io error: '' @ show_io e"

fun show_listen_addr_parse_error :: "(string \<Rightarrow> bool) \<Rightarrow> listen_addr_parse_error \<Rightarrow> string" where
  "show_listen_addr_parse_error P (MissingScheme s) =
     ''listen address '' @ debug_str P s @ '' has no '' @ [CHR 0x22] @ ''tcp:'' @ [CHR 0x22] @ '' or '' @
     [CHR 0x22] @ ''unix:'' @ [CHR 0x22] @ '' prefix''"
| "show_listen_addr_parse_error P (InvalidTcp s e) =
     ''invalid tcp listen address '' @ debug_str P s @ '': '' @ e"
| "show_listen_addr_parse_error P EmptyUnixPath = ''unix listen address has an empty path''"

fun show_config_error ::
  "(string \<Rightarrow> bool) \<Rightarrow> (io_error \<Rightarrow> string) \<Rightarrow> ('te \<Rightarrow> string) \<Rightarrow> ('ve \<Rightarrow> string) \<Rightarrow>
     ('te, 've) config_error \<Rightarrow> string"
where
  "show_config_error P show_io show_te show_ve (Config_Read path e) =
     ''failed to read config file '' @ path @ '': '' @ show_io e"
| "show_config_error P show_io show_te show_ve (Config_Parse path e) =
     ''failed to parse config file '' @ path @ '': '' @ show_te e"
| "show_config_error P show_io show_te show_ve SrsEnabledWithoutSecrets =
     ''srs.enabled is true but srs.secrets is empty''"
| "show_config_error P show_io show_te show_ve (InvalidOverrideRecord domain record e) =
     ''overrides.'' @ domain @ '': invalid SPF record '' @ debug_str P record @ '': '' @ show_ve e"
| "show_config_error P show_io show_te show_ve NoListenAddresses =
     ''no listen addresses configured (server.listen is empty)''"
| "show_config_error P show_io show_te show_ve (UnknownMessagePlaceholder name p) =
     ''message template '' @ debug_str P name @ '' references unknown placeholder {'' @ p @ ''}''"

fun show_whitelist_error ::
  "(string \<Rightarrow> bool) \<Rightarrow> (io_error \<Rightarrow> string) \<Rightarrow> ('pe \<Rightarrow> string) \<Rightarrow> 'pe whitelist_error \<Rightarrow> string"
where
  "show_whitelist_error P show_io show_pe (Whitelist_Read path e) =
     ''failed to read whitelist file '' @ path @ '': '' @ show_io e"
| "show_whitelist_error P show_io show_pe (UnrecognizedEntry path line entry) =
     ''whitelist file '' @ path @ '' line '' @ show_radix 10 line @ '': unrecognized entry '' @
     debug_str P entry @ '' (expected '' @ [CHR 0x22] @ ''ip:'' @ [CHR 0x22] @ '', '' @
     [CHR 0x22] @ ''helo:'' @ [CHR 0x22] @ '', '' @ [CHR 0x22] @ ''domain:'' @ [CHR 0x22] @
     '', or '' @ [CHR 0x22] @ ''ptr:'' @ [CHR 0x22] @ '' prefix)''"
| "show_whitelist_error P show_io show_pe (InvalidCidr path line v e) =
     ''whitelist file '' @ path @ '' line '' @ show_radix 10 line @ '': invalid CIDR '' @
     debug_str P v @ '': '' @ show_pe e"

fun show_app_state_error ::
  "(string \<Rightarrow> bool) \<Rightarrow> (io_error \<Rightarrow> string) \<Rightarrow> ('re \<Rightarrow> string) \<Rightarrow> ('pe \<Rightarrow> string) \<Rightarrow>
     ('re, 'pe) app_state_error \<Rightarrow> string"
where
  "show_app_state_error P show_io show_re show_pe (Resolver_Error e) =
     ''DNS resolver setup failed: '' @ show_re e"
| "show_app_state_error P show_io show_re show_pe (Whitelist_Error e) =
     ''loading whitelist: '' @ show_whitelist_error P show_io show_pe e"

section \<open>Quoted values are printable\<close>

definition printable :: "string \<Rightarrow> bool" where
  "printable s \<longleftrightarrow> list_all (\<lambda>b. 32 \<le> byte b \<and> byte b \<noteq> 127) s"

lemma printable_append [simp]: "printable (s @ t) \<longleftrightarrow> printable s \<and> printable t"
  by (simp add: printable_def)

lemma printable_show_radix: "2 \<le> r \<Longrightarrow> r \<le> 16 \<Longrightarrow> printable (show_radix r n)"
proof -
  have "list_all (\<lambda>b. 32 \<le> byte b \<and> byte b \<noteq> 127) ''0123456789abcdef:.''" by code_simp
  then have ip: "ip_char b \<Longrightarrow> 32 \<le> byte b \<and> byte b \<noteq> 127" for b
    unfolding ip_char_def list_all_iff by blast
  assume "2 \<le> r" and "r \<le> 16"
  then have "list_all ip_char (show_radix r n)" by (intro ip_char_show_radix)
  then show ?thesis unfolding printable_def by (rule list.pred_mono_strong) (rule ip)
qed

lemma printable_unicode_escape: "printable (unicode_escape c)"
proof -
  have "printable [CHR 0x5C]" "printable ''u{''" "printable ''}''"
    by (simp_all add: printable_def byte_def)
  then show ?thesis by (simp add: unicode_escape_def printable_show_radix del: append.simps)
qed

lemma printable_escape_debug:
  assumes "c \<in> set (chars s)"
  shows "printable (escape_debug P c)"
proof -
  have "printable c" if "case c of [a] \<Rightarrow> 32 \<le> byte a \<and> byte a < 127 | _ \<Rightarrow> P c"
  proof -
    from assms obtain ok where ok: "(ok, c) \<in> set (utf8_chunks s)" by (auto simp: chars_def)
    have "32 \<le> byte b \<and> byte b \<noteq> 127" if b: "b \<in> set c" for b
    proof (cases "byte b < 128")
      case True
      with utf8_chunk_ascii [OF ok b] have "c = [b]" by simp
      with \<open>case c of [a] \<Rightarrow> _ a | _ \<Rightarrow> P c\<close> show ?thesis by simp
    next
      case False
      then show ?thesis by simp
    qed
    then show ?thesis by (simp add: printable_def list_all_iff)
  qed
  moreover have "printable [CHR 0x5C, CHR ''0'']" "printable [CHR 0x5C, CHR ''t'']" "printable [CHR 0x5C, CHR ''r'']"
      "printable [CHR 0x5C, CHR ''n'']" "printable ([CHR 0x5C] @ [CHR 0x5C])" "printable ([CHR 0x5C] @ [CHR 0x22])"
    by (simp_all add: printable_def byte_def)
  ultimately show ?thesis
    by (simp add: escape_debug_def printable_unicode_escape del: append.simps)
qed

lemma printable_debug_str: "printable (debug_str P s)"
proof -
  have "printable (concat (map (escape_debug P) (chars s)))"
    using printable_escape_debug [of _ s P] by (auto simp: printable_def list_all_iff)
  then show ?thesis by (simp add: debug_str_def) (simp add: printable_def byte_def)
qed

lemma printable_request_parse_error: "printable (show_request_parse_error P e)"
  using printable_debug_str [of P]
  by (cases e) (simp_all add: printable_def byte_def)

end
