(* ===== verification/Text_Valid.thy ===== *)
theory Text_Valid
  imports Server
begin

text \<open>
  Every string of the model is the content of a Rust \<open>String\<close>: from a request that the codec has
  decoded from any bytes, by SRS unwrapping, the templates and the \<open>Received-SPF\<close> header to the
  response and the line for syslog, the bytes stay well-formed UTF-8. The code relies on this by
  its types; here it is a property of the byte strings that stand for them.
\<close>

section \<open>Requests\<close>

definition request_text :: "policy_request \<Rightarrow> bool" where
  "request_text req \<longleftrightarrow> (\<forall>k v. attribute req k = Some v \<longrightarrow> utf8_valid v \<and> LF \<notin> set v)"

text \<open>A literal of the source is ASCII; this decides it.\<close>

lemmas literal = is_ascii_def byte_def

lemma attribute_text:
  assumes "from_lines ls = Ok req" and "\<And>l. l \<in> set ls \<Longrightarrow> utf8_valid l"
    and "attribute req k = Some v"
  shows "utf8_valid v"
proof -
  have "(k, v) \<in> set (attribute_list ls)"
    using assms(3) attribute_from_lines [OF assms(1)] by (auto dest: map_of_SomeD)
  then obtain l where "l \<in> set ls" "l = k @ CHR ''='' # v" by (auto dest: attribute_list_sound)
  with assms(2) [of l] show ?thesis by (simp add: utf8_valid_split literal)
qed

lemma decode_text:
  assumes "decode b = (Ok (Some req), b')"
  shows "request_text req"
proof -
  obtain i where i: "find_double_newline b = Some i" using assms by (rule decode_found) simp
  let ?ls = "map from_utf8_lossy (filter (\<lambda>l. l \<noteq> []) (split_on LF (take i b)))"
  have "from_lines ?ls = Ok req"
    using assms i by (auto simp: decode_def Let_def and_then_Ok_iff)
  then have "utf8_valid v" if "attribute req k = Some v" for k v
    by (rule attribute_text [OF _ _ that]) (auto simp: utf8_valid_lossy)
  with decode_attribute_no_LF [OF assms] show ?thesis by (simp add: request_text_def)
qed

lemma drain_text: "drain b = (reqs, e, rest) \<Longrightarrow> req \<in> set reqs \<Longrightarrow> request_text req"
proof (induction b arbitrary: reqs rule: drain.induct)
  case (1 buf)
  obtain r b1 where d: "decode buf = (r, b1)" by (cases "decode buf")
  consider (found) q where "r = Ok (Some q)" | (other) "\<And>q. r \<noteq> Ok (Some q)" by blast
  then show ?case
  proof cases
    case found
    with d have dq: "decode buf = (Ok (Some q), b1)" by simp
    obtain reqs' where rest: "drain b1 = (reqs', e, rest)" and reqs: "reqs = q # reqs'"
      using "1.prems"(1) dq by (auto simp: drain.simps [of buf] split: prod.splits)
    with "1.IH" [OF dq [symmetric] refl refl rest] decode_text [OF dq] "1.prems"(2) show ?thesis by auto
  next
    case other
    with d "1.prems" show ?thesis
      by (cases r) (auto simp: drain.simps [of buf] split: option.splits prod.splits)
  qed
qed

lemma request_text_fields:
  assumes "request_text req"
  shows "helo_name req = Some v \<Longrightarrow> utf8_valid v" and "sender req = Some v \<Longrightarrow> utf8_valid v"
    and "recipient req = Some v \<Longrightarrow> utf8_valid v" and "reverse_client_name req = Some v \<Longrightarrow> utf8_valid v"
  using assms attribute_fields unfolding request_text_def by metis+

section \<open>Responses\<close>

text \<open>What the configuration and the displays of \<open>viaspf\<close> hand over are strings of Rust, too.\<close>

definition display_text :: "('x, 'm, 'c, 'z) spf_display_scheme \<Rightarrow> bool" where
  "display_text D \<longleftrightarrow>
     (\<forall>r. utf8_valid (show_result D r)) \<and> (\<forall>m. utf8_valid (show_mechanism D m)) \<and>
     (\<forall>c. utf8_valid (show_error_cause D c))"

definition config_text :: "'net config \<Rightarrow> bool" where
  "config_text cfg \<longleftrightarrow>
     list_all (\<lambda>p. utf8_valid (snd p)) (message_list (messages cfg)) \<and>
     (case authserv_id (header_cfg cfg) of None \<Rightarrow> True | Some i \<Rightarrow> utf8_valid i)"

definition context_text :: "decision_context \<Rightarrow> bool" where
  "context_text ctx \<longleftrightarrow>
     utf8_valid (ctx_sender ctx) \<and> utf8_valid (ctx_helo ctx) \<and> utf8_valid (ctx_recipient ctx)"

lemma show_ip_text [simp]: "utf8_valid (show_ip ip)"
proof -
  have "is_ascii c" if "ip_char c" for c using that by (auto simp: ip_char_def literal)
  then show ?thesis
    using ip_char_show_ip [of ip] by (intro utf8_valid_ascii) (auto simp: list_all_iff)
qed

lemma render_message_text:
  assumes "config_text cfg" and "display_text D" and "context_text ctx"
  shows "utf8_valid (render_message D (messages cfg) r ctx)"
proof -
  have "utf8_valid (message_template (messages cfg) r)"
    using assms(1) by (cases r) (simp_all add: config_text_def message_list_def utf8_valid_ascii literal)
  then show ?thesis
    using assms(2,3)
    by (auto simp: render_message_def substitute_def display_text_def context_text_def literal
        intro!: utf8_valid_replace_all)
qed

lemma describe_cause_text:
  assumes "display_text D" and "utf8_valid mail_from"
  shows "utf8_valid (describe_cause D outcome mail_from ip)"
proof (cases "oc_cause outcome")
  case None
  with assms(2) show ?thesis by (auto simp: describe_cause_def literal intro!: utf8_valid_append)
next
  case (Some cause)
  with assms show ?thesis
    by (cases cause)
       (auto simp: describe_cause_def describe_error_cause_def display_text_def literal intro!: utf8_valid_append)
qed

lemma recipient_domain_text:
  assumes "utf8_valid rcpt" and "case authserv of None \<Rightarrow> True | Some i \<Rightarrow> utf8_valid i"
  shows "utf8_valid (recipient_domain rcpt authserv)"
proof (cases authserv)
  case None
  have "is_ascii (CHR ''@'')" by (simp add: literal)
  then have "utf8_valid d" if "rsplit_once (CHR ''@'') rcpt = Some (l, d)" for l d
    using utf8_valid_parts(2) [OF _ assms(1) that] by blast
  with None show ?thesis by (simp add: recipient_domain_def literal split: option.split)
qed (use assms(2) in \<open>simp add: recipient_domain_def\<close>)

lemma build_received_spf_text:
  assumes "display_text D" and "utf8_valid mail_from" and "utf8_valid helo" and "utf8_valid rcpt"
    and "case authserv_id cfg of None \<Rightarrow> True | Some i \<Rightarrow> utf8_valid i"
  shows "utf8_valid (build_received_spf D outcome ip mail_from helo rcpt cfg)"
  using assms(1-3) recipient_domain_text [OF assms(4,5)] describe_cause_text [OF assms(1,2), of outcome ip]
  unfolding build_received_spf_def Let_def
  by (intro utf8_valid_append) (simp_all add: display_text_def literal split: identity.split)

lemma decide_utf8:
  assumes "config_text cfg" and "display_text D" and "context_text ctx"
  shows "utf8_valid (action_text (decide D cfg helo mail_from ctx))"
proof -
  have "utf8_valid (build_received_spf D mail_from (ctx_ip ctx) (ctx_sender ctx) (ctx_helo ctx)
      (ctx_recipient ctx) (header_cfg cfg))"
    using assms by (intro build_received_spf_text) (simp_all add: config_text_def context_text_def)
  then show ?thesis
    using render_message_text [OF assms]
    by (simp add: decide_eq Let_def literal split: severity.split header_mode.split)
qed

section \<open>SRS and syslog\<close>

lemma effective_sender_text:
  assumes "effective_sender clk C cfg raw = Some sndr" and "utf8_valid raw"
  shows "utf8_valid sndr"
proof -
  from assms(1) obtain u where u: "try_unwrap clk C raw cfg = Some u"
    and sndr: "sndr = (case u of Valid original \<Rightarrow> original | _ \<Rightarrow> raw)"
    by (auto simp: effective_sender_def)
  show ?thesis
  proof (cases u)
    case (Valid original)
    with u sndr have "try_unwrap clk C raw cfg = Some (Valid sndr)" by auto
    then obtain h t d l rw where "srs_form raw h t d l rw" "sndr = l @ ''@'' @ d"
      by (auto simp: try_unwrap_Valid_iff)
    with assms(2) show ?thesis
      by (simp add: srs_form_def utf8_valid_split literal)
  qed (use sndr assms(2) in simp_all)
qed

lemma sanitize_text: "utf8_valid s \<Longrightarrow> utf8_valid (sanitize s)"
  by (simp add: utf8_valid_def [of "sanitize s"] chunks_sanitize list_all_iff)

lemma log_message_text:
  assumes "display_text D" and "utf8_valid sndr" and "utf8_valid helo"
    and "case cname of None \<Rightarrow> True | Some n \<Rightarrow> utf8_valid n" and "utf8_valid (action_text act)"
  shows "utf8_valid (log_message D ip cname helo sndr hr mr act)"
proof -
  have "utf8_valid (case non_empty cname of None \<Rightarrow> ''unknown'' | Some n \<Rightarrow> n)"
    using assms(4) by (auto simp: non_empty_def literal split: option.split)
  moreover have "utf8_valid (fst (describe_action act))"
    "case snd (describe_action act) of None \<Rightarrow> True | Some d \<Rightarrow> utf8_valid d"
    using assms(5) by (cases act; simp add: literal)+
  ultimately show ?thesis
    using assms(1-3)
    unfolding log_message_def Let_def case_prod_beta
    by (intro utf8_valid_append) (auto simp: display_text_def literal intro: utf8_valid_append split: option.splits)
qed

section \<open>The handler\<close>

text \<open>The answer is text, and so is the line that it adds to syslog.\<close>

lemma handle_text:
  assumes "config_text (config_seen vw)" and "display_text V" and "request_text req"
    and "handle_request_at N V C clk vw ev req slog = Some (act, slog')"
  shows "utf8_valid (action_text act) \<and>
    (\<exists>ms. syslog_calls slog' = syslog_calls slog @ map Syslog_Mail_Info ms \<and> list_all utf8_valid ms)"
proof (cases rule: handle_cases [of N vw req V C clk ev slog])
  case dunno
  with assms(4) show ?thesis by (auto intro: exI [of _ "[]"])
next
  case (evaluated helo raw ip)
  from assms(4) obtain sndr where sndr: "effective_sender clk C (srs_cfg (config_seen vw)) raw = Some sndr"
    and act: "act = decide V (config_seen vw) (check_helo V ev ip helo)
      (check_mail_from V ev ip sndr helo) (request_context req ip sndr helo)"
    and slog': "slog' = log_evaluated_spf V ip (reverse_client_name req) helo sndr
      (oc_result (check_helo V ev ip helo)) (oc_result (check_mail_from V ev ip sndr helo)) act slog"
    by (auto simp: handle_evaluated [OF evaluated] Let_def split: option.splits)
  note fields = request_text_fields [OF assms(3)]
  have helo: "utf8_valid helo" and "utf8_valid raw"
    using evaluated fields by (auto simp: evaluated_def)
  then have sender: "utf8_valid sndr" using effective_sender_text [OF sndr] by simp
  have "context_text (request_context req ip sndr helo)"
    using helo sender fields(3)
    by (auto simp: context_text_def request_context_def split: option.split)
  then have valid: "utf8_valid (action_text act)" unfolding act by (rule decide_utf8 [OF assms(1,2)])
  have "case reverse_client_name req of None \<Rightarrow> True | Some n \<Rightarrow> utf8_valid n"
    using fields(4) by (simp split: option.split)
  from log_message_text [OF assms(2) sender helo this valid] valid show ?thesis
    unfolding slog' by (auto simp: log_evaluated_calls sanitize_text intro!: exI [of _ "[sanitize _]"])
qed

lemma show_action_text: "utf8_valid (action_text act) \<Longrightarrow> utf8_valid (show_action act)"
  by (cases act) (simp_all add: literal)

end
