(* ===== verification/Server_Properties.thy ===== *)
theory Server_Properties
  imports Sample_Deployment Error_Text Text_Valid
begin

text \<open>
  Properties of the request handler, of the connection loop and of the listeners: which requests
  are evaluated, what a connection's client reads, what reaches syslog, and when the server ends.
\<close>

section \<open>Requests\<close>

text \<open>
  C4: A request is rejected exactly where it names a HELO identity, a sender and a parsable client
  address, is not exempt, and the policy of one of the two identities rejects the result of its
  check; the MAIL FROM check is made of the unwrapped sender. No other request is ever rejected.
\<close>

theorem rejected_exactly:
  "(\<exists>msg slog'. handle_request_at N V C clk vw ev req slog = Some (Reject msg, slog')) \<longleftrightarrow>
   (\<exists>helo raw ip sndr. evaluated N vw req helo raw ip \<and>
      effective_sender clk C (srs_cfg (config_seen vw)) raw = Some sndr \<and>
      (let pol = policy_cfg (config_seen vw)
       in rejects (helo_reject pol) (oc_result (check_helo V ev ip helo)) (permerror_reject pol) \<or>
          rejects (mail_from_reject pol) (oc_result (check_mail_from V ev ip sndr helo)) (permerror_reject pol)))"
proof (cases rule: handle_cases [of N vw req V C clk ev slog])
  case dunno
  then show ?thesis by simp
next
  case (evaluated helo raw ip)
  show ?thesis
  proof (cases "effective_sender clk C (srs_cfg (config_seen vw)) raw")
    case None
    with evaluated show ?thesis
      by (auto simp: handle_evaluated [OF evaluated] dest: evaluated_unique [OF evaluated])
  next
    case (Some sndr)
    let ?act = "decide V (config_seen vw) (check_helo V ev ip helo) (check_mail_from V ev ip sndr helo)
      (request_context req ip sndr helo)"
    have "(\<exists>msg. ?act = Reject msg) \<longleftrightarrow>
      (let pol = policy_cfg (config_seen vw)
       in rejects (helo_reject pol) (oc_result (check_helo V ev ip helo)) (permerror_reject pol) \<or>
          rejects (mail_from_reject pol) (oc_result (check_mail_from V ev ip sndr helo)) (permerror_reject pol))"
      unfolding decide_Reject_iff Let_def ..
    moreover have "(\<exists>msg slog'. handle_request_at N V C clk vw ev req slog = Some (Reject msg, slog')) \<longleftrightarrow>
        (\<exists>msg. ?act = Reject msg)"
      by (auto simp: handle_evaluated [OF evaluated] Some Let_def)
    moreover have "(\<exists>helo' raw' ip' sndr'. evaluated N vw req helo' raw' ip' \<and> Q helo' raw' ip' sndr') \<longleftrightarrow>
        (\<exists>sndr'. Q helo raw ip sndr')" for Q :: "string \<Rightarrow> string \<Rightarrow> ip_addr \<Rightarrow> string \<Rightarrow> bool"
      using evaluated evaluated_unique [OF evaluated] by blast
    ultimately show ?thesis using Some by simp
  qed
qed

text \<open>
  Exemptions are exactly the documented ones: the client address is in \<open>skip.addresses\<close> or
  \<open>relay.trusted_relays\<close>, or SASL authentication is present and exempt, or the whitelist exempts
  the client, its HELO name, or the domain after the last at sign of the sender as received.
\<close>

lemma skipped_exactly:
  "should_skip N cfg wl req ip helo sndr \<noteq> None \<longleftrightarrow>
     cidr_contains N (addresses (skip_cfg cfg)) ip \<or>
     cidr_contains N (trusted_relays (relay_cfg cfg)) ip \<or>
     exempt_sasl_authenticated (relay_cfg cfg) \<and> (\<exists>u. sasl_username req = Some u \<and> u \<noteq> []) \<or>
     exempt N wl ip helo (case rsplit_once (CHR ''@'') sndr of None \<Rightarrow> None | Some (_, d) \<Rightarrow> Some d)
       (reverse_client_name req)"
  unfolding matches_exempt [symmetric]
  by (auto simp: should_skip_def sasl_exempt_def mail_from_domain_def split: option.splits)

text \<open>
  C17: With a clock after the epoch every request is answered, and syslog gets exactly one more
  line for each request that is evaluated and none otherwise; the line is printable: no byte of it
  is a control character, whatever the request contains.
\<close>

theorem answered_and_logged:
  "case handle_request_at N V C (Some secs) vw ev req slog of
     None \<Rightarrow> False
   | Some (act, slog') \<Rightarrow>
       if \<exists>helo raw ip. evaluated N vw req helo raw ip
       then (\<exists>line. slog' = slog\<lparr>syslog_calls := syslog_calls slog @ [Syslog_Mail_Info line]\<rparr> \<and>
              list_all (\<lambda>b. 32 \<le> byte b \<and> byte b \<noteq> 127) line)
       else slog' = slog \<and> act = Dunno"
proof -
  obtain act slog' where r: "handle_request_at N V C (Some secs) vw ev req slog = Some (act, slog')"
    using handle_total [of N V C secs vw ev req slog] by auto
  show ?thesis
  proof (cases rule: handle_log [OF r])
    case 1
    then have "\<not> (\<exists>helo raw ip. evaluated N vw req helo raw ip)" by blast
    with 1(1,2) r show ?thesis by (simp only: option.case prod.case if_False simp_thms)
  next
    case (2 helo raw ip msg)
    have "list_all (\<lambda>b. 32 \<le> byte b \<and> byte b \<noteq> 127) (sanitize msg)"
      using sanitize_printable unfolding list_all_iff by blast
    with 2 r show ?thesis by auto
  qed
qed



section \<open>Connections\<close>



text \<open>
  A connection that has ended, by shutdown, the client, a malformed request or a failed write,
  stays ended: no later event changes its result, its output or the log. And the output and the
  log of a connection only ever grow.
\<close>

lemma connection_ends:
  "case handle_connection N V C ev es out slog of (en, out', slog') \<Rightarrow>
     prefix out out' \<and> prefix (syslog_calls slog) (syslog_calls slog') \<and>
     (en = Conn_Open \<or> handle_connection N V C ev (es @ fs) out slog = (en, out', slog'))"
proof -
  obtain en out' slog' where r: "handle_connection N V C ev es out slog = (en, out', slog')"
    by (cases "handle_connection N V C ev es out slog")
  show ?thesis
    using handle_connection_grows [OF r] handle_connection_over [OF r] by (simp add: r) blast
qed


section \<open>Listeners\<close>

text \<open>
  Where every listener binds, the server returns, without an error, exactly when all accept
  loops were cancelled.
\<close>

lemma run_returns_on_shutdown:
  assumes "all_bind S (listen (server_cfg cfg)) fs"
  shows "run S cfg events fs =
    (if list_all (\<lambda>l. Listener_Cancelled \<in> set (events l)) (listen (server_cfg cfg)) then Some (Ok ()) else None)"
proof -
  let ?ts = "map (\<lambda>l. serving_task (accept_loop (events l))) (listen (server_cfg cfg))"
  have "run S cfg events fs = join_tasks ?ts"
    using spawn_listeners_bound [OF assms, of events] by (simp add: run_def)
  moreover have "join_tasks ?ts = (if list_all (\<lambda>l. Listener_Cancelled \<in> set (events l)) ls then Some (Ok ()) else None)"
    if "?ts = map (\<lambda>l. serving_task (accept_loop (events l))) ls" for ls
    unfolding that
    by (induction ls) (auto simp: serving_task_def accept_loop_eq)
  ultimately show ?thesis by simp
qed

definition sample_sockets :: "unit os_sockets" where
  "sample_sockets =
     \<lparr>tcp_bind = (\<lambda>a fs. if a = SocketV4 (Ipv4Addr 0 0 0 0) 25 then Err (Os_Error 13) else Ok fs),
      unix_bind = (\<lambda>p fs. Ok fs), remove_file = (\<lambda>p fs. fs)\<rparr>"

lemma run_returns_on_shutdown_example:
  "run sample_sockets sample_config (\<lambda>l. [Accepted (0 :: nat), Listener_Cancelled]) () = Some (Ok ())"
  using run_returns_on_shutdown [of sample_sockets sample_config "()" "\<lambda>l. [Accepted (0 :: nat), Listener_Cancelled]"]
  by (simp add: sample_config_def config_defaults sample_sockets_def)

text \<open>
  C39: The server reports the listeners' failures in the order of the configuration only: a
  listener that could not bind goes unreported for as long as an earlier one is serving.
\<close>

theorem bind_failure_masked:
  assumes "listen (server_cfg cfg) = l # ls" and "all_bind S [l] fs"
    and "Listener_Cancelled \<notin> set (events l)"
  shows "run S cfg events fs = None"
proof -
  have "fst (run_listener S (l, events l) fs) = serving_task (accept_loop (events l))"
    using spawn_listeners_bound [OF assms(2), of events] by (simp split: prod.splits)
  moreover have "serving_task (accept_loop (events l)) = Task_Serving (fst (accept_loop (events l)))"
    using assms(3) by (simp add: serving_task_def accept_loop_eq)
  ultimately obtain cs fs1 where "run_listener S (l, events l) fs = (Task_Serving cs, fs1)"
    by (cases "run_listener S (l, events l) fs") simp
  then show ?thesis
    using assms(1) by (simp add: run_def split: prod.split)
qed

lemma bind_failure_masked_example:
  "run sample_sockets (sample_config\<lparr>server_cfg := \<lparr>listen = [Unix ''/run/a'', Tcp (SocketV4 (Ipv4Addr 0 0 0 0) 25)], test_only = False\<rparr>\<rparr>)
     (\<lambda>l. [] :: nat accept_event list) () = None"
  by (rule bind_failure_masked [where l = "Unix ''/run/a''"]) (simp_all add: sample_sockets_def)

end
