(* ===== verification/Shutdown.thy ===== *)
theory Shutdown
  imports Daemon
begin

text \<open>
  The tasks of the running daemon, from the spawning of the listeners to the return of \<open>main\<close>
  (\<open>run\<close>, \<open>run_tcp_listener\<close>, \<open>run_unix_listener\<close> and \<open>handle_connection\<close> of
  \<open>rspf/src/server.rs\<close>, and the signal task of \<open>rspfd/src/main.rs\<close>).

  A step is one turn of one task, so the steps of different tasks interleave in every order. A
  \<open>tokio::select!\<close> with two ready branches takes either of them: a listener may still accept, and
  a connection read one more request, after the cancellation. An accept that failed leaves
  everything as it is and is no step. When \<open>main\<close> returns the runtime is
  dropped and with it every task, so nothing happens after the result is there. A request is
  answered at any view of the shared state in a given set \<open>W\<close>: that of the start where there are no
  reloads, or the views that \<open>Daemon\<close> shows to be possible with them.
\<close>

section \<open>The tasks\<close>

datatype conn_phase =
    CP_Select
  | CP_Answering policy_request

text \<open>
  A listener's task is \<open>None\<close> until it has tried to bind; \<open>Task_Serving\<close> lists its connections.
  The requests read and the responses written, by connection, are recorded.
\<close>

record serving =
  sv_cancelled :: bool
  sv_listeners :: "nat task option list"
  sv_next :: nat
  sv_conns :: "nat \<rightharpoonup> conn_phase"
  sv_joined :: nat
  sv_result :: "(run_error, unit) res option"
  sv_log :: syslog
  sv_read :: "nat \<Rightarrow> policy_request list"
  sv_sent :: "nat \<Rightarrow> action list"

definition serve_start :: "'net config \<Rightarrow> syslog \<Rightarrow> serving" where
  "serve_start cfg slog =
     \<lparr>sv_cancelled = False, sv_listeners = replicate (length (listen (server_cfg cfg))) None, sv_next = 0,
      sv_conns = Map.empty, sv_joined = 0, sv_result = None, sv_log = slog,
      sv_read = (\<lambda>_. []), sv_sent = (\<lambda>_. [])\<rparr>"

text \<open>What the signal task does, once, on the first SIGTERM or SIGINT.\<close>

definition cancel :: "serving \<Rightarrow> serving" where
  "cancel w = w\<lparr>sv_cancelled := True\<rparr>"

text \<open>The end of a connection's task.\<close>

definition end_conn :: "nat \<Rightarrow> serving \<Rightarrow> serving" where
  "end_conn c w = w\<lparr>sv_conns := (sv_conns w)(c := None)\<rparr>"

definition end_listener :: "nat \<Rightarrow> nat task \<Rightarrow> serving \<Rightarrow> serving" where
  "end_listener i t w = w\<lparr>sv_listeners := (sv_listeners w)[i := Some t]\<rparr>"

inductive serve_step ::
  "('net, 'pe) ipnet \<Rightarrow> ('x, 'm, 'c, 's, 'd, 'l) viaspf \<Rightarrow> crypto \<Rightarrow>
     ('net view \<Rightarrow> bool) \<Rightarrow> 'l spf_evaluator \<Rightarrow> serving \<Rightarrow> serving \<Rightarrow> bool"
  for N :: "('net, 'pe) ipnet" and V :: "('x, 'm, 'c, 's, 'd, 'l) viaspf"
    and C :: crypto and W :: "'net view \<Rightarrow> bool" and ev :: "'l spf_evaluator"
where
  signalled:
    "sv_result w = None \<Longrightarrow> serve_step N V C W ev w (cancel w)"
| bound:
    "sv_result w = None \<Longrightarrow> i < length (sv_listeners w) \<Longrightarrow> sv_listeners w ! i = None \<Longrightarrow>
     serve_step N V C W ev w (end_listener i (Task_Serving []) w)"
| bind_failed:
    "sv_result w = None \<Longrightarrow> i < length (sv_listeners w) \<Longrightarrow> sv_listeners w ! i = None \<Longrightarrow>
     serve_step N V C W ev w (end_listener i (Task_Failed e) w)"
| accept_one:
    "sv_result w = None \<Longrightarrow> i < length (sv_listeners w) \<Longrightarrow>
     sv_listeners w ! i = Some (Task_Serving cs) \<Longrightarrow>
     serve_step N V C W ev w
       ((end_listener i (Task_Serving (cs @ [sv_next w])) w)
          \<lparr>sv_next := Suc (sv_next w), sv_conns := (sv_conns w)(sv_next w \<mapsto> CP_Select)\<rparr>)"
| listener_stopped:
    "sv_result w = None \<Longrightarrow> i < length (sv_listeners w) \<Longrightarrow>
     sv_listeners w ! i = Some (Task_Serving cs) \<Longrightarrow> sv_cancelled w \<Longrightarrow>
     serve_step N V C W ev w (end_listener i (Task_Returned cs) w)"
| request_read:
    "sv_result w = None \<Longrightarrow> sv_conns w c = Some CP_Select \<Longrightarrow>
     serve_step N V C W ev w
       (w\<lparr>sv_conns := (sv_conns w)(c \<mapsto> CP_Answering req), sv_read := (sv_read w)(c := sv_read w c @ [req])\<rparr>)"
| conn_stopped:
    "sv_result w = None \<Longrightarrow> sv_conns w c = Some CP_Select \<Longrightarrow> sv_cancelled w \<Longrightarrow>
     serve_step N V C W ev w (end_conn c w)"
| conn_closed:
    "sv_result w = None \<Longrightarrow> sv_conns w c = Some CP_Select \<Longrightarrow>
     serve_step N V C W ev w (end_conn c w)"
| answer_written:
    "sv_result w = None \<Longrightarrow> sv_conns w c = Some (CP_Answering req) \<Longrightarrow>
     W vw \<Longrightarrow> handle_request_at N V C clk vw ev req (sv_log w) = Some (act, slog) \<Longrightarrow>
     serve_step N V C W ev w
       (w\<lparr>sv_conns := (sv_conns w)(c \<mapsto> CP_Select), sv_log := slog, sv_sent := (sv_sent w)(c := sv_sent w c @ [act])\<rparr>)"
| write_failed:
    "sv_result w = None \<Longrightarrow> sv_conns w c = Some (CP_Answering req) \<Longrightarrow>
     W vw \<Longrightarrow> handle_request_at N V C clk vw ev req (sv_log w) = Some (act, slog) \<Longrightarrow>
     serve_step N V C W ev w ((end_conn c w)\<lparr>sv_log := slog\<rparr>)"
| conn_panicked:
    "sv_result w = None \<Longrightarrow> sv_conns w c = Some (CP_Answering req) \<Longrightarrow>
     W vw \<Longrightarrow> handle_request_at N V C clk vw ev req (sv_log w) = None \<Longrightarrow>
     serve_step N V C W ev w (end_conn c w)"
| listener_joined:
    "sv_result w = None \<Longrightarrow> sv_joined w < length (sv_listeners w) \<Longrightarrow>
     sv_listeners w ! sv_joined w = Some (Task_Returned cs) \<Longrightarrow>
     serve_step N V C W ev w (w\<lparr>sv_joined := Suc (sv_joined w)\<rparr>)"
| join_failed:
    "sv_result w = None \<Longrightarrow> sv_joined w < length (sv_listeners w) \<Longrightarrow>
     sv_listeners w ! sv_joined w = Some (Task_Failed e) \<Longrightarrow>
     serve_step N V C W ev w (w\<lparr>sv_result := Some (Err (Run_Io e))\<rparr>)"
| all_joined:
    "sv_result w = None \<Longrightarrow> sv_joined w = length (sv_listeners w) \<Longrightarrow>
     serve_step N V C W ev w (w\<lparr>sv_result := Some (Ok ())\<rparr>)"

inductive_cases serve_step_cases: "serve_step N V C W ev w w'"

definition served_to ::
  "('net, 'pe) ipnet \<Rightarrow> ('x, 'm, 'c, 's, 'd, 'l) viaspf \<Rightarrow> crypto \<Rightarrow>
     ('net view \<Rightarrow> bool) \<Rightarrow> 'l spf_evaluator \<Rightarrow> serving \<Rightarrow> serving \<Rightarrow> bool"
where
  "served_to N V C W ev = (serve_step N V C W ev)\<^sup>*\<^sup>*"

lemma served_to_refl [intro]: "served_to N V C W ev w w"
  by (simp add: served_to_def)

lemma served_to_step: "serve_step N V C W ev w w' \<Longrightarrow> served_to N V C W ev w' w'' \<Longrightarrow> served_to N V C W ev w w''"
  unfolding served_to_def by (rule converse_rtranclp_into_rtranclp)

lemma served_to_trans:
  "served_to N V C W ev w w' \<Longrightarrow> served_to N V C W ev w' w'' \<Longrightarrow> served_to N V C W ev w w''"
  unfolding served_to_def by (rule rtranclp_trans)

text \<open>After the return of \<open>main\<close> there is no step.\<close>

lemma no_step_after_return: "sv_result w \<noteq> None \<Longrightarrow> \<not> serve_step N V C W ev w w'"
  by (auto elim: serve_step_cases)

lemma served_after_return: "sv_result w \<noteq> None \<Longrightarrow> served_to N V C W ev w w' \<Longrightarrow> w' = w"
  unfolding served_to_def by (erule converse_rtranclpE) (simp_all add: no_step_after_return)

section \<open>Invariants\<close>

text \<open>
  The listeners are awaited in order, and only the cancellation makes one return; \<open>main\<close> has the
  result that the awaiting of the tasks gives.
\<close>

definition join_inv :: "serving \<Rightarrow> bool" where
  "join_inv w \<longleftrightarrow>
     sv_joined w \<le> length (sv_listeners w) \<and>
     (\<forall>i < sv_joined w. \<exists>cs. sv_listeners w ! i = Some (Task_Returned cs)) \<and>
     (\<forall>t \<in> set (sv_listeners w). \<forall>cs. t = Some (Task_Returned cs) \<longrightarrow> sv_cancelled w) \<and>
     (\<forall>r. sv_result w = Some r \<longrightarrow>
        (r = Ok () \<and> sv_joined w = length (sv_listeners w)) \<or>
        (\<exists>e. r = Err (Run_Io e) \<and> sv_joined w < length (sv_listeners w) \<and>
           sv_listeners w ! sv_joined w = Some (Task_Failed e)))"

lemma join_inv_start: "join_inv (serve_start cfg slog)"
  by (auto simp: join_inv_def serve_start_def)

text \<open>A listener's task that has ended is not changed any more.\<close>

lemma join_inv_listener:
  assumes "join_inv w" and "sv_result w = None" and "i < length (sv_listeners w)"
    and "\<And>cs. sv_listeners w ! i \<noteq> Some (Task_Returned cs)"
    and "\<And>cs. t = Task_Returned cs \<Longrightarrow> sv_cancelled w"
  shows "join_inv (end_listener i t w)"
  using assms
  by (fastforce simp: join_inv_def end_listener_def nth_list_update dest!: set_update_subset_insert [THEN subsetD])

lemma join_inv_step:
  assumes "join_inv w" and "serve_step N V C W ev w w'"
  shows "join_inv w'"
  using assms(2,1)
proof (cases rule: serve_step.cases)
  case (bound i)
  with assms(1) show ?thesis by (auto intro: join_inv_listener)
next
  case (bind_failed i e)
  with assms(1) show ?thesis by (auto intro: join_inv_listener)
next
  case (accept_one i cs)
  with assms(1) have "join_inv (end_listener i (Task_Serving (cs @ [sv_next w])) w)"
    by (auto intro: join_inv_listener)
  then show ?thesis unfolding accept_one by (simp add: join_inv_def)
next
  case (listener_stopped i cs)
  with assms(1) show ?thesis by (auto intro: join_inv_listener)
next
  case (listener_joined cs)
  with assms(1) show ?thesis by (auto simp: join_inv_def less_Suc_eq)
qed (simp_all add: join_inv_def end_conn_def cancel_def)

text \<open>
  On each connection the responses written are the handler's, one for each request read and in
  that order; at most one request, the last, is not answered yet.
\<close>

definition answered_by ::
  "('net, 'pe) ipnet \<Rightarrow> ('x, 'm, 'c, 's, 'd, 'l) viaspf \<Rightarrow> crypto \<Rightarrow>
     ('net view \<Rightarrow> bool) \<Rightarrow> 'l spf_evaluator \<Rightarrow> policy_request \<Rightarrow> action \<Rightarrow> bool"
where
  "answered_by N V C W ev req act \<longleftrightarrow> 
     (\<exists>vw clk slog slog'. W vw \<and> handle_request_at N V C clk vw ev req slog = Some (act, slog'))"

fun pending :: "conn_phase option \<Rightarrow> policy_request list \<Rightarrow> bool" where
  "pending None qs = (length qs \<le> 1)"
| "pending (Some CP_Select) qs = (qs = [])"
| "pending (Some (CP_Answering q)) qs = (qs = [q])"

definition conn_ok ::
  "('net, 'pe) ipnet \<Rightarrow> ('x, 'm, 'c, 's, 'd, 'l) viaspf \<Rightarrow> crypto \<Rightarrow>
     ('net view \<Rightarrow> bool) \<Rightarrow> 'l spf_evaluator \<Rightarrow> conn_phase option \<Rightarrow> policy_request list \<Rightarrow> action list \<Rightarrow> bool"
where
  "conn_ok N V C W ev ph reqs acts \<longleftrightarrow>
     (\<exists>rs qs. reqs = rs @ qs \<and> list_all2 (answered_by N V C W ev) rs acts \<and> pending ph qs)"

definition conns_inv ::
  "('net, 'pe) ipnet \<Rightarrow> ('x, 'm, 'c, 's, 'd, 'l) viaspf \<Rightarrow> crypto \<Rightarrow>
     ('net view \<Rightarrow> bool) \<Rightarrow> 'l spf_evaluator \<Rightarrow> serving \<Rightarrow> bool"
where
  "conns_inv N V C W ev w \<longleftrightarrow>
     (\<forall>c. conn_ok N V C W ev (sv_conns w c) (sv_read w c) (sv_sent w c)) \<and>
     (\<forall>c \<ge> sv_next w. sv_conns w c = None \<and> sv_read w c = [] \<and> sv_sent w c = [])"

lemma conn_ok_simps [simp]:
  "conn_ok N V C W ev (Some CP_Select) reqs acts \<longleftrightarrow> list_all2 (answered_by N V C W ev) reqs acts"
  "conn_ok N V C W ev (Some (CP_Answering q)) reqs acts \<longleftrightarrow>
     (\<exists>rs. reqs = rs @ [q] \<and> list_all2 (answered_by N V C W ev) rs acts)"
  by (auto simp: conn_ok_def)

lemma conn_ok_nil [simp]: "conn_ok N V C W ev None [] []"
  by (simp add: conn_ok_def)

lemma conn_ok_ended: "conn_ok N V C W ev (Some ph) reqs acts \<Longrightarrow> conn_ok N V C W ev None reqs acts"
  by (cases ph) (force simp: conn_ok_def)+

lemma conns_inv_start: "conns_inv N V C W ev (serve_start cfg slog)"
  by (simp add: conns_inv_def serve_start_def)

lemma conns_inv_conn:
  assumes "conns_inv N V C W ev w" and "sv_conns w c = Some ph" and "conn_ok N V C W ev ph' reqs acts"
  shows "conns_inv N V C W ev (w\<lparr>sv_conns := (sv_conns w)(c := ph'), sv_log := slog,
    sv_read := (sv_read w)(c := reqs), sv_sent := (sv_sent w)(c := acts)\<rparr>)"
proof -
  have "c < sv_next w" using assms(1,2) by (force simp: conns_inv_def not_le [symmetric])
  with assms show ?thesis by (auto simp: conns_inv_def)
qed

lemma conns_inv_other:
  "conns_inv N V C W ev w \<Longrightarrow> sv_conns w' = sv_conns w \<Longrightarrow> sv_read w' = sv_read w \<Longrightarrow>
   sv_sent w' = sv_sent w \<Longrightarrow> sv_next w' = sv_next w \<Longrightarrow> conns_inv N V C W ev w'"
  by (simp add: conns_inv_def)

lemma conns_inv_end:
  assumes "conns_inv N V C W ev w" and "sv_conns w c = Some ph"
  shows "conns_inv N V C W ev ((end_conn c w)\<lparr>sv_log := slog\<rparr>)"
proof -
  have "conn_ok N V C W ev None (sv_read w c) (sv_sent w c)"
    using assms by (intro conn_ok_ended [of _ _ _ _ _ ph]) (metis conns_inv_def)
  from conns_inv_conn [OF assms this] show ?thesis by (simp add: end_conn_def)
qed

lemma conns_inv_step:
  assumes "conns_inv N V C W ev w" and "serve_step N V C W ev w w'"
  shows "conns_inv N V C W ev w'"
  using assms(2)
proof (cases rule: serve_step.cases)
  case (accept_one i cs)
  have "conn_ok N V C W ev (Some CP_Select) [] []" by simp
  with accept_one assms(1) show ?thesis
    by (auto simp: conns_inv_def end_listener_def)
next
  case (request_read c req)
  with assms(1) have "list_all2 (answered_by N V C W ev) (sv_read w c) (sv_sent w c)"
    by (metis conn_ok_simps(1) conns_inv_def)
  then have "conn_ok N V C W ev (Some (CP_Answering req)) (sv_read w c @ [req]) (sv_sent w c)" by simp
  from conns_inv_conn [OF assms(1) request_read(3) this, of "sv_log w"] show ?thesis
    unfolding request_read by simp
next
  case (answer_written c req vw clk act slog)
  with assms(1) obtain rs where rs: "sv_read w c = rs @ [req]" "list_all2 (answered_by N V C W ev) rs (sv_sent w c)"
    by (metis conn_ok_simps(2) conns_inv_def)
  moreover have "answered_by N V C W ev req act" using answer_written by (auto simp: answered_by_def)
  ultimately have "conn_ok N V C W ev (Some CP_Select) (sv_read w c) (sv_sent w c @ [act])"
    by (simp add: list_all2_appendI)
  from conns_inv_conn [OF assms(1) answer_written(3) this, of slog] show ?thesis
    unfolding answer_written by simp
next
  case (conn_stopped c)
  with conns_inv_end [OF assms(1), of c CP_Select "sv_log w"] show ?thesis by (simp add: end_conn_def)
next
  case (conn_closed c)
  with conns_inv_end [OF assms(1), of c CP_Select "sv_log w"] show ?thesis by (simp add: end_conn_def)
next
  case (write_failed c req vw clk act slog)
  with conns_inv_end [OF assms(1)] show ?thesis by simp
next
  case (conn_panicked c req vw clk)
  with conns_inv_end [OF assms(1), of c "CP_Answering req" "sv_log w"] show ?thesis by (simp add: end_conn_def)
qed (auto intro: conns_inv_other [OF assms(1)] simp: end_listener_def cancel_def)

text \<open>Both are invariants of the transition system of the tasks.\<close>

definition serve_inv ::
  "('net, 'pe) ipnet \<Rightarrow> ('x, 'm, 'c, 's, 'd, 'l) viaspf \<Rightarrow> crypto \<Rightarrow>
     ('net view \<Rightarrow> bool) \<Rightarrow> 'l spf_evaluator \<Rightarrow> serving \<Rightarrow> bool"
where
  "serve_inv N V C W ev w \<longleftrightarrow> join_inv w \<and> conns_inv N V C W ev w"

interpretation tasks: transition_system "serve_step N V C W ev" "\<lambda>w. \<exists>cfg slog. w = serve_start cfg slog"
    "serve_inv N V C W ev"
  for N V C W ev
  by unfold_locales
     (auto simp: serve_inv_def intro: join_inv_start conns_inv_start join_inv_step conns_inv_step)

lemma serve_inv_served:
  "served_to N V C W ev (serve_start cfg slog) w \<Longrightarrow> serve_inv N V C W ev w"
  unfolding served_to_def by (rule tasks.inv_reachable) auto

text \<open>What the invariant says of a connection: the responses are those of the handler, in order.\<close>

lemma responses_ordered:
  assumes "served_to N V C W ev (serve_start cfg slog) w"
  shows "\<exists>answered rest. sv_read w c = answered @ rest \<and> length rest \<le> 1 \<and>
    list_all2 (\<lambda>req act. \<exists>vw clk lg lg'. W vw \<and> handle_request_at N V C clk vw ev req lg = Some (act, lg'))
      answered (sv_sent w c)"
proof -
  from serve_inv_served [OF assms] have "conn_ok N V C W ev (sv_conns w c) (sv_read w c) (sv_sent w c)"
    by (simp add: serve_inv_def conns_inv_def)
  then obtain rs qs where "sv_read w c = rs @ qs" "list_all2 (answered_by N V C W ev) rs (sv_sent w c)"
      "pending (sv_conns w c) qs"
    by (auto simp: conn_ok_def)
  moreover from this(3) have "length qs \<le> 1" by (cases "(sv_conns w c, qs)" rule: pending.cases) auto
  ultimately show ?thesis unfolding answered_by_def by blast
qed

section \<open>Shutting down\<close>

fun listener_ended :: "nat task \<Rightarrow> nat task" where
  "listener_ended (Task_Serving cs) = Task_Returned cs"
| "listener_ended t = t"

text \<open>No listener has failed or is still to bind.\<close>

definition all_serving :: "serving \<Rightarrow> bool" where
  "all_serving w \<longleftrightarrow>
     list_all (\<lambda>t. \<exists>cs. t = Some (Task_Serving cs) \<or> t = Some (Task_Returned cs)) (sv_listeners w)"

lemma listeners_stop:
  assumes "sv_result w = None" and "sv_cancelled w" and "all_serving w" and "n \<le> length (sv_listeners w)"
  shows "served_to N V C W ev w (w\<lparr>sv_listeners :=
    map (map_option listener_ended) (take n (sv_listeners w)) @ drop n (sv_listeners w)\<rparr>)"
  using assms(4)
proof (induction n)
  case 0
  then show ?case by (simp add: served_to_refl)
next
  case (Suc n)
  let ?L = "\<lambda>n. map (map_option listener_ended) (take n (sv_listeners w)) @ drop n (sv_listeners w)"
  let ?w = "w\<lparr>sv_listeners := ?L n\<rparr>"
  from Suc.prems have n: "n < length (sv_listeners w)" "?L n ! n = sv_listeners w ! n"
    by (simp_all add: nth_append)
  have upd: "?L (Suc n) = (?L n)[n := map_option listener_ended (sv_listeners w ! n)]"
    using n by (simp add: take_Suc_conv_app_nth list_update_append Cons_nth_drop_Suc [symmetric])
  have "served_to N V C W ev ?w (w\<lparr>sv_listeners := ?L (Suc n)\<rparr>)"
  proof -
    from assms(3) n obtain cs where
      "sv_listeners w ! n = Some (Task_Serving cs) \<or> sv_listeners w ! n = Some (Task_Returned cs)"
      by (auto simp: all_serving_def list_all_length)
    then show ?thesis
    proof
      assume s: "sv_listeners w ! n = Some (Task_Serving cs)"
      have "serve_step N V C W ev ?w (end_listener n (Task_Returned cs) ?w)"
        using assms(1,2) n s by (intro serve_step.listener_stopped) simp_all
      with s show ?thesis
        unfolding upd by (intro served_to_step [OF _ served_to_refl]) (simp add: end_listener_def)
    next
      assume "sv_listeners w ! n = Some (Task_Returned cs)"
      then have "?L (Suc n) = ?L n" unfolding upd using n by (metis list_update_id listener_ended.simps(2) option.map(2))
      then show ?thesis by (simp add: served_to_refl)
    qed
  qed
  with Suc show ?case by (blast intro: served_to_trans Suc_leD)
qed

lemma listeners_join:
  assumes "sv_result w = None" and "\<forall>i < length (sv_listeners w). \<exists>cs. sv_listeners w ! i = Some (Task_Returned cs)"
    and "sv_joined w \<le> length (sv_listeners w)"
  shows "served_to N V C W ev w (w\<lparr>sv_joined := length (sv_listeners w), sv_result := Some (Ok ())\<rparr>)"
  using assms
proof (induction "length (sv_listeners w) - sv_joined w" arbitrary: w)
  case 0
  then have "sv_joined w = length (sv_listeners w)" by simp
  moreover from this have "serve_step N V C W ev w (w\<lparr>sv_result := Some (Ok ())\<rparr>)"
    using 0 by (intro serve_step.all_joined) simp_all
  moreover have "w\<lparr>sv_joined := sv_joined w, sv_result := Some (Ok ())\<rparr> = w\<lparr>sv_result := Some (Ok ())\<rparr>" by simp
  ultimately show ?case by (metis served_to_step served_to_refl)
next
  case (Suc k)
  let ?w = "w\<lparr>sv_joined := Suc (sv_joined w)\<rparr>"
  from Suc.hyps(2) Suc.prems obtain cs where "serve_step N V C W ev w ?w"
    by (metis Suc_neq_Zero diff_is_0_eq not_le serve_step.listener_joined)
  moreover have "served_to N V C W ev ?w (?w\<lparr>sv_joined := length (sv_listeners w), sv_result := Some (Ok ())\<rparr>)"
    using Suc.hyps(1) [of ?w] Suc.hyps(2) Suc.prems by simp
  ultimately show ?case by (auto intro: served_to_step)
qed

text \<open>After the cancellation \<open>main\<close> may return at once, wherever the connections are.\<close>

definition stopped :: "serving \<Rightarrow> serving" where
  "stopped w =
     w\<lparr>sv_listeners := map (map_option listener_ended) (sv_listeners w),
       sv_joined := length (sv_listeners w), sv_result := Some (Ok ())\<rparr>"

lemma shutdown_returns:
  assumes "join_inv w" and "sv_result w = None" and "sv_cancelled w" and "all_serving w"
  shows "served_to N V C W ev w (stopped w)"
proof -
  let ?w = "w\<lparr>sv_listeners := map (map_option listener_ended) (sv_listeners w)\<rparr>"
  have "served_to N V C W ev w ?w"
    using listeners_stop [OF assms(2-4) order_refl] by simp
  moreover have "served_to N V C W ev ?w (stopped w)"
    using listeners_join [of ?w] assms by (fastforce simp: stopped_def join_inv_def all_serving_def list_all_length)
  ultimately show ?thesis by (rule served_to_trans)
qed

section \<open>The shutdown ends\<close>

text \<open>
  What is left to do until \<open>main\<close> returns: a listener has to bind and to stop, \<open>main\<close> has to join
  each of them and to return. No step of any task adds to it.
\<close>

fun turns_left :: "nat task option \<Rightarrow> nat" where
  "turns_left None = 2"
| "turns_left (Some (Task_Serving _)) = 1"
| "turns_left (Some _) = 0"

definition work :: "serving \<Rightarrow> nat" where
  "work w =
     (\<Sum>i < length (sv_listeners w). turns_left (sv_listeners w ! i)) +
     (length (sv_listeners w) - sv_joined w)"

text \<open>Whose turn it is: that of a listener that is to bind or to stop, or that of \<open>main\<close>.\<close>

definition listener_due :: "serving \<Rightarrow> nat \<Rightarrow> bool" where
  "listener_due w i \<longleftrightarrow> i < length (sv_listeners w) \<and>
     (case sv_listeners w ! i of
        None \<Rightarrow> True
      | Some (Task_Serving cs) \<Rightarrow> sv_cancelled w
      | _ \<Rightarrow> False)"

definition main_due :: "serving \<Rightarrow> bool" where
  "main_due w \<longleftrightarrow> sv_joined w = length (sv_listeners w) \<or>
     (sv_joined w < length (sv_listeners w) \<and> turns_left (sv_listeners w ! sv_joined w) = 0)"

text \<open>
  A run of the tasks, which may stutter, and what is expected of the scheduler and of the
  operating system: a task whose turn it is gets it at some time, before \<open>main\<close> returns.
\<close>

definition tasks_run ::
  "('net, 'pe) ipnet \<Rightarrow> ('x, 'm, 'c, 's, 'd, 'l) viaspf \<Rightarrow> crypto \<Rightarrow>
     ('net view \<Rightarrow> bool) \<Rightarrow> 'l spf_evaluator \<Rightarrow> (nat \<Rightarrow> serving) \<Rightarrow> bool"
where
  "tasks_run N V C W ev r \<longleftrightarrow> (\<forall>n. r (Suc n) = r n \<or> serve_step N V C W ev (r n) (r (Suc n)))"

definition fair :: "(nat \<Rightarrow> serving) \<Rightarrow> bool" where
  "fair r \<longleftrightarrow>
     (\<forall>n i. listener_due (r n) i \<longrightarrow> (\<exists>m \<ge> n. sv_result (r m) \<noteq> None \<or>
        turns_left (sv_listeners (r m) ! i) < turns_left (sv_listeners (r n) ! i))) \<and>
     (\<forall>n. main_due (r n) \<longrightarrow> (\<exists>m \<ge> n. sv_result (r m) \<noteq> None \<or> sv_joined (r n) < sv_joined (r m)))"

lemma due:
  assumes "join_inv w" and "sv_cancelled w"
  shows "main_due w \<or> (\<exists>i. listener_due w i)"
proof (cases "sv_joined w < length (sv_listeners w)")
  case True
  with assms(2) have "turns_left (sv_listeners w ! sv_joined w) = 0 \<or> listener_due w (sv_joined w)"
    by (cases "sv_listeners w ! sv_joined w" rule: turns_left.cases) (simp_all add: listener_due_def)
  with True show ?thesis by (auto simp: main_due_def)
next
  case False
  with assms(1) show ?thesis by (simp add: join_inv_def main_due_def)
qed

text \<open>What only goes forward.\<close>

definition forward :: "serving \<Rightarrow> serving \<Rightarrow> bool" where
  "forward w w' \<longleftrightarrow>
     length (sv_listeners w') = length (sv_listeners w) \<and>
     (\<forall>i < length (sv_listeners w). turns_left (sv_listeners w' ! i) \<le> turns_left (sv_listeners w ! i)) \<and>
     sv_joined w \<le> sv_joined w' \<and> (sv_cancelled w \<longrightarrow> sv_cancelled w')"

lemma forward_refl [simp, intro]: "forward w w"
  by (simp add: forward_def)

lemma forward_trans: "forward w w' \<Longrightarrow> forward w' w'' \<Longrightarrow> forward w w''"
  unfolding forward_def by (metis order_trans)

lemma forward_step: "serve_step N V C W ev w w' \<Longrightarrow> forward w w'"
  by (erule serve_step.cases)
     (auto simp: forward_def end_listener_def end_conn_def cancel_def nth_list_update)

lemma forward_run:
  assumes "tasks_run N V C W ev r" and "n \<le> m"
  shows "forward (r n) (r m)"
  using assms(2)
proof (induction rule: dec_induct)
  case (step k)
  moreover have "forward (r k) (r (Suc k))"
    using assms(1) unfolding tasks_run_def by (metis forward_refl forward_step)
  ultimately show ?case by (blast intro: forward_trans)
qed simp

lemma work_less:
  assumes "forward w w'" and "sv_joined w' \<le> length (sv_listeners w')"
    and "sv_joined w < sv_joined w' \<or>
      (\<exists>i < length (sv_listeners w). turns_left (sv_listeners w' ! i) < turns_left (sv_listeners w ! i))"
  shows "work w' < work w"
proof -
  let ?n = "length (sv_listeners w)"
  let ?sum = "\<lambda>w. \<Sum>i < ?n. turns_left (sv_listeners w ! i)"
  have n: "length (sv_listeners w') = ?n" using assms(1) by (simp add: forward_def)
  have le: "?sum w' \<le> ?sum w" using assms(1) by (intro sum_mono) (simp add: forward_def)
  from assms(3) show ?thesis
  proof
    assume "sv_joined w < sv_joined w'"
    with le n assms(2) show ?thesis by (simp add: work_def)
  next
    assume "\<exists>i < ?n. turns_left (sv_listeners w' ! i) < turns_left (sv_listeners w ! i)"
    then have "?sum w' < ?sum w"
      using assms(1) by (intro sum_strict_mono_ex1) (auto simp: forward_def)
    moreover have "?n - sv_joined w' \<le> ?n - sv_joined w" using assms(1) by (auto simp: forward_def intro: diff_le_mono2)
    ultimately show ?thesis using n by (simp add: work_def)
  qed
qed

lemma tasks_run_served:
  assumes "tasks_run N V C W ev r" and "served_to N V C W ev w (r 0)"
  shows "served_to N V C W ev w (r n)"
proof (induction n)
  case (Suc n)
  with assms(1) show ?case unfolding tasks_run_def by (metis served_to_refl served_to_step served_to_trans)
qed (rule assms(2))

lemma fair_progress:
  assumes "fair r" and "tasks_run N V C W ev r" and "\<And>n. join_inv (r n)" and "sv_cancelled (r n)"
  shows "\<exists>m \<ge> n. sv_result (r m) \<noteq> None \<or> work (r m) < work (r n)"
proof -
  have joined: "sv_joined (r m) \<le> length (sv_listeners (r m))" for m using assms(3) by (simp add: join_inv_def)
  from due [OF assms(3,4)] show ?thesis
  proof
    assume "main_due (r n)"
    with assms(1) obtain m where "n \<le> m" "sv_result (r m) \<noteq> None \<or> sv_joined (r n) < sv_joined (r m)"
      unfolding fair_def by blast
    with work_less [OF forward_run [OF assms(2)] joined] show ?thesis by blast
  next
    assume "\<exists>i. listener_due (r n) i"
    then obtain i where i: "listener_due (r n) i" "i < length (sv_listeners (r n))"
      by (auto simp: listener_due_def)
    with assms(1) obtain m where "n \<le> m" "sv_result (r m) \<noteq> None \<or>
        turns_left (sv_listeners (r m) ! i) < turns_left (sv_listeners (r n) ! i)"
      unfolding fair_def by blast
    with i work_less [OF forward_run [OF assms(2)] joined] show ?thesis by blast
  qed
qed

lemma fair_returns:
  assumes "fair r" and "tasks_run N V C W ev r" and "\<And>n. join_inv (r n)" and "sv_cancelled (r n)"
  shows "\<exists>m \<ge> n. sv_result (r m) \<noteq> None"
  using assms(4)
proof (induction "work (r n)" arbitrary: n rule: less_induct)
  case less
  from fair_progress [OF assms(1-3) less.prems] obtain m where
    m: "n \<le> m" "sv_result (r m) \<noteq> None \<or> work (r m) < work (r n)" by blast
  have "sv_cancelled (r m)" using forward_run [OF assms(2) m(1)] less.prems by (simp add: forward_def)
  with less.hyps [of m] m show ?case by (meson order_trans)
qed

end
