(* ===== verification/Task_Properties.thy ===== *)
theory Task_Properties
  imports Shutdown Sample_Deployment
begin

text \<open>Properties of the daemon's tasks: how it stops, and with which result.\<close>

section \<open>A state with a request under way\<close>

text \<open>One listener has accepted one connection, a request has been read, and the signal has come.\<close>

definition sample_serving :: serving where
  "sample_serving =
     \<lparr>sv_cancelled = True, sv_listeners = [Some (Task_Serving [0])], sv_next = 1,
      sv_conns = [0 \<mapsto> CP_Answering sample_request], sv_joined = 0, sv_result = None,
      sv_log = sample_syslog, sv_read = (\<lambda>_. [])(0 := [sample_request]), sv_sent = (\<lambda>_. [])\<rparr>"

definition sample_views :: "ip_addr view \<Rightarrow> bool" where
  "sample_views vw \<longleftrightarrow> vw = state_view sample_state"

lemma sample_serving_reached:
  "served_to sample_ipnet sample_viaspf sample_crypto sample_views (st_evaluator sample_state)
     (serve_start sample_config sample_syslog) sample_serving"
proof -
  let ?s = "serve_step sample_ipnet sample_viaspf sample_crypto sample_views (st_evaluator sample_state)"
  let ?w0 = "serve_start sample_config sample_syslog"
  let ?w1 = "end_listener 0 (Task_Serving []) ?w0"
  let ?w2 = "(end_listener 0 (Task_Serving ([] @ [sv_next ?w1])) ?w1)
     \<lparr>sv_next := Suc (sv_next ?w1), sv_conns := (sv_conns ?w1)(sv_next ?w1 \<mapsto> CP_Select)\<rparr>"
  let ?w3 = "?w2\<lparr>sv_conns := (sv_conns ?w2)(0 \<mapsto> CP_Answering sample_request),
     sv_read := (sv_read ?w2)(0 := sv_read ?w2 0 @ [sample_request])\<rparr>"
  have one: "sv_listeners ?w0 = [None]" "sv_result ?w0 = None"
    by (simp_all add: serve_start_def sample_config_def config_defaults)
  have s1: "?s ?w0 ?w1" using one by (intro serve_step.bound) simp_all
  have s2: "?s ?w1 ?w2" using one by (intro serve_step.accept_one) (simp_all add: end_listener_def)
  have s3: "?s ?w2 ?w3"
    using one by (intro serve_step.request_read) (simp_all add: end_listener_def serve_start_def)
  have s4: "?s ?w3 (cancel ?w3)"
    using one by (intro serve_step.signalled) (simp add: end_listener_def)
  have "cancel ?w3 = sample_serving"
    by (simp add: cancel_def sample_serving_def serve_start_def end_listener_def sample_config_def config_defaults)
  then show ?thesis
    using served_to_step [OF s1 served_to_step [OF s2 served_to_step [OF s3 served_to_step [OF s4 served_to_refl]]]]
    by (simp only:)
qed

section \<open>Properties\<close>

text \<open>
  C18: When \<open>main\<close> has returned, every listener before the one that decided has returned, which
  takes the shutdown signal. It has returned without an error exactly where all listeners did,
  and otherwise with the error of the first listener that could not bind; where all listeners had
  started, its result is that of awaiting their tasks in order.
\<close>

theorem main_result_by_listeners:
  assumes "served_to N V C W ev (serve_start cfg slog) w" and "sv_result w = Some r"
  shows "(case r of
       Inr _ \<Rightarrow> list_all (\<lambda>t. \<exists>cs. t = Some (Task_Returned cs)) (sv_listeners w) \<and>
         (sv_listeners w \<noteq> [] \<longrightarrow> sv_cancelled w)
     | Inl re \<Rightarrow> \<exists>i e. re = Run_Io e \<and> i < length (sv_listeners w) \<and>
         sv_listeners w ! i = Some (Task_Failed e) \<and>
         (\<forall>j < i. \<exists>cs. sv_listeners w ! j = Some (Task_Returned cs))) \<and>
    (\<forall>ts. sv_listeners w = map Some ts \<longrightarrow> join_tasks ts = Some r)"
proof -
  from serve_inv_served [OF assms(1)] have inv: "join_inv w" by (simp add: serve_inv_def)
  then consider (ok) "r = Ok ()" "sv_joined w = length (sv_listeners w)"
    | (failed) e where "r = Err (Run_Io e)" "sv_joined w < length (sv_listeners w)"
        "sv_listeners w ! sv_joined w = Some (Task_Failed e)"
    using assms(2) by (auto simp: join_inv_def)
  then show ?thesis
  proof cases
    case ok
    with inv have all: "list_all (\<lambda>t. \<exists>cs. t = Some (Task_Returned cs)) (sv_listeners w)"
      by (simp add: join_inv_def list_all_length)
    moreover have "join_tasks ts = Some (Ok ())" if "sv_listeners w = map Some ts" for ts
      using all that by (auto simp: join_tasks_Ok list_all_iff)
    moreover have "sv_cancelled w" if "sv_listeners w \<noteq> []"
      using inv all that by (cases "sv_listeners w") (auto simp: join_inv_def)
    ultimately show ?thesis using ok by simp
  next
    case failed
    let ?k = "sv_joined w"
    have "join_tasks ts = Some r" if ts: "sv_listeners w = map Some ts" for ts
    proof -
      have split: "ts = take ?k ts @ ts ! ?k # drop (Suc ?k) ts"
        using failed(2) ts by (simp add: id_take_nth_drop)
      have "list_all task_returned (take ?k ts)"
        using inv failed(2) ts by (fastforce simp: join_inv_def list_all_length)
      then have "dropWhile task_returned ts = ts ! ?k # drop (Suc ?k) ts"
        using failed ts by (subst split) (simp add: list_all_iff)
      with failed ts show ?thesis by (simp add: join_tasks_first)
    qed
    with failed inv show ?thesis by (auto simp: join_inv_def)
  qed
qed

text \<open>
  C20: A shutdown does not wait for the connections: whenever the signal has come and no listener
  has failed, \<open>main\<close> may return without an error while every request that is being answered stays
  unanswered for good.
\<close>

theorem shutdown_abandons_requests:
  assumes "served_to N V C W ev (serve_start cfg slog) w"
    and "sv_result w = None" and "sv_cancelled w" and "all_serving w"
  shows "\<exists>w'. served_to N V C W ev w w' \<and> sv_result w' = Some (Ok ()) \<and>
    sv_conns w' = sv_conns w \<and> sv_read w' = sv_read w \<and> sv_sent w' = sv_sent w \<and>
    (\<forall>w''. served_to N V C W ev w' w'' \<longrightarrow> w'' = w')"
proof (intro exI [of _ "stopped w"] conjI allI impI)
  from serve_inv_served [OF assms(1)] assms(2-4) show "served_to N V C W ev w (stopped w)"
    by (intro shutdown_returns) (simp_all add: serve_inv_def)
  show "w'' = stopped w" if "served_to N V C W ev (stopped w) w''" for w''
    by (rule served_after_return [OF _ that]) (simp add: stopped_def)
qed (simp_all add: stopped_def)

lemma shutdown_abandons_requests_example:
  "\<exists>w'. served_to sample_ipnet sample_viaspf sample_crypto sample_views (st_evaluator sample_state) sample_serving w' \<and>
    sv_result w' = Some (Ok ()) \<and> sv_conns w' 0 = Some (CP_Answering sample_request) \<and> sv_sent w' 0 = []"
proof -
  have "sv_result sample_serving = None" "sv_cancelled sample_serving" "all_serving sample_serving"
    by (simp_all add: sample_serving_def all_serving_def)
  from shutdown_abandons_requests [OF sample_serving_reached this]
  obtain w' where "served_to sample_ipnet sample_viaspf sample_crypto sample_views (st_evaluator sample_state) sample_serving w'"
    "sv_result w' = Some (Ok ())" "sv_conns w' = sv_conns sample_serving" "sv_sent w' = sv_sent sample_serving"
    by blast
  then show ?thesis by (intro exI [of _ w']) (simp add: sample_serving_def)
qed

text \<open>The state after the shutdown, as an example of a return.\<close>

lemma main_result_by_listeners_example:
  "list_all (\<lambda>t. \<exists>cs. t = Some (Task_Returned cs)) (sv_listeners (stopped sample_serving))"
proof -
  have "sv_result sample_serving = None" "sv_cancelled sample_serving" "all_serving sample_serving"
    by (simp_all add: sample_serving_def all_serving_def)
  moreover have "join_inv sample_serving"
    using serve_inv_served [OF sample_serving_reached] by (simp add: serve_inv_def)
  ultimately have "served_to sample_ipnet sample_viaspf sample_crypto sample_views (st_evaluator sample_state)
      (serve_start sample_config sample_syslog) (stopped sample_serving)"
    by (intro served_to_trans [OF sample_serving_reached] shutdown_returns)
  moreover have "sv_result (stopped sample_serving) = Some (Ok ())" by (simp add: stopped_def)
  ultimately show ?thesis by (auto dest: main_result_by_listeners)
qed

text \<open>
  C19: A shutdown ends: in every run in which the tasks whose turn it is get it at some time, once the
  signal has come, \<open>main\<close> returns and nothing happens any more, whatever the clients do in the
  meantime and however many connections are still accepted.
\<close>

theorem shutdown_terminates:
  assumes "served_to N V C W ev (serve_start cfg slog) (r 0)" and "tasks_run N V C W ev r" and "fair r"
    and "sv_cancelled (r n)"
  shows "\<exists>m \<ge> n. \<exists>res. sv_result (r m) = Some res \<and> (\<forall>k \<ge> m. r k = r m)"
proof -
  have "join_inv (r k)" for k
    using serve_inv_served [OF tasks_run_served [OF assms(2,1)]] by (simp add: serve_inv_def)
  from fair_returns [OF assms(3,2) this assms(4)] obtain m res where
    m: "n \<le> m" "sv_result (r m) = Some res" by auto
  have "r k = r m" if "m \<le> k" for k
    using that
  proof (induction rule: dec_induct)
    case (step k)
    then show ?case using assms(2) m(2) no_step_after_return by (metis option.distinct(1) tasks_run_def)
  qed simp
  with m show ?thesis by blast
qed

text \<open>The listener stops, is joined, and \<open>main\<close> returns.\<close>

definition sample_run :: "nat \<Rightarrow> serving" where
  "sample_run n =
     (let w1 = end_listener 0 (Task_Returned [0]) sample_serving; w2 = w1\<lparr>sv_joined := Suc (sv_joined w1)\<rparr> in
      if n = 0 then sample_serving else if n = 1 then w1 else if n = 2 then w2
      else w2\<lparr>sv_result := Some (Ok ())\<rparr>)"

lemma shutdown_terminates_example:
  "\<exists>m res. sv_result (sample_run m) = Some res"
proof -
  let ?s = "serve_step sample_ipnet sample_viaspf sample_crypto sample_views (st_evaluator sample_state)"
  have s0: "?s (sample_run 0) (sample_run 1)"
    unfolding sample_run_def Let_def by (simp, rule serve_step.listener_stopped) (simp_all add: sample_serving_def)
  have s1: "?s (sample_run 1) (sample_run 2)"
    unfolding sample_run_def Let_def by (simp, rule serve_step.listener_joined)
      (simp_all add: sample_serving_def end_listener_def)
  have s2: "?s (sample_run 2) (sample_run 3)"
    unfolding sample_run_def Let_def by (simp, rule serve_step.all_joined)
      (simp_all add: sample_serving_def end_listener_def)
  have later: "sample_run (n + 3) = sample_run 3" for n by (simp add: sample_run_def Let_def)
  have "sample_run (Suc n) = sample_run n \<or> ?s (sample_run n) (sample_run (Suc n))" for n
  proof -
    have "n = 0 \<or> n = 1 \<or> n = 2 \<or> n = (n - 3) + 3" by arith
    then consider "n = 0" | "n = 1" | "n = 2" | k where "n = k + 3" by blast
    then show ?thesis
    proof cases
      case (4 k)
      with later [of k] later [of "Suc k"] show ?thesis by simp
    qed (use s0 s1 s2 in \<open>simp_all add: numeral_2_eq_2 numeral_3_eq_3\<close>)
  qed
  then have run: "tasks_run sample_ipnet sample_viaspf sample_crypto sample_views (st_evaluator sample_state) sample_run"
    by (simp add: tasks_run_def)
  have "\<exists>m \<ge> n. sv_result (sample_run m) \<noteq> None" for n
    by (rule exI [of _ "n + 3"]) (simp add: later, simp add: sample_run_def Let_def)
  then have fair: "fair sample_run" unfolding fair_def by blast
  have "sample_run 0 = sample_serving" "sv_cancelled (sample_run 0)"
    by (simp_all add: sample_run_def sample_serving_def)
  with shutdown_terminates [OF _ run fair, of sample_config sample_syslog 0] sample_serving_reached show ?thesis
    by auto
qed

end
