(* ===== verification/Whole_Daemon.thy ===== *)
theory Whole_Daemon
  imports Shutdown
begin

text \<open>
  The running daemon as a whole: the system of \<open>Daemon\<close> (the shared cells, the reload task, the
  requests under way) and the tasks of \<open>Shutdown\<close> (listeners, connections, \<open>main\<close>), stepping
  together. A request under way is the task of the connection that read it, so the two share the
  arrival of a request and its end; every other step belongs to one of them. Whether the handlers
  of SIGHUP and of SIGTERM could be installed (\<open>spawn_reload_on_sighup\<close> and the signal task of
  \<open>rspfd/src/main.rs\<close>) decides whether reloads and the cancellation can happen at all.

  Each run of the whole is a run of each part. So the invariants of \<open>Daemon\<close> and of \<open>Shutdown\<close> hold
  together: the answers that reach a connection are those the cells allowed.
\<close>

section \<open>The two parts together\<close>

record handlers =
  on_sighup :: bool
  on_sigterm :: bool

record ('net, 'n, 'le) whole =
  wh_system :: "('net, 'n, 'le) system"
  wh_serving :: serving

definition whole_start :: "('net, 'n, 'le) app_state \<Rightarrow> syslog \<Rightarrow> ('net, 'n, 'le) whole" where
  "whole_start st slog =
     \<lparr>wh_system = system_start st slog, wh_serving = serve_start (st_config st) slog\<rparr>"

text \<open>
  A turn of the reload task leaves the requests alone; a turn of a request's task loads a cell
  into what the request has seen and changes nothing else.
\<close>

definition reload_turn ::
  "('net, 'pe, 'x, 'm, 'c, 's, 'd, 'n, 'le, 'te, 've, 'rec) daemon_env \<Rightarrow>
     ('net, 'n, 'le) system \<Rightarrow> ('net, 'n, 'le) system \<Rightarrow> bool"
where
  "reload_turn E y y' \<longleftrightarrow> step E y y' \<and> sy_tasks y' = sy_tasks y"

definition load_turn ::
  "('net, 'pe, 'x, 'm, 'c, 's, 'd, 'n, 'le, 'te, 've, 'rec) daemon_env \<Rightarrow>
     ('net, 'n, 'le) system \<Rightarrow> ('net, 'n, 'le) system \<Rightarrow> bool"
where
  "load_turn E y y' \<longleftrightarrow>
     step E y y' \<and> sy_tasks y' \<noteq> sy_tasks y \<and> dom (sy_tasks y') = dom (sy_tasks y)"

inductive whole_step ::
  "('net, 'pe, 'x, 'm, 'c, 's, 'd, 'n, 'le, 'te, 've, 'rec) daemon_env \<Rightarrow> handlers \<Rightarrow>
     ('net, 'n, 'le) whole \<Rightarrow> ('net, 'n, 'le) whole \<Rightarrow> bool"
  for E :: "('net, 'pe, 'x, 'm, 'c, 's, 'd, 'n, 'le, 'te, 've, 'rec) daemon_env"
    and H :: handlers
where
  task_turn:
    "serve_step (de_ipnet E) (de_viaspf E) (de_crypto E) (\<lambda>_. False) (st_evaluator (sy_state y)) s s' \<Longrightarrow>
     sv_read s' = sv_read s \<Longrightarrow> (sv_cancelled s' \<longrightarrow> sv_cancelled s \<or> on_sigterm H) \<Longrightarrow>
     whole_step E H \<lparr>wh_system = y, wh_serving = s\<rparr> \<lparr>wh_system = y, wh_serving = s'\<rparr>"
| reloading:
    "sv_result s = None \<Longrightarrow> on_sighup H \<Longrightarrow> reload_turn E y y' \<Longrightarrow>
     whole_step E H \<lparr>wh_system = y, wh_serving = s\<rparr> \<lparr>wh_system = y', wh_serving = s\<rparr>"
| loading:
    "sv_result s = None \<Longrightarrow> load_turn E y y' \<Longrightarrow>
     whole_step E H \<lparr>wh_system = y, wh_serving = s\<rparr> \<lparr>wh_system = y', wh_serving = s\<rparr>"
| reading:
    "sv_result s = None \<Longrightarrow> sv_conns s c = Some CP_Select \<Longrightarrow>
     whole_step E H \<lparr>wh_system = y, wh_serving = s\<rparr>
       \<lparr>wh_system = y\<lparr>sy_tasks := (sy_tasks y)(c \<mapsto> (req, RQ_Start))\<rparr>,
        wh_serving = s\<lparr>sv_conns := (sv_conns s)(c \<mapsto> CP_Answering req),
                       sv_read := (sv_read s)(c := sv_read s c @ [req])\<rparr>\<rparr>"
| answering:
    "sv_result s = None \<Longrightarrow> sv_conns s c = Some (CP_Answering req) \<Longrightarrow>
     sy_tasks y c = Some (req, RQ_View vw) \<Longrightarrow>
     handle_request_at (de_ipnet E) (de_viaspf E) (de_crypto E) clk vw (st_evaluator (sy_state y))
       req (sy_syslog y) = Some (act, slog) \<Longrightarrow>
     whole_step E H \<lparr>wh_system = y, wh_serving = s\<rparr>
       \<lparr>wh_system = y\<lparr>sy_tasks := (sy_tasks y)(c := None), sy_syslog := slog,
                      sy_answers := sy_answers y @ [(vw, req, act)]\<rparr>,
        wh_serving = s\<lparr>sv_conns := (sv_conns s)(c \<mapsto> CP_Select), sv_log := slog,
                       sv_sent := (sv_sent s)(c := sv_sent s c @ [act])\<rparr>\<rparr>"
| answer_lost:
    "sv_result s = None \<Longrightarrow> sv_conns s c = Some (CP_Answering req) \<Longrightarrow>
     sy_tasks y c = Some (req, RQ_View vw) \<Longrightarrow>
     handle_request_at (de_ipnet E) (de_viaspf E) (de_crypto E) clk vw (st_evaluator (sy_state y))
       req (sy_syslog y) = Some (act, slog) \<Longrightarrow>
     whole_step E H \<lparr>wh_system = y, wh_serving = s\<rparr>
       \<lparr>wh_system = y\<lparr>sy_tasks := (sy_tasks y)(c := None), sy_syslog := slog,
                      sy_answers := sy_answers y @ [(vw, req, act)]\<rparr>,
        wh_serving = (end_conn c s)\<lparr>sv_log := slog\<rparr>\<rparr>"
| panicking:
    "sv_result s = None \<Longrightarrow> sv_conns s c = Some (CP_Answering req) \<Longrightarrow>
     sy_tasks y c = Some (req, RQ_View vw) \<Longrightarrow>
     handle_request_at (de_ipnet E) (de_viaspf E) (de_crypto E) clk vw (st_evaluator (sy_state y))
       req (sy_syslog y) = None \<Longrightarrow>
     whole_step E H \<lparr>wh_system = y, wh_serving = s\<rparr>
       \<lparr>wh_system = y\<lparr>sy_tasks := (sy_tasks y)(c := None)\<rparr>, wh_serving = end_conn c s\<rparr>"

definition whole_run ::
  "('net, 'pe, 'x, 'm, 'c, 's, 'd, 'n, 'le, 'te, 've, 'rec) daemon_env \<Rightarrow> handlers \<Rightarrow>
     ('net, 'n, 'le) whole \<Rightarrow> ('net, 'n, 'le) whole \<Rightarrow> bool"
where
  "whole_run E H = (whole_step E H)\<^sup>*\<^sup>*"

lemma whole_run_refl [intro]: "whole_run E H w w"
  by (simp add: whole_run_def)

lemma whole_run_step: "whole_step E H w w' \<Longrightarrow> whole_run E H w' w'' \<Longrightarrow> whole_run E H w w''"
  unfolding whole_run_def by (rule converse_rtranclp_into_rtranclp)

lemma whole_run_trans: "whole_run E H w w' \<Longrightarrow> whole_run E H w' w'' \<Longrightarrow> whole_run E H w w''"
  unfolding whole_run_def by (rule rtranclp_trans)

section \<open>What the two parts agree on\<close>

text \<open>
  A connection is answering a request exactly where that request is a task of the system; both
  write to the one syslog.
\<close>

fun conn_agrees :: "conn_phase option \<Rightarrow> (policy_request \<times> 'net request_phase) option \<Rightarrow> bool" where
  "conn_agrees (Some (CP_Answering req)) t \<longleftrightarrow> (\<exists>ph. t = Some (req, ph))"
| "conn_agrees _ t \<longleftrightarrow> t = None"

definition parts_agree :: "('net, 'n, 'le) whole \<Rightarrow> bool" where
  "parts_agree w \<longleftrightarrow>
     (\<forall>c. conn_agrees (sv_conns (wh_serving w) c) (sy_tasks (wh_system w) c)) \<and>
     (\<forall>c \<ge> sv_next (wh_serving w). sv_conns (wh_serving w) c = None) \<and>
     sv_log (wh_serving w) = sy_syslog (wh_system w)"

lemma parts_agree_start: "parts_agree (whole_start st slog)"
  by (simp add: parts_agree_def whole_start_def system_start_def serve_start_def)

text \<open>A turn of the system alone leaves the requests where they are and syslog as it is.\<close>

lemma reload_turn_parts:
  assumes "reload_turn E y y'"
  shows "sy_tasks y' = sy_tasks y \<and> sy_syslog y' = sy_syslog y"
proof -
  from assms have "step E y y'" "sy_tasks y' = sy_tasks y" by (simp_all add: reload_turn_def)
  then show ?thesis
  proof cases
    case (answered t req vw clk act slog)
    with \<open>sy_tasks y' = sy_tasks y\<close> have "sy_tasks y t = None" by (auto dest: fun_cong [of _ _ t])
    with answered show ?thesis by simp
  qed simp_all
qed

lemma load_turn_parts:
  assumes "load_turn E y y'"
  shows "sy_syslog y' = sy_syslog y \<and> sy_state y' = sy_state y \<and> sy_published y' = sy_published y \<and>
    (\<forall>c. map_option fst (sy_tasks y' c) = map_option fst (sy_tasks y c))"
proof -
  from assms have "step E y y'" "sy_tasks y' \<noteq> sy_tasks y" "dom (sy_tasks y') = dom (sy_tasks y)"
    by (simp_all add: load_turn_def)
  then show ?thesis by cases (auto simp: domIff insert_absorb)
qed

lemma conn_agrees_fst:
  "conn_agrees ph t \<longleftrightarrow>
     map_option fst t = (case ph of Some (CP_Answering req) \<Rightarrow> Some req | _ \<Rightarrow> None)"
  by (cases "(ph, t)" rule: conn_agrees.cases) (auto split: option.splits)

text \<open>A turn of the tasks alone touches no connection that is answering, and writes nothing.\<close>

lemma task_turn_conns:
  assumes "serve_step N V C (\<lambda>_. False) ev s s'" and "sv_read s' = sv_read s"
    and "\<forall>c \<ge> sv_next s. sv_conns s c = None"
  shows "(\<forall>c req. sv_conns s' c = Some (CP_Answering req) \<longleftrightarrow> sv_conns s c = Some (CP_Answering req)) \<and>
    (\<forall>c \<ge> sv_next s'. sv_conns s' c = None) \<and> sv_log s' = sv_log s"
  using assms(1)
proof cases
  case (request_read c req)
  then have False using assms(2) by (auto dest: fun_cong [of _ _ c])
  then show ?thesis ..
qed (use assms(3) in \<open>auto simp: end_listener_def end_conn_def cancel_def\<close>)

lemma conn_agrees_same:
  assumes "\<And>req. ph' = Some (CP_Answering req) \<longleftrightarrow> ph = Some (CP_Answering req)"
  shows "conn_agrees ph' t = conn_agrees ph t"
proof (cases "\<exists>req. ph = Some (CP_Answering req)")
  case True
  then obtain req where "ph = Some (CP_Answering req)" ..
  with assms [of req] show ?thesis by simp
next
  case False
  with assms have "\<And>req. ph \<noteq> Some (CP_Answering req)" "\<And>req. ph' \<noteq> Some (CP_Answering req)" by blast+
  then show ?thesis
    by (cases "(ph, t)" rule: conn_agrees.cases; cases "(ph', t)" rule: conn_agrees.cases) auto
qed

lemma parts_agree_step:
  assumes "whole_step E H w w'" and "parts_agree w"
  shows "parts_agree w'"
  using assms(1)
proof cases
  case (task_turn y s s')
  with assms(2) have "\<forall>c \<ge> sv_next s. sv_conns s c = None" by (simp add: parts_agree_def)
  from task_turn_conns [OF task_turn(3,4) this] assms(2) task_turn(1,2) show ?thesis
    by (auto simp: parts_agree_def conn_agrees_same [of "sv_conns s' c" "sv_conns s c" for c])
next
  case (reloading s y y')
  with assms(2) reload_turn_parts [OF reloading(5)] show ?thesis by (simp add: parts_agree_def)
next
  case (loading s y y')
  with assms(2) load_turn_parts [OF loading(4)] show ?thesis by (simp add: parts_agree_def conn_agrees_fst)
next
  case (reading s c y req)
  with assms(2) show ?thesis by (auto simp: parts_agree_def)
next
  case (answering s c req y vw clk act slog)
  with assms(2) show ?thesis by (auto simp: parts_agree_def)
next
  case (answer_lost s c req y vw clk act slog)
  with assms(2) show ?thesis by (auto simp: parts_agree_def end_conn_def)
next
  case (panicking s c req y vw clk)
  with assms(2) show ?thesis by (auto simp: parts_agree_def end_conn_def)
qed

section \<open>A run of the whole is a run of each part\<close>

lemma system_part_step:
  assumes "whole_step E H w w'" and "parts_agree w"
  shows "wh_system w' = wh_system w \<or> step E (wh_system w) (wh_system w')"
  using assms(1)
proof cases
  case (reading s c y req)
  from assms(2) have "conn_agrees (sv_conns s c) (sy_tasks y c)" unfolding reading(1) by (simp add: parts_agree_def)
  with reading(4) have "sy_tasks y c = None" by simp
  from step.arrive [OF this, of E req] show ?thesis unfolding reading(1,2) by simp
next
  case (answering s c req y vw clk act slog)
  from step.answered [OF answering(5,6)] show ?thesis unfolding answering(1,2) by simp
next
  case (answer_lost s c req y vw clk act slog)
  from step.answered [OF answer_lost(5,6)] show ?thesis unfolding answer_lost(1,2) by simp
next
  case (panicking s c req y vw clk)
  from step.panicked [OF panicking(5,6)] show ?thesis unfolding panicking(1,2) by simp
qed (simp_all add: reload_turn_def load_turn_def)

text \<open>More views allow more steps.\<close>

lemma serve_step_mono:
  assumes "serve_step N V C W ev s s'" and "\<And>vw. W vw \<Longrightarrow> W' vw"
  shows "serve_step N V C W' ev s s'"
  using assms(1)
proof induct
  case (answer_written s c req vw clk act slog)
  then show ?case by (intro serve_step.answer_written assms(2))
next
  case (write_failed s c req vw clk act slog)
  then show ?case by (intro serve_step.write_failed assms(2))
next
  case (conn_panicked s c req vw clk)
  then show ?case by (intro serve_step.conn_panicked assms(2))
qed (rule serve_step.intros; assumption)+

lemma served_to_mono:
  assumes "served_to N V C W ev s s'" and "\<And>vw. W vw \<Longrightarrow> W' vw"
  shows "served_to N V C W' ev s s'"
  using assms(1) unfolding served_to_def
  by (rule rtranclp_mono [THEN predicate2D, rotated]) (auto intro: serve_step_mono assms(2))

text \<open>The views that the tasks are allowed are those coherent with what has been published by now.\<close>

lemma serving_part_step:
  assumes "whole_step E H w w'" and "system_inv E ev (wh_system w)" and "parts_agree w"
  shows "wh_serving w' = wh_serving w \<or>
    serve_step (de_ipnet E) (de_viaspf E) (de_crypto E) (view_ok (sy_published (wh_system w))) ev
      (wh_serving w) (wh_serving w')"
proof -
  have evaluator: "st_evaluator (sy_state (wh_system w)) = ev"
    using assms(2) by (simp add: system_inv_def cells_inv_def)
  have view: "view_ok (sy_published (wh_system w)) vw"
    if "sy_tasks (wh_system w) c = Some (req, RQ_View vw)" for c req vw
    using assms(2) tasks_invD [OF _ that] by (simp add: system_inv_def)
  have log: "sv_log (wh_serving w) = sy_syslog (wh_system w)" using assms(3) by (simp add: parts_agree_def)
  from assms(1) show ?thesis
  proof cases
    case (task_turn y s s')
    with evaluator show ?thesis by (auto intro: serve_step_mono)
  next
    case (reading s c y req)
    then show ?thesis by (simp add: serve_step.request_read)
  next
    case (answering s c req y vw clk act slog)
    with view [of c req vw] evaluator log show ?thesis
      using serve_step.answer_written [of s c req "view_ok (sy_published y)" vw "de_ipnet E" "de_viaspf E" "de_crypto E"
          clk ev act slog] by simp
  next
    case (answer_lost s c req y vw clk act slog)
    with view [of c req vw] evaluator log show ?thesis
      using serve_step.write_failed [of s c req "view_ok (sy_published y)" vw "de_ipnet E" "de_viaspf E" "de_crypto E"
          clk ev act slog] by simp
  next
    case (panicking s c req y vw clk)
    with view [of c req vw] evaluator log show ?thesis
      using serve_step.conn_panicked [of s c req "view_ok (sy_published y)" vw "de_ipnet E" "de_viaspf E" "de_crypto E"
          clk ev] by simp
  qed simp_all
qed

definition whole_inv ::
  "('net, 'pe, 'x, 'm, 'c, 's, 'd, 'n, 'le, 'te, 've, 'rec) daemon_env \<Rightarrow>
     ('net, 'n, 'le) app_state \<Rightarrow> syslog \<Rightarrow> ('net, 'n, 'le) whole \<Rightarrow> bool"
where
  "whole_inv E st slog w \<longleftrightarrow>
     reachable E (system_start st slog) (wh_system w) \<and>
     system_inv E (st_evaluator st) (wh_system w) \<and>
     served_to (de_ipnet E) (de_viaspf E) (de_crypto E) (view_ok (sy_published (wh_system w)))
       (st_evaluator st) (serve_start (st_config st) slog) (wh_serving w) \<and>
     parts_agree w"

lemma whole_inv_step:
  assumes "whole_step E H w w'" and "whole_inv E st slog w"
  shows "whole_inv E st slog w'"
proof -
  let ?serves = "\<lambda>P. served_to (de_ipnet E) (de_viaspf E) (de_crypto E) (view_ok P) (st_evaluator st)"
  have reach: "reachable E (system_start st slog) (wh_system w)"
    and inv: "system_inv E (st_evaluator st) (wh_system w)"
    and served: "?serves (sy_published (wh_system w)) (serve_start (st_config st) slog) (wh_serving w)"
    and agree: "parts_agree w"
    using assms(2) by (simp_all add: whole_inv_def)
  from system_part_step [OF assms(1) agree] have sys: "reachable E (wh_system w) (wh_system w')"
    by (auto intro: reachable_step)
  have inv': "system_inv E (st_evaluator st) (wh_system w')"
    using sys inv unfolding reachable_def by (rule daemon.inv_steps)
  have "\<exists>Q. sy_published (wh_system w') = sy_published (wh_system w) @ Q"
    using system_part_step [OF assms(1) agree] published_step inv by (fastforce simp: system_inv_def)
  then have more: "view_ok (sy_published (wh_system w)) vw \<Longrightarrow> view_ok (sy_published (wh_system w')) vw" for vw
    by (auto intro: view_ok_append)
  have "?serves (sy_published (wh_system w)) (wh_serving w) (wh_serving w')"
    using serving_part_step [OF assms(1) inv agree] by (auto intro: served_to_step)
  then have "?serves (sy_published (wh_system w')) (serve_start (st_config st) slog) (wh_serving w')"
    by (rule served_to_mono [OF served_to_trans [OF served] more])
  then show ?thesis
    using reachable_trans [OF reach sys] inv' parts_agree_step [OF assms(1) agree]
    by (simp add: whole_inv_def)
qed

interpretation running: transition_system "whole_step E H"
  "\<lambda>w. pair_ok (de_ipnet E) (de_parse_record E) (st_config st, st_whitelist st) \<and> w = whole_start st slog"
  "whole_inv E st slog"
  for E :: "('net, 'pe, 'x, 'm, 'c, 's, 'd, 'n, 'le, 'te, 've, 'rec) daemon_env"
    and H :: handlers and st :: "('net, 'n, 'le) app_state" and slog :: syslog
proof (unfold_locales, goal_cases)
  case (1 w)
  then show ?case
    using system_start_inv [of E st slog] parts_agree_start [of st slog]
    by (auto simp: whole_inv_def whole_start_def)
next
  case (2 w w')
  then show ?case by (rule whole_inv_step [rotated])
qed

lemma whole_run_inv:
  assumes "app_state_new (de_ipnet E) NO fs system_resolver cfg = Ok st"
    and "config_load fs (de_from_toml E) (de_parse_record E) path = Ok cfg"
    and "whole_run E H (whole_start st slog) w"
  shows "whole_inv E st slog w"
  using assms(3) app_state_new_pair [OF assms(1) file_config.load_valid [OF assms(2)]]
  unfolding whole_run_def by (intro running.inv_reachable) simp_all

section \<open>What the handlers allow\<close>

text \<open>Without a SIGHUP handler nothing is ever published, and without a SIGTERM handler nothing is cancelled.\<close>

definition unchanged :: "('net, 'n, 'le) app_state \<Rightarrow> ('net, 'n, 'le) whole \<Rightarrow> bool" where
  "unchanged st w \<longleftrightarrow>
     sy_state (wh_system w) = st \<and> sy_published (wh_system w) = [(st_config st, st_whitelist st)]"

lemma no_sighup_step:
  assumes "whole_step E H w w'" and "\<not> on_sighup H" and "unchanged st w"
  shows "unchanged st w'"
  using assms(1)
proof cases
  case (loading s y y')
  with assms(3) load_turn_parts [OF loading(4)] show ?thesis by (simp add: unchanged_def)
qed (use assms(2,3) in \<open>simp_all add: unchanged_def\<close>)

lemma no_sighup_run:
  assumes "whole_run E H (whole_start st slog) w" and "\<not> on_sighup H"
  shows "unchanged st w"
  using assms(1) unfolding whole_run_def
proof (induction rule: rtranclp_induct)
  case base
  show ?case by (simp add: unchanged_def whole_start_def system_start_def)
qed (rule no_sighup_step [OF _ assms(2)])

lemma no_sigterm_step:
  "whole_step E H w w' \<Longrightarrow> \<not> on_sigterm H \<Longrightarrow> \<not> sv_cancelled (wh_serving w) \<Longrightarrow> \<not> sv_cancelled (wh_serving w')"
  by (erule whole_step.cases) (auto simp: end_conn_def)

lemma no_sigterm_run:
  assumes "whole_run E H (whole_start st slog) w" and "\<not> on_sigterm H"
  shows "\<not> sv_cancelled (wh_serving w)"
  using assms(1) unfolding whole_run_def
proof (induction rule: rtranclp_induct)
  case base
  show ?case by (simp add: whole_start_def serve_start_def)
qed (rule no_sigterm_step [OF _ assms(2)])

lemma view_ok_single: "view_ok [p] vw \<Longrightarrow>
  vw = \<lparr>skip_config_seen = fst p, whitelist_seen = snd p, config_seen = fst p\<rparr>"
  by (cases vw) (auto simp: view_ok_def view_at_def)

section \<open>A request is answered\<close>

text \<open>How many cells the task of a request has still to load.\<close>

fun loads_left :: "'net request_phase \<Rightarrow> nat" where
  "loads_left RQ_Start = 3"
| "loads_left (RQ_Skip_Config _) = 2"
| "loads_left (RQ_Whitelist _ _) = 1"
| "loads_left (RQ_View _) = 0"

lemma load_turn_enabled:
  assumes "sy_tasks y c = Some (req, ph)" and "loads_left ph = Suc k"
  shows "\<exists>ph'. load_turn E y (y\<lparr>sy_tasks := (sy_tasks y)(c \<mapsto> (req, ph'))\<rparr>) \<and> loads_left ph' = k"
proof -
  have turn: "load_turn E y (y\<lparr>sy_tasks := (sy_tasks y)(c \<mapsto> (req, ph'))\<rparr>)"
    if "step E y (y\<lparr>sy_tasks := (sy_tasks y)(c \<mapsto> (req, ph'))\<rparr>)" "ph' \<noteq> ph" for ph'
    using that assms(1) by (auto simp: load_turn_def dest: fun_cong [of _ _ c])
  show ?thesis
  proof (cases ph)
    case RQ_Start
    with assms show ?thesis using turn [OF step.skip_config_loaded] by (intro exI conjI) auto
  next
    case (RQ_Skip_Config cfg)
    with assms show ?thesis using turn [OF step.whitelist_loaded] by (intro exI conjI) auto
  next
    case (RQ_Whitelist cfg wl)
    with assms show ?thesis using turn [OF step.config_loaded] by (intro exI conjI) auto
  qed (use assms in simp)
qed

lemma whole_loads:
  assumes "sv_result s = None" and "sy_tasks y c = Some (req, ph)"
  shows "\<exists>y' vw. whole_run E H \<lparr>wh_system = y, wh_serving = s\<rparr> \<lparr>wh_system = y', wh_serving = s\<rparr> \<and>
    sy_tasks y' c = Some (req, RQ_View vw)"
  using assms(2)
proof (induction "loads_left ph" arbitrary: y ph)
  case 0
  then show ?case by (cases ph) auto
next
  case (Suc k)
  from load_turn_enabled [OF Suc.prems Suc.hyps(2) [symmetric]] obtain ph' where
    turn: "load_turn E y (y\<lparr>sy_tasks := (sy_tasks y)(c \<mapsto> (req, ph'))\<rparr>)" and left: "loads_left ph' = k" by blast
  have "whole_step E H \<lparr>wh_system = y, wh_serving = s\<rparr>
      \<lparr>wh_system = y\<lparr>sy_tasks := (sy_tasks y)(c \<mapsto> (req, ph'))\<rparr>, wh_serving = s\<rparr>"
    using assms(1) turn by (rule whole_step.loading)
  with Suc.hyps(1) [of ph' "y\<lparr>sy_tasks := (sy_tasks y)(c \<mapsto> (req, ph'))\<rparr>"] left show ?case
    by (fastforce intro: whole_run_step)
qed

lemma whole_answers:
  assumes "parts_agree w" and "sv_result (wh_serving w) = None"
    and "sv_conns (wh_serving w) c = Some (CP_Answering req)"
  shows "\<exists>w' act. whole_run E H w w' \<and> sv_conns (wh_serving w') c = Some CP_Select \<and>
    sv_read (wh_serving w') = sv_read (wh_serving w) \<and>
    sv_sent (wh_serving w') = (sv_sent (wh_serving w))(c := sv_sent (wh_serving w) c @ [act]) \<and>
    (\<exists>vw. last (sy_answers (wh_system w')) = (vw, req, act))"
proof -
  obtain y s where w: "w = \<lparr>wh_system = y, wh_serving = s\<rparr>" by (cases w) simp
  from assms have "conn_agrees (Some (CP_Answering req)) (sy_tasks y c)"
    unfolding w parts_agree_def by (metis whole.select_convs)
  then obtain ph where "sy_tasks y c = Some (req, ph)" by auto
  with assms(2) obtain y' vw where
    loads: "whole_run E H w \<lparr>wh_system = y', wh_serving = s\<rparr>" and view: "sy_tasks y' c = Some (req, RQ_View vw)"
    unfolding w by (metis whole_loads whole.select_convs(2))
  obtain act slog where act: "handle_request_at (de_ipnet E) (de_viaspf E) (de_crypto E) (Some 0) vw
      (st_evaluator (sy_state y')) req (sy_syslog y') = Some (act, slog)"
    using handle_total by fastforce
  have "sv_result s = None" "sv_conns s c = Some (CP_Answering req)" using assms(2,3) by (simp_all add: w)
  from whole_run_trans [OF loads whole_run_step [OF whole_step.answering [OF this view act] whole_run_refl]]
  show ?thesis by (intro exI conjI) (assumption, simp_all add: w)
qed

end
