(* ===== verification/Whole_Properties.thy ===== *)
theory Whole_Properties
  imports Whole_Daemon Sample_Deployment
begin

text \<open>Properties of the running daemon as a whole: what reaches its connections.\<close>

section \<open>A run with a request under way\<close>

text \<open>One listener has accepted one connection, and a request has been read from it.\<close>

definition sample_handlers :: "bool \<Rightarrow> handlers" where
  "sample_handlers hup = \<lparr>on_sighup = hup, on_sigterm = True\<rparr>"

definition sample_whole :: "(ip_addr, string, string) whole" where
  "sample_whole =
     \<lparr>wh_system = (system_start sample_state sample_syslog)\<lparr>sy_tasks := [0 \<mapsto> (sample_request, RQ_Start)]\<rparr>,
      wh_serving =
        \<lparr>sv_cancelled = False, sv_listeners = [Some (Task_Serving [0])], sv_next = 1,
         sv_conns = [0 \<mapsto> CP_Answering sample_request], sv_joined = 0, sv_result = None,
         sv_log = sample_syslog, sv_read = (\<lambda>_. [])(0 := [sample_request]), sv_sent = (\<lambda>_. [])\<rparr>\<rparr>"

lemma sample_whole_reached:
  "whole_run sample_env H (whole_start sample_state sample_syslog) sample_whole"
proof -
  let ?y = "system_start sample_state sample_syslog"
  let ?step = "serve_step (de_ipnet sample_env) (de_viaspf sample_env) (de_crypto sample_env) (\<lambda>_. False)
    (st_evaluator (sy_state ?y))"
  let ?s0 = "serve_start sample_config sample_syslog"
  let ?s1 = "end_listener 0 (Task_Serving []) ?s0"
  let ?s2 = "(end_listener 0 (Task_Serving ([] @ [sv_next ?s1])) ?s1)
     \<lparr>sv_next := Suc (sv_next ?s1), sv_conns := (sv_conns ?s1)(sv_next ?s1 \<mapsto> CP_Select)\<rparr>"
  let ?w = "\<lambda>s. \<lparr>wh_system = ?y, wh_serving = s\<rparr>"
  have one: "sv_listeners ?s0 = [None]" "sv_result ?s0 = None"
    by (simp_all add: serve_start_def sample_config_def config_defaults)
  have "?step ?s0 ?s1" using one by (intro serve_step.bound) simp_all
  then have t1: "whole_step sample_env H (?w ?s0) (?w ?s1)"
    by (rule whole_step.task_turn) (simp_all add: end_listener_def)
  have "?step ?s1 ?s2" using one by (intro serve_step.accept_one) (simp_all add: end_listener_def)
  then have t2: "whole_step sample_env H (?w ?s1) (?w ?s2)"
    by (rule whole_step.task_turn) (simp_all add: end_listener_def)
  have "sv_result ?s2 = None" "sv_conns ?s2 0 = Some CP_Select"
    using one by (simp_all add: end_listener_def serve_start_def)
  from whole_step.reading [OF this, of sample_env H ?y sample_request]
  have t3: "whole_step sample_env H (?w ?s2) sample_whole"
    by (simp add: sample_whole_def end_listener_def serve_start_def system_start_def sample_config_def config_defaults)
  have "?w ?s0 = whole_start sample_state sample_syslog"
    by (simp add: whole_start_def sample_state_def)
  with t1 t2 t3 show ?thesis by (metis whole_run_refl whole_run_step)
qed

lemma sample_daemon:
  "app_state_new (de_ipnet sample_env) sample_names (sample_files ''a'') (Ok sample_dns :: (string, _) res)
     sample_config = Ok sample_state"
  "config_load (sample_files ''a'') (de_from_toml sample_env) (de_parse_record sample_env) [] = Ok sample_config"
  by (simp_all add: sample_env_def sample_start sample_load)

lemma sample_answered:
  "\<exists>w act. whole_run sample_env H (whole_start sample_state sample_syslog) w \<and>
    sv_read (wh_serving w) 0 = [sample_request] \<and> sv_sent (wh_serving w) 0 = [act]"
proof -
  have "parts_agree sample_whole"
    using whole_run_inv [OF sample_daemon sample_whole_reached] by (simp add: whole_inv_def)
  from whole_answers [OF this, of 0 sample_request sample_env H] obtain w act where
    "whole_run sample_env H sample_whole w"
    "sv_sent (wh_serving w) 0 = [act]" "sv_read (wh_serving w) 0 = [sample_request]"
    by (auto simp: sample_whole_def)
  then show ?thesis using whole_run_trans [OF sample_whole_reached] by blast
qed

section \<open>Properties\<close>

text \<open>
  C1: In the running daemon, with reloads, requests, listeners, connections and the shutdown
  interleaved in any order, the responses written to a connection are the handler's, one for each
  request read from it and in that order, at most the last one missing; each was given at a
  coherent view of the pairs of configuration and whitelist published so far, all of them valid
  pairs; and nothing but the pair of the start-up is ever published where the SIGHUP handler could
  not be installed.
\<close>

theorem daemon_responses:
  assumes "app_state_new (de_ipnet E) NO fs system_resolver cfg = Ok st"
    and "config_load fs (de_from_toml E) (de_parse_record E) path = Ok cfg"
    and "whole_run E H (whole_start st slog) w"
  shows "(\<exists>answered rest. sv_read (wh_serving w) c = answered @ rest \<and> length rest \<le> 1 \<and>
      list_all2 (\<lambda>req act. \<exists>vw clk lg lg'. view_ok (sy_published (wh_system w)) vw \<and>
          handle_request_at (de_ipnet E) (de_viaspf E) (de_crypto E) clk vw (st_evaluator st) req lg = Some (act, lg'))
        answered (sv_sent (wh_serving w) c)) \<and>
    list_all (pair_ok (de_ipnet E) (de_parse_record E)) (sy_published (wh_system w)) \<and>
    (sy_published (wh_system w) = [(st_config st, st_whitelist st)] \<or> on_sighup H)"
proof -
  have inv: "whole_inv E st slog w" by (rule whole_run_inv [OF assms])
  then have "list_all (pair_ok (de_ipnet E) (de_parse_record E)) (sy_published (wh_system w))"
    by (simp add: whole_inv_def system_inv_def cells_inv_def)
  moreover have "served_to (de_ipnet E) (de_viaspf E) (de_crypto E) (view_ok (sy_published (wh_system w)))
      (st_evaluator st) (serve_start (st_config st) slog) (wh_serving w)"
    using inv by (simp add: whole_inv_def)
  moreover have "sy_published (wh_system w) = [(st_config st, st_whitelist st)] \<or> on_sighup H"
    using no_sighup_run [OF assms(3)] by (auto simp: unchanged_def)
  ultimately show ?thesis by (blast intro: responses_ordered)
qed

lemma daemon_responses_example:
  "\<exists>w act. whole_run sample_env (sample_handlers True) (whole_start sample_state sample_syslog) w \<and>
    sv_sent (wh_serving w) 0 = [act] \<and>
    (\<exists>vw clk lg lg'. view_ok (sy_published (wh_system w)) vw \<and>
       handle_request_at sample_ipnet sample_viaspf sample_crypto clk vw (st_evaluator sample_state)
         sample_request lg = Some (act, lg'))"
proof -
  obtain w act where run: "whole_run sample_env (sample_handlers True) (whole_start sample_state sample_syslog) w"
    and read: "sv_read (wh_serving w) 0 = [sample_request]" and sent: "sv_sent (wh_serving w) 0 = [act]"
    using sample_answered by blast
  from daemon_responses [OF sample_daemon run, of 0] sent read
  have "\<exists>vw clk lg lg'. view_ok (sy_published (wh_system w)) vw \<and>
       handle_request_at sample_ipnet sample_viaspf sample_crypto clk vw (st_evaluator sample_state)
         sample_request lg = Some (act, lg')"
    by (auto simp: sample_env_def list_all2_Cons2) blast+
  with run sent show ?thesis by blast
qed





end
