(* ===== verification/Proto_Tests.thy ===== *)
theory Proto_Tests
  imports Sample_Deployment
begin

text \<open>
  The unit tests of the repository for addresses, configuration values, the protocol and logging,
  transcribed over the model and evaluated: the model gives the answers that the code's authors
  expect of the code. A test is a boolean; external code that it calls is a parameter, given by a
  concrete function where the test is evaluated.
\<close>

section \<open>A network type for the tests\<close>

text \<open>An address with the length of its prefix, and its text form.\<close>

datatype prefix_net = Prefix_Net ip_addr nat

fun address_bits :: "ip_addr \<Rightarrow> nat" where
  "address_bits (V4 (Ipv4Addr a b c d)) = unat a * 16777216 + unat b * 65536 + unat c * 256 + unat d"
| "address_bits (V6 a) = foldl (\<lambda>n s. n * 65536 + unat s) 0 (segments a)"

fun address_width :: "ip_addr \<Rightarrow> nat" where
  "address_width (V4 _) = 32"
| "address_width (V6 _) = 128"

fun prefix_net_contains :: "prefix_net \<Rightarrow> ip_addr \<Rightarrow> bool" where
  "prefix_net_contains (Prefix_Net net len) ip =
     (address_width net = address_width ip \<and>
      (let host = 2 ^ (address_width net - len)
       in address_bits net div host = address_bits ip div host))"

definition parse_prefix_net :: "string \<Rightarrow> (unit, prefix_net) res" where
  "parse_prefix_net s =
     (case split_once (CHR ''/'') s of
        None \<Rightarrow> Err ()
      | Some (a, len) \<Rightarrow>
          (case parse_ip_addr a of
             None \<Rightarrow> Err ()
           | Some ip \<Rightarrow>
               if len \<noteq> [] \<and> list_all (\<lambda>c. to_digit 10 c \<noteq> None) len
               then Ok (Prefix_Net ip (foldl (\<lambda>n c. n * 10 + the (to_digit 10 c)) 0 len))
               else Err ()))"

definition prefix_ipnet :: "(prefix_net, unit) ipnet" where
  "prefix_ipnet = \<lparr>net_contains = prefix_net_contains, net_from_str = parse_prefix_net\<rparr>"

text \<open>\<open>parse().unwrap()\<close>: a failure is no value, and makes the test fail.\<close>

definition parse_nets :: "('net, 'pe) ipnet \<Rightarrow> string list \<Rightarrow> 'net list option" where
  "parse_nets N ns =
     (if list_all (\<lambda>n. is_ok (net_from_str N n)) ns
      then Some (map (\<lambda>n. case net_from_str N n of Inr net \<Rightarrow> net) ns) else None)"

section \<open>Address sets\<close>

definition set_of :: "('net, 'pe) ipnet \<Rightarrow> string list \<Rightarrow> 'net cidr_set option" where
  "set_of N nets = map_option cidr_new (parse_nets N nets)"

definition set_contains :: "('net, 'pe) ipnet \<Rightarrow> string list \<Rightarrow> string \<Rightarrow> bool option" where
  "set_contains N nets ip =
     (case (set_of N nets, parse_ip_addr ip) of
        (Some s, Some a) \<Rightarrow> Some (cidr_contains N s a)
      | _ \<Rightarrow> None)"

definition matches_ipv4_cidr :: "('net, 'pe) ipnet \<Rightarrow> bool" where
  "matches_ipv4_cidr N \<longleftrightarrow>
     set_contains N [''192.0.2.0/24''] ''192.0.2.10'' = Some True \<and>
     set_contains N [''192.0.2.0/24''] ''192.0.3.10'' = Some False"

definition matches_exact_host_slash_32 :: "('net, 'pe) ipnet \<Rightarrow> bool" where
  "matches_exact_host_slash_32 N \<longleftrightarrow>
     set_contains N [''192.0.2.10/32''] ''192.0.2.10'' = Some True \<and>
     set_contains N [''192.0.2.10/32''] ''192.0.2.11'' = Some False"

definition matches_ipv6_cidr :: "('net, 'pe) ipnet \<Rightarrow> bool" where
  "matches_ipv6_cidr N \<longleftrightarrow>
     set_contains N [''2001:db8::/32''] ''2001:db8::1'' = Some True \<and>
     set_contains N [''2001:db8::/32''] ''2001:db9::1'' = Some False"

definition slash_zero_matches_everything_in_family :: "('net, 'pe) ipnet \<Rightarrow> bool" where
  "slash_zero_matches_everything_in_family N \<longleftrightarrow>
     set_contains N [''0.0.0.0/0''] ''8.8.8.8'' = Some True \<and>
     set_contains N [''0.0.0.0/0''] ''::1'' = Some False"

definition empty_set_matches_nothing :: "('net, 'pe) ipnet \<Rightarrow> bool" where
  "empty_set_matches_nothing N \<longleftrightarrow>
     cidr_is_empty (cidr_default :: 'net cidr_set) \<and>
     map_option (cidr_contains N cidr_default) (parse_ip_addr ''127.0.0.1'') = Some False"

lemma cidr_set_tests:
  "matches_ipv4_cidr prefix_ipnet" "matches_exact_host_slash_32 prefix_ipnet"
  "matches_ipv6_cidr prefix_ipnet" "slash_zero_matches_everything_in_family prefix_ipnet"
  "empty_set_matches_nothing prefix_ipnet"
  by code_simp+

section \<open>Listener addresses\<close>

definition parses_tcp_listen_addr :: bool where
  "parses_tcp_listen_addr \<longleftrightarrow>
     (case parse_socket_addr ''127.0.0.1:10045'' of
        None \<Rightarrow> False
      | Some a \<Rightarrow> listen_addr_from_str ''tcp:127.0.0.1:10045'' = Ok (Tcp a))"

definition parses_unix_listen_addr :: bool where
  "parses_unix_listen_addr \<longleftrightarrow>
     listen_addr_from_str ''unix:/run/rspf/policy.sock'' = Ok (Unix ''/run/rspf/policy.sock'')"

definition rejects_missing_scheme :: bool where
  "rejects_missing_scheme \<longleftrightarrow>
     listen_addr_from_str ''127.0.0.1:10045'' = Err (MissingScheme ''127.0.0.1:10045'')"

definition rejects_bad_tcp_addr :: bool where
  "rejects_bad_tcp_addr \<longleftrightarrow>
     (case listen_addr_from_str ''tcp:not-an-addr'' of Inl (InvalidTcp _ _) \<Rightarrow> True | _ \<Rightarrow> False)"

definition rejects_empty_unix_path :: bool where
  "rejects_empty_unix_path \<longleftrightarrow> listen_addr_from_str ''unix:'' = Err EmptyUnixPath"

definition default_is_fail :: bool where
  "default_is_fail \<longleftrightarrow> default_reject_policy = RP_Fail"

lemma listen_addr_tests:
  parses_tcp_listen_addr parses_unix_listen_addr rejects_missing_scheme rejects_bad_tcp_addr
  rejects_empty_unix_path default_is_fail
  by code_simp+

section \<open>Requests\<close>

definition parses_known_attributes :: bool where
  "parses_known_attributes \<longleftrightarrow>
     (case from_lines
        [''request=smtpd_access_policy'', ''protocol_state=RCPT'', ''helo_name=mail.example.com'',
         ''sender=user@example.com'', ''recipient=postmaster@ourdomain.com'',
         ''client_address=192.0.2.10'', ''instance=123.456.7''] of
        Inl _ \<Rightarrow> False
      | Inr req \<Rightarrow>
          request req = Some ''smtpd_access_policy'' \<and> protocol_state req = Some ''RCPT'' \<and>
          helo_name req = Some ''mail.example.com'' \<and> sender req = Some ''user@example.com'' \<and>
          client_address req = Some ''192.0.2.10'' \<and>
          (case client_ip req of Inl _ \<Rightarrow> False | Inr ip \<Rightarrow> parse_ip_addr ''192.0.2.10'' = Some ip))"

definition unknown_attributes_go_to_extra :: bool where
  "unknown_attributes_go_to_extra \<longleftrightarrow>
     (case from_lines [''sasl_method=plain'', ''size=1024''] of
        Inl _ \<Rightarrow> False
      | Inr req \<Rightarrow> extra req ''sasl_method'' = Some ''plain'' \<and> extra req ''size'' = Some ''1024'')"

definition empty_value_is_allowed :: bool where
  "empty_value_is_allowed \<longleftrightarrow>
     (case from_lines [''sender=''] of Inl _ \<Rightarrow> False | Inr req \<Rightarrow> sender req = Some [])"

definition error_of :: "('e, 'a) res \<Rightarrow> 'e option" where
  "error_of r = (case r of Inl e \<Rightarrow> Some e | Inr _ \<Rightarrow> None)"

definition rejects_line_without_equals :: bool where
  "rejects_line_without_equals \<longleftrightarrow>
     error_of (from_lines [''not_a_kv_pair'']) = Some (MalformedLine ''not_a_kv_pair'')"

definition rejects_empty_request :: bool where
  "rejects_empty_request \<longleftrightarrow> error_of (from_lines []) = Some EmptyRequest"

definition client_ip_missing :: bool where
  "client_ip_missing \<longleftrightarrow>
     (case from_lines [''sender=a@b.com''] of
        Inl _ \<Rightarrow> False | Inr req \<Rightarrow> client_ip req = Err MissingClientAddress)"

definition client_ip_invalid :: bool where
  "client_ip_invalid \<longleftrightarrow>
     (case from_lines [''client_address=not-an-ip''] of
        Inl _ \<Rightarrow> False | Inr req \<Rightarrow> client_ip req = Err (InvalidClientAddress ''not-an-ip''))"

definition parses_ipv6_client_address :: bool where
  "parses_ipv6_client_address \<longleftrightarrow>
     (case from_lines [''client_address=2001:db8::1''] of
        Inl _ \<Rightarrow> False
      | Inr req \<Rightarrow>
          (case client_ip req of Inl _ \<Rightarrow> False | Inr ip \<Rightarrow> parse_ip_addr ''2001:db8::1'' = Some ip))"

lemma request_tests:
  parses_known_attributes unknown_attributes_go_to_extra empty_value_is_allowed
  rejects_line_without_equals rejects_empty_request client_ip_missing client_ip_invalid
  parses_ipv6_client_address
  by code_simp+

section \<open>Responses\<close>

definition dunno_wire_format :: bool where
  "dunno_wire_format \<longleftrightarrow> to_wire Dunno = ''action=dunno'' @ [LF, LF]"

definition prepend_wire_format :: bool where
  "prepend_wire_format \<longleftrightarrow>
     to_wire (Prepend ''Received-SPF: pass'') = ''action=PREPEND Received-SPF: pass'' @ [LF, LF]"

definition reject_wire_format :: bool where
  "reject_wire_format \<longleftrightarrow>
     to_wire (Reject ''550 5.7.1 SPF check failed'') = ''action=550 5.7.1 SPF check failed'' @ [LF, LF]"

definition defer_if_permit_wire_format :: bool where
  "defer_if_permit_wire_format \<longleftrightarrow>
     to_wire (DeferIfPermit ''4.7.1 temporary DNS error'') =
       ''action=defer_if_permit 4.7.1 temporary DNS error'' @ [LF, LF]"

lemma response_tests:
  dunno_wire_format prepend_wire_format reject_wire_format defer_if_permit_wire_format
  by code_simp+

end
