(* ===== verification/Config_Tests.thy ===== *)
theory Config_Tests
  imports Config_Properties Proto_Tests
begin

text \<open>
  The unit tests of \<open>rspf/src/config/load.rs\<close> and \<open>policy.rs\<close>, transcribed over the model. The parser of
  TOML and that of SPF records are parameters. Where a test is evaluated, the parser is the table
  of the files of the tests with their TOML values, so that the deserialization and the
  validation of the model are what is tested.
\<close>

section \<open>Loading a file\<close>

definition write_temp_config :: "string \<Rightarrow> file_system" where
  "write_temp_config contents = (\<lambda>_. Ok contents)"

definition quoted :: "string \<Rightarrow> string" where
  "quoted s = [CHR 0x22] @ s @ [CHR 0x22]"

text \<open>The raw strings of the tests: indented lines between line feeds.\<close>

definition raw_lines :: "string list \<Rightarrow> string" where
  "raw_lines ls = concat (map (\<lambda>l. LF # replicate 12 (CHR '' '') @ l) ls) @ LF # replicate 12 (CHR '' '')"

definition loads_minimal_valid_config_file :: string where
  "loads_minimal_valid_config_file = raw_lines
       [''[server]'',
        ''listen = ['' @ quoted ''tcp:127.0.0.1:10045'' @ '']'']"

definition loads_minimal_valid_config ::
  "(string \<Rightarrow> ('te, 'net config) res) \<Rightarrow> (string \<Rightarrow> ('ve, 'rec) res) \<Rightarrow> bool"
where
  "loads_minimal_valid_config from_toml parse_record \<longleftrightarrow>
     (let r = config_load (write_temp_config loads_minimal_valid_config_file) from_toml parse_record ''/tmp/file''
      in (case r of Inr c \<Rightarrow> length (listen (server_cfg c)) = 1 \<and> void_limit (spf_cfg c) = 2 | _ \<Rightarrow> False))"

definition rejects_empty_listen_list_file :: string where
  "rejects_empty_listen_list_file = raw_lines
       [''[server]'',
        ''listen = []'']"

definition rejects_empty_listen_list ::
  "(string \<Rightarrow> ('te, 'net config) res) \<Rightarrow> (string \<Rightarrow> ('ve, 'rec) res) \<Rightarrow> bool"
where
  "rejects_empty_listen_list from_toml parse_record \<longleftrightarrow>
     (let r = config_load (write_temp_config rejects_empty_listen_list_file) from_toml parse_record ''/tmp/file''
      in (case r of Inl NoListenAddresses \<Rightarrow> True | _ \<Rightarrow> False))"

definition rejects_srs_enabled_without_secrets_file :: string where
  "rejects_srs_enabled_without_secrets_file = raw_lines
       [''[server]'',
        ''listen = ['' @ quoted ''tcp:127.0.0.1:10045'' @ '']'',
        ''[srs]'',
        ''enabled = true'']"

definition rejects_srs_enabled_without_secrets ::
  "(string \<Rightarrow> ('te, 'net config) res) \<Rightarrow> (string \<Rightarrow> ('ve, 'rec) res) \<Rightarrow> bool"
where
  "rejects_srs_enabled_without_secrets from_toml parse_record \<longleftrightarrow>
     (let r = config_load (write_temp_config rejects_srs_enabled_without_secrets_file) from_toml parse_record ''/tmp/file''
      in (case r of Inl SrsEnabledWithoutSecrets \<Rightarrow> True | _ \<Rightarrow> False))"

definition rejects_bad_override_record_file :: string where
  "rejects_bad_override_record_file = raw_lines
       [''[server]'',
        ''listen = ['' @ quoted ''tcp:127.0.0.1:10045'' @ '']'',
        ''[overrides]'',
        quoted ''example.com'' @ '' = '' @ quoted ''not an spf record'']"

definition rejects_bad_override_record ::
  "(string \<Rightarrow> ('te, 'net config) res) \<Rightarrow> (string \<Rightarrow> ('ve, 'rec) res) \<Rightarrow> bool"
where
  "rejects_bad_override_record from_toml parse_record \<longleftrightarrow>
     (let r = config_load (write_temp_config rejects_bad_override_record_file) from_toml parse_record ''/tmp/file''
      in (case r of Inl (InvalidOverrideRecord domain _ _) \<Rightarrow> domain = ''example.com'' | _ \<Rightarrow> False))"

definition accepts_valid_override_record_file :: string where
  "accepts_valid_override_record_file = raw_lines
       [''[server]'',
        ''listen = ['' @ quoted ''tcp:127.0.0.1:10045'' @ '']'',
        ''[overrides]'',
        quoted ''example.com'' @ '' = '' @ quoted ''v=spf1 ip4:192.0.2.0/24 -all'']"

definition accepts_valid_override_record ::
  "(string \<Rightarrow> ('te, 'net config) res) \<Rightarrow> (string \<Rightarrow> ('ve, 'rec) res) \<Rightarrow> bool"
where
  "accepts_valid_override_record from_toml parse_record \<longleftrightarrow>
     (let r = config_load (write_temp_config accepts_valid_override_record_file) from_toml parse_record ''/tmp/file''
      in (case r of Inr c \<Rightarrow> map_of (overrides c) ''example.com'' = Some ''v=spf1 ip4:192.0.2.0/24 -all'' | _ \<Rightarrow> False))"

definition rejects_override_record_with_v_spf1_prefix_but_bad_syntax_file :: string where
  "rejects_override_record_with_v_spf1_prefix_but_bad_syntax_file = raw_lines
       [''[server]'',
        ''listen = ['' @ quoted ''tcp:127.0.0.1:10045'' @ '']'',
        ''[overrides]'',
        quoted ''example.com'' @ '' = '' @ quoted ''v=spf1 this-is-not-valid-all'']"

definition rejects_override_record_with_v_spf1_prefix_but_bad_syntax ::
  "(string \<Rightarrow> ('te, 'net config) res) \<Rightarrow> (string \<Rightarrow> ('ve, 'rec) res) \<Rightarrow> bool"
where
  "rejects_override_record_with_v_spf1_prefix_but_bad_syntax from_toml parse_record \<longleftrightarrow>
     (let r = config_load (write_temp_config rejects_override_record_with_v_spf1_prefix_but_bad_syntax_file) from_toml parse_record ''/tmp/file''
      in (case r of Inl (InvalidOverrideRecord domain _ _) \<Rightarrow> domain = ''example.com'' | _ \<Rightarrow> False))"

definition rejects_unknown_message_placeholder_file :: string where
  "rejects_unknown_message_placeholder_file = raw_lines
       [''[server]'',
        ''listen = ['' @ quoted ''tcp:127.0.0.1:10045'' @ '']'',
        ''[messages]'',
        ''fail = '' @ quoted ''550 5.7.1 {bogus}'']"

definition rejects_unknown_message_placeholder ::
  "(string \<Rightarrow> ('te, 'net config) res) \<Rightarrow> (string \<Rightarrow> ('ve, 'rec) res) \<Rightarrow> bool"
where
  "rejects_unknown_message_placeholder from_toml parse_record \<longleftrightarrow>
     (let r = config_load (write_temp_config rejects_unknown_message_placeholder_file) from_toml parse_record ''/tmp/file''
      in (case r of Inl (UnknownMessagePlaceholder name p) \<Rightarrow> name = ''fail'' \<and> p = ''bogus'' | _ \<Rightarrow> False))"

definition accepts_known_message_placeholders_file :: string where
  "accepts_known_message_placeholders_file = raw_lines
       [''[server]'',
        ''listen = ['' @ quoted ''tcp:127.0.0.1:10045'' @ '']'',
        ''[messages]'',
        ''fail = '' @ quoted ''550 5.7.1 {sender} not allowed from {ip} for {recipient} ({helo}) [{result}]'']"

definition accepts_known_message_placeholders ::
  "(string \<Rightarrow> ('te, 'net config) res) \<Rightarrow> (string \<Rightarrow> ('ve, 'rec) res) \<Rightarrow> bool"
where
  "accepts_known_message_placeholders from_toml parse_record \<longleftrightarrow>
     (let r = config_load (write_temp_config accepts_known_message_placeholders_file) from_toml parse_record ''/tmp/file''
      in is_ok r)"

text \<open>The values of these files.\<close>

definition test_server :: "string \<times> sample_toml" where
  "test_server = (''server'', T_Table [(''listen'', T_Array [T_Str ''tcp:127.0.0.1:10045''])])"

definition test_files :: "(string \<times> sample_toml) list" where
  "test_files =
     [(loads_minimal_valid_config_file,
        T_Table [test_server]),
      (rejects_empty_listen_list_file,
        T_Table [(''server'', T_Table [(''listen'', T_Array [])])]),
      (rejects_srs_enabled_without_secrets_file,
        T_Table [test_server, (''srs'', T_Table [(''enabled'', T_Bool True)])]),
      (rejects_bad_override_record_file,
        T_Table [test_server, (''overrides'', T_Table [(''example.com'', T_Str ''not an spf record'')])]),
      (accepts_valid_override_record_file,
        T_Table [test_server, (''overrides'', T_Table [(''example.com'', T_Str ''v=spf1 ip4:192.0.2.0/24 -all'')])]),
      (rejects_override_record_with_v_spf1_prefix_but_bad_syntax_file,
        T_Table [test_server, (''overrides'', T_Table [(''example.com'', T_Str ''v=spf1 this-is-not-valid-all'')])]),
      (rejects_unknown_message_placeholder_file,
        T_Table [test_server, (''messages'', T_Table [(''fail'', T_Str ''550 5.7.1 {bogus}'')])]),
      (accepts_known_message_placeholders_file,
        T_Table [test_server, (''messages'', T_Table [(''fail'', T_Str ''550 5.7.1 {sender} not allowed from {ip} for {recipient} ({helo}) [{result}]'')])])]"

definition test_from_toml :: "string \<Rightarrow> (string, prefix_net config) res" where
  "test_from_toml =
     from_str_of (sample_reader prefix_ipnet)
       (\<lambda>raw. case map_of test_files raw of None \<Rightarrow> Err ''syntax'' | Some v \<Rightarrow> Ok v)"

text \<open>A parser that knows one record.\<close>

definition test_parse_record :: "string \<Rightarrow> (unit, string) res" where
  "test_parse_record r = (if r = ''v=spf1 ip4:192.0.2.0/24 -all'' then Ok r else Err ())"

lemma loads_minimal_valid_config_holds: "loads_minimal_valid_config test_from_toml test_parse_record"
  by code_simp

lemma rejects_empty_listen_list_holds: "rejects_empty_listen_list test_from_toml test_parse_record"
  by code_simp

lemma rejects_srs_enabled_without_secrets_holds: "rejects_srs_enabled_without_secrets test_from_toml test_parse_record"
  by code_simp

lemma rejects_bad_override_record_holds: "rejects_bad_override_record test_from_toml test_parse_record"
  by code_simp

lemma accepts_valid_override_record_holds: "accepts_valid_override_record test_from_toml test_parse_record"
  by code_simp

lemma rejects_override_record_with_v_spf1_prefix_but_bad_syntax_holds: "rejects_override_record_with_v_spf1_prefix_but_bad_syntax test_from_toml test_parse_record"
  by code_simp

lemma rejects_unknown_message_placeholder_holds: "rejects_unknown_message_placeholder test_from_toml test_parse_record"
  by code_simp

lemma accepts_known_message_placeholders_holds: "accepts_known_message_placeholders test_from_toml test_parse_record"
  by code_simp

section \<open>The names of the policies\<close>

text \<open>\<open>parse\<close> reads a field with the given string; the reader of the string is a parameter.\<close>

definition deserializes_snake_case_variants :: "('v, 'e, 'net) toml_reader \<Rightarrow> (string \<Rightarrow> 'v) \<Rightarrow> bool" where
  "deserializes_snake_case_variants R str \<longleftrightarrow>
     list_all (\<lambda>(name, p). case deserialize_reject_policy R (str name) of Inl _ \<Rightarrow> False | Inr q \<Rightarrow> q = p)
       [(''fail'', RP_Fail), (''soft_fail'', RP_SoftFail), (''spf_not_pass'', RP_SpfNotPass),
        (''never'', RP_Never), (''no_check'', RP_NoCheck)]"

lemma policy_name_tests: "deserializes_snake_case_variants (sample_reader sample_ipnet) T_Str"
  by code_simp

section \<open>The example configuration\<close>

text \<open>
  The value of \<open>config/rspf.toml.example\<close>, which is compiled into the program as \<open>EXAMPLE_TOML\<close>.
\<close>

definition example_value :: sample_toml where
  "example_value =
     T_Table
       [(''server'', T_Table [(''listen'', T_Array [T_Str ''tcp:127.0.0.1:10045''])]),
        (''log'', T_Table [(''level'', T_Str ''info'')]),
        (''policy'', T_Table
           [(''helo_reject'', T_Str ''fail''), (''mail_from_reject'', T_Str ''fail''),
            (''permerror_reject'', T_Bool False), (''temperror_defer'', T_Bool False)]),
        (''skip'', T_Table [(''addresses'', T_Array [T_Str ''127.0.0.0/8'', T_Str ''::1/128''])]),
        (''whitelist'', T_Table
           [(''ips'', T_Array []), (''helo_names'', T_Array []), (''domains'', T_Array []),
            (''domains_ptr'', T_Array []), (''files'', T_Array [])]),
        (''spf'', T_Table
           [(''lookup_timeout_secs'', T_Num 20), (''void_limit'', T_Num 2), (''max_lookups'', T_Num 10)]),
        (''overrides'', T_Table []),
        (''srs'', T_Table [(''enabled'', T_Bool False), (''secrets'', T_Array []), (''max_age_days'', T_Num 21)]),
        (''relay'', T_Table [(''exempt_sasl_authenticated'', T_Bool False), (''trusted_relays'', T_Array [])]),
        (''header'', T_Table [(''mode'', T_Str ''spf''), (''hide_receiver'', T_Bool False)]),
        (''messages'', T_Table
           [(''fail'', T_Str ''550 5.7.1 SPF check failed: {sender} is not allowed to send mail from {ip}''),
            (''softfail'',
               T_Str ''550 5.7.1 SPF check failed (softfail): {sender} is not allowed to send mail from {ip}''),
            (''neutral'', T_Str ''550 5.7.1 SPF check neutral for {sender} from {ip}''),
            (''none'', T_Str ''550 5.7.1 SPF check found no record for {sender}''),
            (''permerror'', T_Str ''550 5.7.1 SPF check permanent error for {sender}''),
            (''temperror'', T_Str ''451 4.7.1 Temporary SPF error for {sender}, please try again later'')])]"

definition example_toml_parses_and_validates ::
  "(string \<Rightarrow> ('te, 'net config) res) \<Rightarrow> (string \<Rightarrow> ('ve, 'rec) res) \<Rightarrow> string \<Rightarrow> bool"
where
  "example_toml_parses_and_validates from_toml parse_record example_toml \<longleftrightarrow>
     (case from_toml example_toml of
        Inl _ \<Rightarrow> False
      | Inr config \<Rightarrow>
          (case (validate parse_record config :: ((unit, 've) config_error, unit) res) of
             Inl _ \<Rightarrow> False | Inr _ \<Rightarrow> True))"

text \<open>
  The example documents the defaults: but for its listener, its skipped networks and the maximum
  age of SRS addresses, which is that of a section without the key, it is the configuration that
  a file with only a server section gives.
\<close>

definition example_config :: "prefix_net config" where
  "example_config =
     (minimal_config \<lparr>listen = [Tcp (SocketV4 (Ipv4Addr 127 0 0 1) 10045)], test_only = False\<rparr>)
       \<lparr>skip_cfg := \<lparr>addresses =
          CidrSet [Prefix_Net (V4 (Ipv4Addr 127 0 0 0)) 8, Prefix_Net (V6 (Ipv6Addr 0 0 0 0 0 0 0 1)) 128]\<rparr>,
        srs_cfg := default_srs_config\<lparr>max_age_days := default_srs_max_age_days\<rparr>\<rparr>"

lemma example_defaults: "deserialize_config (sample_reader prefix_ipnet) example_value = Ok example_config"
  by code_simp

lemma example_toml_test:
  "example_toml_parses_and_validates
     (from_str_of (sample_reader prefix_ipnet) (\<lambda>_. Ok example_value)) parse_record example_toml"
proof -
  let ?srv = "\<lparr>listen = [Tcp (SocketV4 (Ipv4Addr 127 0 0 1) 10045)], test_only = False\<rparr>"
  have "config_valid parse_record (minimal_config ?srv :: prefix_net config)"
    by (simp add: minimal_config_valid)
  then have "config_valid parse_record example_config"
    by (simp add: config_valid_def example_config_def minimal_config_def default_srs_config_def)
  then show ?thesis
    using example_defaults
    by (simp add: example_toml_parses_and_validates_def from_str_of_def validate_Ok_iff [THEN iffD2])
qed

end
