(* ===== verification/Policy_Tests.thy ===== *)
theory Policy_Tests
  imports Proto_Tests
begin

text \<open>
  The unit tests of the repository for the codec, logging, SRS, the whitelist, the overrides, the
  header, the engine and the server, transcribed over the model and evaluated.
\<close>

section \<open>Codec\<close>

definition decodes_single_request :: bool where
  "decodes_single_request \<longleftrightarrow>
     map_option (map client_address)
       (decode_all [''request=smtpd_access_policy'' @ [LF] @ ''client_address=192.0.2.10'' @ [LF, LF]]) =
     Some [Some ''192.0.2.10'']"

definition buffers_partial_reads_across_multiple_chunks :: bool where
  "buffers_partial_reads_across_multiple_chunks \<longleftrightarrow>
     map_option (map (\<lambda>r. (request r, client_address r)))
       (decode_all [''request=smtpd_access'', ''_policy'' @ [LF] @ ''client_addr'',
          ''ess=192.0.2.10'' @ [LF], [LF]]) =
     Some [(Some ''smtpd_access_policy'', Some ''192.0.2.10'')]"

definition decodes_pipelined_requests_in_one_buffer :: bool where
  "decodes_pipelined_requests_in_one_buffer \<longleftrightarrow>
     map_option (map client_address)
       (decode_all [''client_address=192.0.2.10'' @ [LF, LF] @ ''client_address=192.0.2.20'' @ [LF, LF]]) =
     Some [Some ''192.0.2.10'', Some ''192.0.2.20'']"

definition incomplete_request_yields_none :: bool where
  "incomplete_request_yields_none \<longleftrightarrow>
     (case fst (decode (''client_address=192.0.2.10'' @ [LF])) of Inr None \<Rightarrow> True | _ \<Rightarrow> False)"

definition malformed_line_is_a_decode_error :: bool where
  "malformed_line_is_a_decode_error \<longleftrightarrow> \<not> is_ok (fst (decode (''not_a_kv_pair'' @ [LF, LF])))"

definition encodes_action_with_terminator :: bool where
  "encodes_action_with_terminator \<longleftrightarrow> encode Dunno [] = ''action=dunno'' @ [LF, LF]"

lemma codec_tests:
  decodes_single_request buffers_partial_reads_across_multiple_chunks
  decodes_pipelined_requests_in_one_buffer incomplete_request_yields_none
  malformed_line_is_a_decode_error encodes_action_with_terminator
  by code_simp+

section \<open>Logging\<close>

definition sanitize_replaces_control_characters :: bool where
  "sanitize_replaces_control_characters \<longleftrightarrow>
     sanitize ''mail.example.com'' = ''mail.example.com'' \<and>
     sanitize (''evil'' @ [CR, LF] @ ''injected: line'') = ''evil  injected: line'' \<and>
     sanitize (''nul'' @ [CHR 0x00] @ ''byte'') = ''nul byte''"

definition non_empty_treats_absent_and_empty_the_same :: bool where
  "non_empty_treats_absent_and_empty_the_same \<longleftrightarrow>
     non_empty None = None \<and> non_empty (Some []) = None \<and>
     non_empty (Some ''mail.example.com'') = Some ''mail.example.com''"

definition describe_action_permit_with_no_detail :: bool where
  "describe_action_permit_with_no_detail \<longleftrightarrow> describe_action Dunno = (''permit'', None)"

definition describe_action_permit_with_header_detail :: bool where
  "describe_action_permit_with_header_detail \<longleftrightarrow>
     describe_action (Prepend ''Received-SPF: pass'') = (''permit'', Some ''Received-SPF: pass'')"

definition describe_action_reject_with_reason :: bool where
  "describe_action_reject_with_reason \<longleftrightarrow>
     describe_action (Reject ''550 5.7.1 denied'') = (''reject'', Some ''550 5.7.1 denied'')"

definition describe_action_defer_with_reason :: bool where
  "describe_action_defer_with_reason \<longleftrightarrow>
     describe_action (DeferIfPermit ''4.7.1 try later'') = (''defer'', Some ''4.7.1 try later'')"

definition maps_all_log_levels :: "'lv tracing_levels \<Rightarrow> bool" where
  "maps_all_log_levels T \<longleftrightarrow>
     to_tracing_level T LL_Off = None \<and> to_tracing_level T LL_Error = Some (lv_error T) \<and>
     to_tracing_level T LL_Warn = Some (lv_warn T) \<and> to_tracing_level T LL_Info = Some (lv_info T) \<and>
     to_tracing_level T LL_Debug = Some (lv_debug T) \<and> to_tracing_level T LL_Trace = Some (lv_trace T)"

lemma logging_tests:
  sanitize_replaces_control_characters non_empty_treats_absent_and_empty_the_same
  describe_action_permit_with_no_detail describe_action_permit_with_header_detail
  describe_action_reject_with_reason describe_action_defer_with_reason
  by code_simp+

lemma log_level_tests: "maps_all_log_levels T"
  by (simp add: maps_all_log_levels_def)

end
