(* ===== verification/Evaluator_Tests.thy ===== *)
theory Evaluator_Tests
  imports Proto_Tests
begin

text \<open>
  The unit tests of \<open>rspf/src/spf/evaluator.rs\<close>, transcribed over the model. Their results are those
  of the crate \<open>viaspf\<close>, which is a parameter: they are evaluated with a small evaluation of SPF
  records in its place, enough for the records of the tests. What they exercise of the program is
  the in-memory lookup and the two identity checks around the evaluation.
\<close>

section \<open>A small evaluation of SPF records\<close>

datatype spf_term =
    T_All
  | T_Net prefix_net
  | T_A "string option"
  | T_Mx
  | T_Ptr
  | T_Include string
  | T_Redirect string

definition mechanism_term :: "string \<Rightarrow> spf_term option" where
  "mechanism_term s =
     (if s = ''all'' then Some T_All else if s = ''a'' then Some (T_A None)
      else if s = ''mx'' then Some T_Mx else if s = ''ptr'' then Some T_Ptr
      else
        (case (strip_prefix ''ip4:'' s, strip_prefix ''ip6:'' s, strip_prefix ''a:'' s, strip_prefix ''include:'' s,
            strip_prefix ''redirect='' s) of
           (Some n, _) \<Rightarrow> (case parse_prefix_net n of Inl _ \<Rightarrow> None | Inr net \<Rightarrow> Some (T_Net net))
         | (_, Some n, _) \<Rightarrow> (case parse_prefix_net n of Inl _ \<Rightarrow> None | Inr net \<Rightarrow> Some (T_Net net))
         | (_, _, Some d, _) \<Rightarrow> Some (T_A (Some d))
         | (_, _, _, Some d, _) \<Rightarrow> Some (T_Include d)
         | (_, _, _, _, Some d) \<Rightarrow> Some (T_Redirect d)
         | _ \<Rightarrow> None))"

definition qualified_term :: "string \<Rightarrow> (string spf_result \<times> spf_term) option" where
  "qualified_term s =
     (let q = (case s of [] \<Rightarrow> None | c # _ \<Rightarrow> map_of [(CHR ''+'', Spf_Pass), (CHR ''-'', Spf_Fail []), (CHR ''~'', Spf_Softfail), (CHR ''?'', Spf_Neutral)] c)
      in case q of
           None \<Rightarrow> map_option (Pair Spf_Pass) (mechanism_term s)
         | Some r \<Rightarrow> map_option (Pair r) (mechanism_term (tl s)))"

text \<open>A lookup finds something, or is void, or times out.\<close>

definition found :: "(string, 'a list) res \<Rightarrow> 'a list option" where
  "found r = (case r of Inr xs \<Rightarrow> Some xs | Inl e \<Rightarrow> if e = ''timeout'' then None else Some [])"

definition addresses_of :: "(string, string) lookup \<Rightarrow> ip_addr \<Rightarrow> string \<Rightarrow> ip_addr list option" where
  "addresses_of lk ip d =
     (case ip of V4 _ \<Rightarrow> map_option (map V4) (found (lookup_a lk d)) | V6 _ \<Rightarrow> map_option (map V6) (found (lookup_aaaa lk d)))"

text \<open>The addresses that a mechanism names, for a domain.\<close>

definition term_addresses :: "(string, string) lookup \<Rightarrow> ip_addr \<Rightarrow> string \<Rightarrow> spf_term \<Rightarrow> ip_addr list option" where
  "term_addresses lk ip domain t =
     (case t of
        T_A d \<Rightarrow> addresses_of lk ip (case d of None \<Rightarrow> domain | Some d' \<Rightarrow> d')
      | T_Mx \<Rightarrow>
          (case found (lookup_mx lk domain) of None \<Rightarrow> None
           | Some ds \<Rightarrow> Some (concat (List.map_filter (addresses_of lk ip) ds)))
      | T_Ptr \<Rightarrow>
          (case found (lookup_ptr lk ip) of None \<Rightarrow> None
           | Some ds \<Rightarrow> Some (concat (List.map_filter (addresses_of lk ip) (filter (\<lambda>d. ends_with d domain) ds))))
      | _ \<Rightarrow> None)"

text \<open>
  The terms from left to right, counting void lookups: the first mechanism that matches decides.
  \<open>sub\<close> evaluates the record of another domain.
\<close>

fun eval_terms ::
  "(string \<Rightarrow> nat \<Rightarrow> string spf_result \<times> nat) \<Rightarrow> (string, string) lookup \<Rightarrow> nat \<Rightarrow> ip_addr \<Rightarrow> string \<Rightarrow>
     nat \<Rightarrow> (string spf_result \<times> spf_term) list \<Rightarrow> string spf_result \<times> nat"
where
  "eval_terms sub lk limit ip domain voids [] = (Spf_Neutral, voids)"
| "eval_terms sub lk limit ip domain voids ((q, t) # ts) =
     (case t of
        T_All \<Rightarrow> (q, voids)
      | T_Net n \<Rightarrow> if prefix_net_contains n ip then (q, voids) else eval_terms sub lk limit ip domain voids ts
      | T_Redirect d \<Rightarrow> sub d voids
      | T_Include d \<Rightarrow>
          (case sub d voids of
             (Spf_Pass, v) \<Rightarrow> (q, v)
           | (Spf_Temperror, v) \<Rightarrow> (Spf_Temperror, v)
           | (Spf_Permerror, v) \<Rightarrow> (Spf_Permerror, v)
           | (Spf_None, v) \<Rightarrow> (Spf_Permerror, v)
           | (_, v) \<Rightarrow> eval_terms sub lk limit ip domain v ts)
      | _ \<Rightarrow>
          (case term_addresses lk ip domain t of
             None \<Rightarrow> (Spf_Temperror, voids)
           | Some [] \<Rightarrow>
               if limit < Suc voids then (Spf_Permerror, Suc voids)
               else eval_terms sub lk limit ip domain (Suc voids) ts
           | Some as \<Rightarrow> if ip \<in> set as then (q, voids) else eval_terms sub lk limit ip domain voids ts))"

primrec check_record ::
  "nat \<Rightarrow> (string, string) lookup \<Rightarrow> nat \<Rightarrow> ip_addr \<Rightarrow> string \<Rightarrow> nat \<Rightarrow> string spf_result \<times> nat"
where
  "check_record 0 lk limit ip domain voids = (Spf_Permerror, voids)"
| "check_record (Suc n) lk limit ip domain voids =
     (case found (lookup_txt lk domain) of
        None \<Rightarrow> (Spf_Temperror, voids)
      | Some records \<Rightarrow>
          (case List.map_filter (strip_prefix ''v=spf1 '') records of
             [r] \<Rightarrow>
               (let ts = map qualified_term (split_on (CHR '' '') r)
                in if None \<in> set ts then (Spf_Permerror, voids)
                   else eval_terms (check_record n lk limit ip) lk limit ip domain voids (map the ts))
           | _ \<Rightarrow> (Spf_None, voids)))"

text \<open>A sender is its domain; an address needs an at sign.\<close>

definition small_viaspf :: "(string, string, string, string, string, (string, string) lookup) viaspf" where
  "small_viaspf = sample_viaspf
     \<lparr>evaluate_sender := \<lambda>lk cfg ip domain helo.
        \<lparr>q_spf_result = fst (check_record (unat (vc_max_lookups cfg)) lk (unat (vc_max_void_lookups cfg)) ip domain 0),
         q_cause = None\<rparr>\<rparr>"

section \<open>The tests\<close>

definition evaluator_test_cfg :: spf_config where
  "evaluator_test_cfg = \<lparr>lookup_timeout_secs = 5, void_limit = 2, max_lookups = 10\<rparr>"

definition evaluator_test_ip :: ip_addr where
  "evaluator_test_ip = V4 (Ipv4Addr 192 0 2 1)"

text \<open>The result of checking \<open>user@example.com\<close>, for a lookup and a client.\<close>

definition mail_from_result ::
  "('x, 'm, 'c, 's, 'd, ('n, 'le) lookup) viaspf \<Rightarrow> 'n name_ops \<Rightarrow> 'le lookup_errors \<Rightarrow> mock_lookup \<Rightarrow>
     ip_addr \<Rightarrow> 'x spf_result"
where
  "mail_from_result V NO LE lk ip =
     oc_result (check_mail_from V (evaluator_new (mock_impl NO LE lk) evaluator_test_cfg) ip
       ''user@example.com'' ''mail.example.com'')"

definition pass_via_ip4_mechanism ::
  "('x, 'm, 'c, 's, 'd, ('n, 'le) lookup) viaspf \<Rightarrow> 'n name_ops \<Rightarrow> 'le lookup_errors \<Rightarrow> bool"
where
  "pass_via_ip4_mechanism V NO LE \<longleftrightarrow>
     (case mail_from_result V NO LE
         (with_txt mock_new ''example.com'' [''v=spf1 ip4:192.0.2.0/24 -all''])
         evaluator_test_ip of Spf_Pass \<Rightarrow> True | _ \<Rightarrow> False)"

definition fail_when_ip_not_listed ::
  "('x, 'm, 'c, 's, 'd, ('n, 'le) lookup) viaspf \<Rightarrow> 'n name_ops \<Rightarrow> 'le lookup_errors \<Rightarrow> bool"
where
  "fail_when_ip_not_listed V NO LE \<longleftrightarrow>
     (case mail_from_result V NO LE
         (with_txt mock_new ''example.com'' [''v=spf1 ip4:203.0.113.0/24 -all''])
         evaluator_test_ip of Spf_Fail _ \<Rightarrow> True | _ \<Rightarrow> False)"

definition softfail_result ::
  "('x, 'm, 'c, 's, 'd, ('n, 'le) lookup) viaspf \<Rightarrow> 'n name_ops \<Rightarrow> 'le lookup_errors \<Rightarrow> bool"
where
  "softfail_result V NO LE \<longleftrightarrow>
     (case mail_from_result V NO LE
         (with_txt mock_new ''example.com'' [''v=spf1 ip4:203.0.113.0/24 ~all''])
         evaluator_test_ip of Spf_Softfail \<Rightarrow> True | _ \<Rightarrow> False)"

definition neutral_result ::
  "('x, 'm, 'c, 's, 'd, ('n, 'le) lookup) viaspf \<Rightarrow> 'n name_ops \<Rightarrow> 'le lookup_errors \<Rightarrow> bool"
where
  "neutral_result V NO LE \<longleftrightarrow>
     (case mail_from_result V NO LE
         (with_txt mock_new ''example.com'' [''v=spf1 ip4:203.0.113.0/24 ?all''])
         evaluator_test_ip of Spf_Neutral \<Rightarrow> True | _ \<Rightarrow> False)"

definition none_when_no_spf_record ::
  "('x, 'm, 'c, 's, 'd, ('n, 'le) lookup) viaspf \<Rightarrow> 'n name_ops \<Rightarrow> 'le lookup_errors \<Rightarrow> bool"
where
  "none_when_no_spf_record V NO LE \<longleftrightarrow>
     (case mail_from_result V NO LE
         mock_new
         evaluator_test_ip of Spf_None \<Rightarrow> True | _ \<Rightarrow> False)"

definition permerror_on_unparsable_record ::
  "('x, 'm, 'c, 's, 'd, ('n, 'le) lookup) viaspf \<Rightarrow> 'n name_ops \<Rightarrow> 'le lookup_errors \<Rightarrow> bool"
where
  "permerror_on_unparsable_record V NO LE \<longleftrightarrow>
     (case mail_from_result V NO LE
         (with_txt mock_new ''example.com'' [''v=spf1 this-is-not-valid-all''])
         evaluator_test_ip of Spf_Permerror \<Rightarrow> True | _ \<Rightarrow> False)"

definition temperror_on_dns_timeout ::
  "('x, 'm, 'c, 's, 'd, ('n, 'le) lookup) viaspf \<Rightarrow> 'n name_ops \<Rightarrow> 'le lookup_errors \<Rightarrow> bool"
where
  "temperror_on_dns_timeout V NO LE \<longleftrightarrow>
     (case mail_from_result V NO LE
         (with_timeout mock_new ''example.com'')
         evaluator_test_ip of Spf_Temperror \<Rightarrow> True | _ \<Rightarrow> False)"

definition include_mechanism_chain ::
  "('x, 'm, 'c, 's, 'd, ('n, 'le) lookup) viaspf \<Rightarrow> 'n name_ops \<Rightarrow> 'le lookup_errors \<Rightarrow> bool"
where
  "include_mechanism_chain V NO LE \<longleftrightarrow>
     (case mail_from_result V NO LE
         (with_txt (with_txt mock_new ''example.com'' [''v=spf1 include:_spf.example.net -all'']) ''_spf.example.net'' [''v=spf1 ip4:192.0.2.0/24 -all''])
         evaluator_test_ip of Spf_Pass \<Rightarrow> True | _ \<Rightarrow> False)"

definition redirect_modifier_chain ::
  "('x, 'm, 'c, 's, 'd, ('n, 'le) lookup) viaspf \<Rightarrow> 'n name_ops \<Rightarrow> 'le lookup_errors \<Rightarrow> bool"
where
  "redirect_modifier_chain V NO LE \<longleftrightarrow>
     (case mail_from_result V NO LE
         (with_txt (with_txt mock_new ''example.com'' [''v=spf1 redirect=_spf.example.net'']) ''_spf.example.net'' [''v=spf1 ip4:192.0.2.0/24 -all''])
         evaluator_test_ip of Spf_Pass \<Rightarrow> True | _ \<Rightarrow> False)"

definition void_lookup_limit_exceeded_is_permerror ::
  "('x, 'm, 'c, 's, 'd, ('n, 'le) lookup) viaspf \<Rightarrow> 'n name_ops \<Rightarrow> 'le lookup_errors \<Rightarrow> bool"
where
  "void_lookup_limit_exceeded_is_permerror V NO LE \<longleftrightarrow>
     (case mail_from_result V NO LE
         (with_txt mock_new ''example.com'' [''v=spf1 a:void1.example.com a:void2.example.com a:void3.example.com -all''])
         evaluator_test_ip of Spf_Permerror \<Rightarrow> True | _ \<Rightarrow> False)"

definition pass_via_mx_mechanism ::
  "('x, 'm, 'c, 's, 'd, ('n, 'le) lookup) viaspf \<Rightarrow> 'n name_ops \<Rightarrow> 'le lookup_errors \<Rightarrow> bool"
where
  "pass_via_mx_mechanism V NO LE \<longleftrightarrow>
     (case mail_from_result V NO LE
         (with_a (with_mx (with_txt mock_new ''example.com'' [''v=spf1 mx -all''])
          ''example.com'' [''mail.example.com'']) ''mail.example.com'' [Ipv4Addr 192 0 2 1])
         evaluator_test_ip of Spf_Pass \<Rightarrow> True | _ \<Rightarrow> False)"

definition pass_via_ip6_mechanism ::
  "('x, 'm, 'c, 's, 'd, ('n, 'le) lookup) viaspf \<Rightarrow> 'n name_ops \<Rightarrow> 'le lookup_errors \<Rightarrow> bool"
where
  "pass_via_ip6_mechanism V NO LE \<longleftrightarrow>
     (case mail_from_result V NO LE
         (with_txt mock_new ''example.com'' [''v=spf1 ip6:2001:db8::/32 -all''])
         (V6 (Ipv6Addr 0x2001 0xdb8 0 0 0 0 0 1)) of Spf_Pass \<Rightarrow> True | _ \<Rightarrow> False)"

definition pass_via_a_mechanism_over_ipv6 ::
  "('x, 'm, 'c, 's, 'd, ('n, 'le) lookup) viaspf \<Rightarrow> 'n name_ops \<Rightarrow> 'le lookup_errors \<Rightarrow> bool"
where
  "pass_via_a_mechanism_over_ipv6 V NO LE \<longleftrightarrow>
     (case mail_from_result V NO LE
         (with_aaaa (with_txt mock_new ''example.com'' [''v=spf1 a -all''])
          ''example.com'' [Ipv6Addr 0x2001 0xdb8 0 0 0 0 0 1])
         (V6 (Ipv6Addr 0x2001 0xdb8 0 0 0 0 0 1)) of Spf_Pass \<Rightarrow> True | _ \<Rightarrow> False)"

definition pass_via_ptr_mechanism ::
  "('x, 'm, 'c, 's, 'd, ('n, 'le) lookup) viaspf \<Rightarrow> 'n name_ops \<Rightarrow> 'le lookup_errors \<Rightarrow> bool"
where
  "pass_via_ptr_mechanism V NO LE \<longleftrightarrow>
     (case mail_from_result V NO LE
         (with_a (with_ptr (with_txt mock_new ''example.com'' [''v=spf1 ptr -all''])
          evaluator_test_ip [''mail.example.com'']) ''mail.example.com'' [Ipv4Addr 192 0 2 1])
         evaluator_test_ip of Spf_Pass \<Rightarrow> True | _ \<Rightarrow> False)"

definition null_sender_uses_postmaster_at_helo_domain ::
  "('x, 'm, 'c, 's, 'd, ('n, 'le) lookup) viaspf \<Rightarrow> 'n name_ops \<Rightarrow> 'le lookup_errors \<Rightarrow> bool"
where
  "null_sender_uses_postmaster_at_helo_domain V NO LE \<longleftrightarrow>
     (let lk = mock_impl NO LE (with_txt mock_new ''mail.example.com'' [''v=spf1 ip4:192.0.2.0/24 -all''])
      in case oc_result (check_mail_from V (evaluator_new lk evaluator_test_cfg) evaluator_test_ip
           [] ''mail.example.com'') of Spf_Pass \<Rightarrow> True | _ \<Rightarrow> False)"

definition invalid_mail_from_is_permerror ::
  "('x, 'm, 'c, 's, 'd, ('n, 'le) lookup) viaspf \<Rightarrow> 'n name_ops \<Rightarrow> 'le lookup_errors \<Rightarrow> bool"
where
  "invalid_mail_from_is_permerror V NO LE \<longleftrightarrow>
     (case oc_result (check_mail_from V (evaluator_new (mock_impl NO LE mock_new) evaluator_test_cfg)
          evaluator_test_ip ''not-an-email-address'' ''mail.example.com'') of
        Spf_Permerror \<Rightarrow> True | _ \<Rightarrow> False)"

definition check_helo_evaluates_against_helo_domain ::
  "('x, 'm, 'c, 's, 'd, ('n, 'le) lookup) viaspf \<Rightarrow> 'n name_ops \<Rightarrow> 'le lookup_errors \<Rightarrow> bool"
where
  "check_helo_evaluates_against_helo_domain V NO LE \<longleftrightarrow>
     (let lk = mock_impl NO LE (with_txt mock_new ''mail.example.com'' [''v=spf1 ip4:192.0.2.0/24 -all'']);
          outcome = check_helo V (evaluator_new lk evaluator_test_cfg) evaluator_test_ip ''mail.example.com''
      in oc_identity outcome = Helo \<and> (case oc_result outcome of Spf_Pass \<Rightarrow> True | _ \<Rightarrow> False))"

abbreviation holds_small ::
  "((string, string, string, string, string, (string, string) lookup) viaspf \<Rightarrow> string name_ops \<Rightarrow>
     string lookup_errors \<Rightarrow> bool) \<Rightarrow> bool"
where
  "holds_small test \<equiv> test small_viaspf sample_names sample_lookup_errors"

lemma qualifier_tests:
  "holds_small pass_via_ip4_mechanism"
  "holds_small fail_when_ip_not_listed"
  "holds_small softfail_result"
  "holds_small neutral_result"
  "holds_small none_when_no_spf_record"
  by code_simp+

lemma record_tests:
  "holds_small permerror_on_unparsable_record"
  "holds_small temperror_on_dns_timeout"
  "holds_small include_mechanism_chain"
  "holds_small redirect_modifier_chain"
  "holds_small void_lookup_limit_exceeded_is_permerror"
  by code_simp+

lemma mechanism_tests:
  "holds_small pass_via_mx_mechanism"
  "holds_small pass_via_ip6_mechanism"
  "holds_small pass_via_a_mechanism_over_ipv6"
  "holds_small pass_via_ptr_mechanism"
  by code_simp+

lemma identity_tests:
  "holds_small null_sender_uses_postmaster_at_helo_domain"
  "holds_small invalid_mail_from_is_permerror"
  "holds_small check_helo_evaluates_against_helo_domain"
  by code_simp+

text \<open>An unparsable sender is a permanent error whatever the SPF evaluation does.\<close>

lemma invalid_mail_from_test:
  "sender_from_address V ''not-an-email-address'' = None \<Longrightarrow> invalid_mail_from_is_permerror V NO LE"
  by (simp add: invalid_mail_from_is_permerror_def check_mail_from_def outcome_permerror_def)

end
