(* ===== verification/Srs_Tests.thy ===== *)
theory Srs_Tests
  imports Srs
begin

text \<open>
  The unit tests of \<open>rspf/src/srs.rs\<close>, transcribed over the model and evaluated.
\<close>

section \<open>SRS\<close>

text \<open>
  The tests run with the present time and the real MAC; here both are parameters. The function
  that they are evaluated with is a weak checksum: the first letters of the key and the length of
  the message.
\<close>

definition srs_test_cfg :: "string list \<Rightarrow> u32 \<Rightarrow> srs_config" where
  "srs_test_cfg scrts max_age = \<lparr>enabled = True, secrets = scrts, max_age_days = max_age\<rparr>"

definition days_now :: "clock \<Rightarrow> u64" where
  "days_now clk = (case current_days_since_epoch clk of None \<Rightarrow> 0 | Some d \<Rightarrow> d)"

definition unwrap_made ::
  "clock \<Rightarrow> crypto \<Rightarrow> string \<Rightarrow> u64 \<Rightarrow> (string \<Rightarrow> string) \<Rightarrow> srs_config \<Rightarrow> srs_unwrap option"
where
  "unwrap_made clk C secret days alter cfg =
     (case make_srs_address C secret days ''example.com'' ''user'' of
        None \<Rightarrow> None
      | Some addr \<Rightarrow> try_unwrap clk C (alter addr) cfg)"

definition not_srs_when_disabled :: "clock \<Rightarrow> crypto \<Rightarrow> bool" where
  "not_srs_when_disabled clk C \<longleftrightarrow>
     unwrap_made clk C ''secret'' (days_now clk) (\<lambda>a. a) ((srs_test_cfg [''secret''] 21)\<lparr>enabled := False\<rparr>) =
     Some NotSrs"

definition not_srs_for_ordinary_address :: "clock \<Rightarrow> crypto \<Rightarrow> bool" where
  "not_srs_for_ordinary_address clk C \<longleftrightarrow>
     try_unwrap clk C ''user@example.com'' (srs_test_cfg [''secret''] 21) = Some NotSrs"

definition valid_srs_address_unwraps_to_original_sender :: "clock \<Rightarrow> crypto \<Rightarrow> bool" where
  "valid_srs_address_unwraps_to_original_sender clk C \<longleftrightarrow>
     unwrap_made clk C ''secret'' (days_now clk) (\<lambda>a. a) (srs_test_cfg [''secret''] 21) =
     Some (Valid ''user@example.com'')"

definition tampered_domain_fails_hash_verification :: "clock \<Rightarrow> crypto \<Rightarrow> bool" where
  "tampered_domain_fails_hash_verification clk C \<longleftrightarrow>
     unwrap_made clk C ''secret'' (days_now clk) (replace_all ''example.com'' ''attacker.com'')
       (srs_test_cfg [''secret''] 21) = Some InvalidHash"

definition wrong_secret_fails_hash_verification :: "clock \<Rightarrow> crypto \<Rightarrow> bool" where
  "wrong_secret_fails_hash_verification clk C \<longleftrightarrow>
     unwrap_made clk C ''secret'' (days_now clk) (\<lambda>a. a) (srs_test_cfg [''wrong-secret''] 21) = Some InvalidHash"

definition secret_rotation_tries_each_configured_secret :: "clock \<Rightarrow> crypto \<Rightarrow> bool" where
  "secret_rotation_tries_each_configured_secret clk C \<longleftrightarrow>
     unwrap_made clk C ''new-secret'' (days_now clk) (\<lambda>a. a)
       (srs_test_cfg [''old-secret'', ''new-secret''] 21) = Some (Valid ''user@example.com'')"

text \<open>\<open>u64::saturating_sub\<close>\<close>

definition saturating_sub :: "u64 \<Rightarrow> u64 \<Rightarrow> u64" where
  "saturating_sub a b = of_nat (unat a - unat b)"

definition expired_timestamp_is_rejected :: "clock \<Rightarrow> crypto \<Rightarrow> bool" where
  "expired_timestamp_is_rejected clk C \<longleftrightarrow>
     unwrap_made clk C ''secret'' (saturating_sub (days_now clk) 30) (\<lambda>a. a) (srs_test_cfg [''secret''] 21) =
     Some Expired"

definition within_max_age_is_accepted :: "clock \<Rightarrow> crypto \<Rightarrow> bool" where
  "within_max_age_is_accepted clk C \<longleftrightarrow>
     unwrap_made clk C ''secret'' (saturating_sub (days_now clk) 5) (\<lambda>a. a) (srs_test_cfg [''secret''] 21) =
     Some (Valid ''user@example.com'')"

definition malformed_srs_prefix_without_enough_parts_is_not_srs :: "clock \<Rightarrow> crypto \<Rightarrow> bool" where
  "malformed_srs_prefix_without_enough_parts_is_not_srs clk C \<longleftrightarrow>
     try_unwrap clk C ''SRS0=onlyonepart@relay.example.net'' (srs_test_cfg [''secret''] 21) = Some NotSrs"

definition timestamp_roundtrip :: bool where
  "timestamp_roundtrip \<longleftrightarrow>
     list_all (\<lambda>day. decode_timestamp (encode_timestamp day) = Some (ucast (day mod ucast days_per_cycle)))
       [0, 1, 500, 1023, 1024, 2000, 100000]"

definition checksum_crypto :: crypto where
  "checksum_crypto =
     \<lparr>hmac_sha1 = (\<lambda>key msg. Some (take 2 key @ show_radix 10 (10 + length msg))),
      base64_encode = (\<lambda>s. s)\<rparr>"

lemma not_srs_when_disabled_holds:
  "not_srs_when_disabled (Some 1753000000) checksum_crypto"
  by code_simp

lemma not_srs_for_ordinary_address_holds:
  "not_srs_for_ordinary_address (Some 1753000000) checksum_crypto"
  by code_simp

lemma valid_srs_address_unwraps_to_original_sender_holds:
  "valid_srs_address_unwraps_to_original_sender (Some 1753000000) checksum_crypto"
  by code_simp

lemma tampered_domain_fails_hash_verification_holds:
  "tampered_domain_fails_hash_verification (Some 1753000000) checksum_crypto"
  by code_simp

lemma wrong_secret_fails_hash_verification_holds:
  "wrong_secret_fails_hash_verification (Some 1753000000) checksum_crypto"
  by code_simp

lemma secret_rotation_tries_each_configured_secret_holds:
  "secret_rotation_tries_each_configured_secret (Some 1753000000) checksum_crypto"
  by code_simp

lemma expired_timestamp_is_rejected_holds:
  "expired_timestamp_is_rejected (Some 1753000000) checksum_crypto"
  by code_simp

lemma within_max_age_is_accepted_holds:
  "within_max_age_is_accepted (Some 1753000000) checksum_crypto"
  by code_simp

lemma malformed_srs_prefix_without_enough_parts_is_not_srs_holds:
  "malformed_srs_prefix_without_enough_parts_is_not_srs (Some 1753000000) checksum_crypto"
  by code_simp

lemma srs_timestamp_test: timestamp_roundtrip
  by (simp add: timestamp_roundtrip_def decode_encode_timestamp days_per_cycle_def)

end
