(* ===== verification/Engine_Tests.thy ===== *)
theory Engine_Tests
  imports Proto_Tests
begin

text \<open>
  The unit tests of \<open>rspf/src/engine.rs\<close> and \<open>spf/header.rs\<close>, transcribed over the model. The
  displays of the crate \<open>viaspf\<close> and its default explanation are parameters; the tests of actions
  hold for all of them.
\<close>

section \<open>Fixtures\<close>

text \<open>A configuration with only a server section, as the TOML text of the tests gives.\<close>

definition config_with :: "reject_policy \<Rightarrow> reject_policy \<Rightarrow> bool \<Rightarrow> bool \<Rightarrow> prefix_net config" where
  "config_with helo_rej mail_from_rej permerror_rej temperror_def =
     (minimal_config \<lparr>listen = [Tcp (SocketV4 (Ipv4Addr 127 0 0 1) 10045)], test_only = False\<rparr>)
       \<lparr>policy_cfg := \<lparr>helo_reject = helo_rej, mail_from_reject = mail_from_rej,
          permerror_reject = permerror_rej, temperror_defer = temperror_def\<rparr>\<rparr>"

definition outcome_of :: "identity \<Rightarrow> 'x spf_result \<Rightarrow> ('x, 'm, 'c) spf_outcome" where
  "outcome_of ident result = \<lparr>oc_identity = ident, oc_result = result, oc_cause = None\<rparr>"

definition test_ctx :: decision_context where
  "test_ctx =
     \<lparr>ctx_ip = V4 (Ipv4Addr 192 0 2 1), ctx_sender = ''user@example.com'',
      ctx_helo = ''mail.example.com'', ctx_recipient = ''postmaster@ourdomain.com''\<rparr>"

text \<open>The action of a test, for the two policies, the two switches and the two results.\<close>

definition decided ::
  "('x, 'm, 'c, 'z) spf_display_scheme \<Rightarrow> prefix_net config \<Rightarrow> 'x spf_result \<Rightarrow> 'x spf_result \<Rightarrow> action"
where
  "decided D cfg helo mail_from =
     decide D cfg (outcome_of Helo helo) (outcome_of MailFrom mail_from) test_ctx"

fun is_reject :: "action \<Rightarrow> bool" where
  "is_reject (Reject _) = True"
| "is_reject _ = False"

fun is_prepend :: "action \<Rightarrow> bool" where
  "is_prepend (Prepend _) = True"
| "is_prepend _ = False"

fun is_defer :: "action \<Rightarrow> bool" where
  "is_defer (DeferIfPermit _) = True"
| "is_defer _ = False"

text \<open>\<open>str::contains\<close>\<close>

fun str_contains :: "string \<Rightarrow> string \<Rightarrow> bool" where
  "str_contains s p = (prefix p s \<or> (case s of [] \<Rightarrow> False | _ # t \<Rightarrow> str_contains t p))"

section \<open>Actions\<close>

definition fail_policy_rejects_on_fail :: "('x, 'm, 'c, 'z) spf_display_scheme \<Rightarrow> 'x \<Rightarrow> bool" where
  "fail_policy_rejects_on_fail D x \<longleftrightarrow>
     is_reject (decided D (config_with RP_Fail RP_Fail False False) Spf_Pass (Spf_Fail x))"

definition fail_policy_does_not_reject_on_softfail :: "('x, 'm, 'c, 'z) spf_display_scheme \<Rightarrow> 'x \<Rightarrow> bool" where
  "fail_policy_does_not_reject_on_softfail D x \<longleftrightarrow>
     is_prepend (decided D (config_with RP_Fail RP_Fail False False) Spf_Pass Spf_Softfail)"

definition softfail_policy_rejects_on_softfail :: "('x, 'm, 'c, 'z) spf_display_scheme \<Rightarrow> 'x \<Rightarrow> bool" where
  "softfail_policy_rejects_on_softfail D x \<longleftrightarrow>
     is_reject (decided D (config_with RP_Fail RP_SoftFail False False) Spf_Pass Spf_Softfail)"

definition spf_not_pass_rejects_on_neutral :: "('x, 'm, 'c, 'z) spf_display_scheme \<Rightarrow> 'x \<Rightarrow> bool" where
  "spf_not_pass_rejects_on_neutral D x \<longleftrightarrow>
     is_reject (decided D (config_with RP_Fail RP_SpfNotPass False False) Spf_Pass Spf_Neutral)"

definition spf_not_pass_rejects_on_none :: "('x, 'm, 'c, 'z) spf_display_scheme \<Rightarrow> 'x \<Rightarrow> bool" where
  "spf_not_pass_rejects_on_none D x \<longleftrightarrow>
     is_reject (decided D (config_with RP_Fail RP_SpfNotPass False False) Spf_Pass Spf_None)"

definition spf_not_pass_accepts_pass :: "('x, 'm, 'c, 'z) spf_display_scheme \<Rightarrow> 'x \<Rightarrow> bool" where
  "spf_not_pass_accepts_pass D x \<longleftrightarrow>
     is_prepend (decided D (config_with RP_Fail RP_SpfNotPass False False) Spf_Pass Spf_Pass)"

definition never_policy_never_rejects_even_on_fail :: "('x, 'm, 'c, 'z) spf_display_scheme \<Rightarrow> 'x \<Rightarrow> bool" where
  "never_policy_never_rejects_even_on_fail D x \<longleftrightarrow>
     is_prepend (decided D (config_with RP_Fail RP_Never False False) Spf_Pass (Spf_Fail x))"

definition no_check_policy_skips_even_on_fail :: "('x, 'm, 'c, 'z) spf_display_scheme \<Rightarrow> 'x \<Rightarrow> bool" where
  "no_check_policy_skips_even_on_fail D x \<longleftrightarrow>
     is_prepend (decided D (config_with RP_Fail RP_NoCheck False False) Spf_Pass (Spf_Fail x))"

definition permerror_reject_off_by_default :: "('x, 'm, 'c, 'z) spf_display_scheme \<Rightarrow> 'x \<Rightarrow> bool" where
  "permerror_reject_off_by_default D x \<longleftrightarrow>
     is_prepend (decided D (config_with RP_Fail RP_Fail False False) Spf_Pass Spf_Permerror)"

definition permerror_reject_on_rejects :: "('x, 'm, 'c, 'z) spf_display_scheme \<Rightarrow> 'x \<Rightarrow> bool" where
  "permerror_reject_on_rejects D x \<longleftrightarrow>
     is_reject (decided D (config_with RP_Fail RP_Fail True False) Spf_Pass Spf_Permerror)"

definition temperror_defer_off_by_default :: "('x, 'm, 'c, 'z) spf_display_scheme \<Rightarrow> 'x \<Rightarrow> bool" where
  "temperror_defer_off_by_default D x \<longleftrightarrow>
     is_prepend (decided D (config_with RP_Fail RP_Fail False False) Spf_Pass Spf_Temperror)"

definition temperror_defer_on_defers :: "('x, 'm, 'c, 'z) spf_display_scheme \<Rightarrow> 'x \<Rightarrow> bool" where
  "temperror_defer_on_defers D x \<longleftrightarrow>
     is_defer (decided D (config_with RP_Fail RP_Fail False True) Spf_Pass Spf_Temperror)"

definition no_check_skips_permerror_reject_too :: "('x, 'm, 'c, 'z) spf_display_scheme \<Rightarrow> 'x \<Rightarrow> bool" where
  "no_check_skips_permerror_reject_too D x \<longleftrightarrow>
     is_prepend (decided D (config_with RP_Fail RP_NoCheck True True) Spf_Pass Spf_Permerror)"

definition helo_escalates_reject_even_when_mail_from_passes :: "('x, 'm, 'c, 'z) spf_display_scheme \<Rightarrow> 'x \<Rightarrow> bool" where
  "helo_escalates_reject_even_when_mail_from_passes D x \<longleftrightarrow>
     is_reject (decided D (config_with RP_Fail RP_Fail False False) (Spf_Fail x) Spf_Pass)"

definition mail_from_reject_is_not_downgraded_by_a_passing_helo :: "('x, 'm, 'c, 'z) spf_display_scheme \<Rightarrow> 'x \<Rightarrow> bool" where
  "mail_from_reject_is_not_downgraded_by_a_passing_helo D x \<longleftrightarrow>
     is_reject (decided D (config_with RP_Fail RP_Fail False False) Spf_Pass (Spf_Fail x))"

lemmas fixture_defs =
  decided_def config_with_def outcome_of_def decide_def classify_severity_def Let_def
  minimal_config_def default_header_config_def severity_order

lemma engine_action_tests:
  "fail_policy_rejects_on_fail D x"
  "fail_policy_does_not_reject_on_softfail D x"
  "softfail_policy_rejects_on_softfail D x"
  "spf_not_pass_rejects_on_neutral D x"
  "spf_not_pass_rejects_on_none D x"
  "spf_not_pass_accepts_pass D x"
  "never_policy_never_rejects_even_on_fail D x"
  "no_check_policy_skips_even_on_fail D x"
  "permerror_reject_off_by_default D x"
  "permerror_reject_on_rejects D x"
  "temperror_defer_off_by_default D x"
  "temperror_defer_on_defers D x"
  "no_check_skips_permerror_reject_too D x"
  "helo_escalates_reject_even_when_mail_from_passes D x"
  "mail_from_reject_is_not_downgraded_by_a_passing_helo D x"
  by (simp_all add: fixture_defs
     fail_policy_rejects_on_fail_def
     fail_policy_does_not_reject_on_softfail_def
     softfail_policy_rejects_on_softfail_def
     spf_not_pass_rejects_on_neutral_def
     spf_not_pass_rejects_on_none_def
     spf_not_pass_accepts_pass_def
     never_policy_never_rejects_even_on_fail_def
     no_check_policy_skips_even_on_fail_def
     permerror_reject_off_by_default_def
     permerror_reject_on_rejects_def
     temperror_defer_off_by_default_def
     temperror_defer_on_defers_def
     no_check_skips_permerror_reject_too_def
     helo_escalates_reject_even_when_mail_from_passes_def
     mail_from_reject_is_not_downgraded_by_a_passing_helo_def)

section \<open>Messages and headers\<close>

definition tie_prefers_mail_from_message :: "('x, 'm, 'c, 'z) spf_display_scheme \<Rightarrow> 'x \<Rightarrow> bool" where
  "tie_prefers_mail_from_message D x \<longleftrightarrow>
     (case decided D (config_with RP_Fail RP_Fail False False) (Spf_Fail x) (Spf_Fail x) of
        Reject msg \<Rightarrow> str_contains msg ''user@example.com''
      | _ \<Rightarrow> False)"

definition header_mode_none_produces_dunno_instead_of_prepend ::
  "('x, 'm, 'c, 'z) spf_display_scheme \<Rightarrow> bool"
where
  "header_mode_none_produces_dunno_instead_of_prepend D \<longleftrightarrow>
     decided D ((config_with RP_Fail RP_Fail False False)
       \<lparr>header_cfg := default_header_config\<lparr>mode := HM_None\<rparr>\<rparr>) Spf_Pass Spf_Pass = Dunno"

definition message_placeholders_are_substituted :: "('x, 'm, 'c, 'z) spf_display_scheme \<Rightarrow> 'x \<Rightarrow> bool" where
  "message_placeholders_are_substituted D x \<longleftrightarrow>
     (case decided D (config_with RP_Fail RP_Fail False False) Spf_Pass (Spf_Fail x) of
        Reject msg \<Rightarrow>
          str_contains msg ''user@example.com'' \<and> str_contains msg ''192.0.2.1'' \<and>
          CHR ''{'' \<notin> set msg
      | _ \<Rightarrow> False)"

definition header_config_default :: bool where
  "header_config_default \<longleftrightarrow> mode default_header_config = HM_Spf"

lemma engine_message_tests:
  "tie_prefers_mail_from_message sample_viaspf []"
  "header_mode_none_produces_dunno_instead_of_prepend sample_viaspf"
  "message_placeholders_are_substituted sample_viaspf []"
  header_config_default
  by code_simp+

section \<open>The Received-SPF header\<close>

definition received_spf ::
  "('x, 'm, 'c, 'z) spf_display_scheme \<Rightarrow> 'x spf_result \<Rightarrow> ('m, 'c) spf_cause option \<Rightarrow> header_config \<Rightarrow> string"
where
  "received_spf D result cse cfg =
     build_received_spf D \<lparr>oc_identity = MailFrom, oc_result = result, oc_cause = cse\<rparr>
       (V4 (Ipv4Addr 192 0 2 1)) ''user@example.com'' ''mail.example.com'' ''postmaster@ourdomain.com'' cfg"

definition includes_result_and_client_ip :: "('x, 'm, 'c, 'z) spf_display_scheme \<Rightarrow> bool" where
  "includes_result_and_client_ip D \<longleftrightarrow>
     (let header = received_spf D Spf_Pass None default_header_config
      in prefix ''pass ('' header \<and> str_contains header ''client-ip=192.0.2.1'' \<and>
         str_contains header (''envelope-from='' @ [CHR 0x22] @ ''user@example.com'' @ [CHR 0x22]) \<and>
         str_contains header ''helo=mail.example.com'' \<and> str_contains header ''identity=mailfrom'')"

definition hide_receiver_uses_unknown :: "('x, 'm, 'c, 'z) spf_display_scheme \<Rightarrow> bool" where
  "hide_receiver_uses_unknown D \<longleftrightarrow>
     str_contains (received_spf D Spf_Pass None (default_header_config\<lparr>hide_receiver := True\<rparr>))
       (''receiver='' @ [CHR 0x22] @ ''UNKNOWN'' @ [CHR 0x22])"

definition authserv_id_overrides_receiver_domain :: "('x, 'm, 'c, 'z) spf_display_scheme \<Rightarrow> bool" where
  "authserv_id_overrides_receiver_domain D \<longleftrightarrow>
     str_contains
       (received_spf D Spf_Pass None (default_header_config\<lparr>authserv_id := Some ''mx.ourdomain.com''\<rparr>))
       (''receiver='' @ [CHR 0x22] @ ''mx.ourdomain.com'' @ [CHR 0x22])"

definition error_cause_is_described :: "('x, 'm, 'c, 'z) spf_display_scheme \<Rightarrow> 'c \<Rightarrow> bool" where
  "error_cause_is_described D timeout \<longleftrightarrow>
     (let header = received_spf D Spf_Temperror (Some (Cause_Error timeout)) default_header_config
      in prefix ''temperror ('' header \<and> str_contains header ''DNS lookup timed out'')"

lemma header_tests:
  "includes_result_and_client_ip sample_viaspf" "hide_receiver_uses_unknown sample_viaspf"
  "authserv_id_overrides_receiver_domain sample_viaspf"
  "error_cause_is_described (sample_viaspf\<lparr>show_error_cause := \<lambda>_. ''DNS lookup timed out''\<rparr>) []"
  by code_simp+

end
