(* ===== verification/Server_Tests.thy ===== *)
theory Server_Tests
  imports Proto_Tests
begin

text \<open>
  The unit tests of the whitelist, of the DNS overrides and of the server, transcribed over the
  model and evaluated. A temporary file is the file system's answer to every path.
\<close>

section \<open>The whitelist\<close>

definition cfg_with_ips :: "('net, 'pe) ipnet \<Rightarrow> string list \<Rightarrow> 'net whitelist_config option" where
  "cfg_with_ips N nets =
     map_option (\<lambda>ns. default_whitelist_config\<lparr>cfg_ips := cidr_from_iter ns\<rparr>) (parse_nets N nets)"

text \<open>
  Loading a whitelist and asking it about a client: \<open>None\<close> where an \<open>unwrap\<close> of the test fails.
\<close>

definition matched ::
  "('net, 'pe) ipnet \<Rightarrow> file_system \<Rightarrow> 'net whitelist_config option \<Rightarrow> string \<Rightarrow> string \<Rightarrow>
     string option \<Rightarrow> string option \<Rightarrow> whitelist_reason option option"
where
  "matched N fs cfg ip helo mfd rcn =
     (case cfg of None \<Rightarrow> None
      | Some c \<Rightarrow>
          (case (whitelist_load N fs c, parse_ip_addr ip) of
             (Inr wl, Some a) \<Rightarrow> Some (matches N wl a helo mfd rcn)
           | _ \<Rightarrow> None))"

definition no_files :: file_system where
  "no_files path = Err (Os_Error 2)"

definition temp_file :: "string \<Rightarrow> file_system" where
  "temp_file content path = Ok content"

definition matches_whitelisted_ip :: "('net, 'pe) ipnet \<Rightarrow> bool" where
  "matches_whitelisted_ip N \<longleftrightarrow>
     matched N no_files (cfg_with_ips N [''192.0.2.0/24'']) ''192.0.2.5'' ''mail.example.com'' None None =
     Some (Some WR_Ip)"

definition does_not_match_unlisted_ip :: "('net, 'pe) ipnet \<Rightarrow> bool" where
  "does_not_match_unlisted_ip N \<longleftrightarrow>
     matched N no_files (cfg_with_ips N [''192.0.2.0/24'']) ''203.0.113.5'' ''mail.example.com'' None None =
     Some None"

definition matches_helo_name_case_insensitively :: "('net, 'pe) ipnet \<Rightarrow> bool" where
  "matches_helo_name_case_insensitively N \<longleftrightarrow>
     matched N no_files (Some (default_whitelist_config\<lparr>cfg_helo_names := [''Mail.Example.Com'']\<rparr>))
       ''203.0.113.5'' ''mail.example.com'' None None = Some (Some WR_Helo)"

definition matches_domain_via_helo_suffix :: "('net, 'pe) ipnet \<Rightarrow> bool" where
  "matches_domain_via_helo_suffix N \<longleftrightarrow>
     matched N no_files (Some (default_whitelist_config\<lparr>cfg_domains := [''example.com'']\<rparr>))
       ''203.0.113.5'' ''mail.example.com'' None None = Some (Some WR_Domain)"

definition matches_domain_via_mail_from_domain :: "('net, 'pe) ipnet \<Rightarrow> bool" where
  "matches_domain_via_mail_from_domain N \<longleftrightarrow>
     matched N no_files (Some (default_whitelist_config\<lparr>cfg_domains := [''example.com'']\<rparr>))
       ''203.0.113.5'' ''other.net'' (Some ''sub.example.com'') None = Some (Some WR_Domain)"

definition domain_whitelist_does_not_match_lookalike_domain :: "('net, 'pe) ipnet \<Rightarrow> bool" where
  "domain_whitelist_does_not_match_lookalike_domain N \<longleftrightarrow>
     matched N no_files (Some (default_whitelist_config\<lparr>cfg_domains := [''example.com'']\<rparr>))
       ''203.0.113.5'' ''mail.notexample.com'' None None = Some None"

definition matches_ptr_domain_suffix :: "('net, 'pe) ipnet \<Rightarrow> bool" where
  "matches_ptr_domain_suffix N \<longleftrightarrow>
     matched N no_files (Some (default_whitelist_config\<lparr>cfg_domains_ptr := [''trusted.net'']\<rparr>))
       ''203.0.113.5'' ''mail.example.com'' None (Some ''mx1.trusted.net'') = Some (Some WR_DomainPtr)"

definition loads_entries_from_file :: "('net, 'pe) ipnet \<Rightarrow> bool" where
  "loads_entries_from_file N \<longleftrightarrow>
     (let fs = temp_file (''# a comment'' @ [LF] @ ''ip:198.51.100.0/24'' @ [LF] @
            ''helo:relay.partner.com'' @ [LF] @ ''domain:partner.com'' @ [LF] @ ''ptr:partner.com'' @ [LF, LF]);
          cfg = Some (default_whitelist_config\<lparr>cfg_files := [''/tmp/file'']\<rparr>)
      in matched N fs cfg ''198.51.100.1'' ''x'' None None = Some (Some WR_Ip) \<and>
         matched N fs cfg ''203.0.113.1'' ''relay.partner.com'' None None = Some (Some WR_Helo) \<and>
         matched N fs cfg ''203.0.113.1'' ''mail.partner.com'' None None = Some (Some WR_Domain) \<and>
         matched N fs cfg ''203.0.113.1'' ''x'' None (Some ''mx.partner.com'') = Some (Some WR_DomainPtr))"

definition rejects_unrecognized_file_entry :: "('net, 'pe) ipnet \<Rightarrow> bool" where
  "rejects_unrecognized_file_entry N \<longleftrightarrow>
     (case whitelist_load N (temp_file (''bogus:value'' @ [LF]))
        (default_whitelist_config\<lparr>cfg_files := [''/tmp/file'']\<rparr>) of
        Inl (UnrecognizedEntry _ _ _) \<Rightarrow> True | _ \<Rightarrow> False)"

definition rejects_invalid_cidr_in_file :: "('net, 'pe) ipnet \<Rightarrow> bool" where
  "rejects_invalid_cidr_in_file N \<longleftrightarrow>
     (case whitelist_load N (temp_file (''ip:not-a-cidr'' @ [LF]))
        (default_whitelist_config\<lparr>cfg_files := [''/tmp/file'']\<rparr>) of
        Inl (InvalidCidr _ _ _ _) \<Rightarrow> True | _ \<Rightarrow> False)"

lemma whitelist_tests:
  "matches_whitelisted_ip prefix_ipnet" "does_not_match_unlisted_ip prefix_ipnet"
  "matches_helo_name_case_insensitively prefix_ipnet" "matches_domain_via_helo_suffix prefix_ipnet"
  "matches_domain_via_mail_from_domain prefix_ipnet"
  "domain_whitelist_does_not_match_lookalike_domain prefix_ipnet" "matches_ptr_domain_suffix prefix_ipnet"
  by code_simp+

lemma whitelist_file_tests:
  "loads_entries_from_file prefix_ipnet" "rejects_unrecognized_file_entry prefix_ipnet"
  "rejects_invalid_cidr_in_file prefix_ipnet"
  by code_simp+

section \<open>DNS overrides\<close>

text \<open>\<open>Name::new(name).unwrap()\<close>, then a lookup.\<close>

definition txt_of ::
  "'n name_ops \<Rightarrow> 'le lookup_errors \<Rightarrow> mock_lookup \<Rightarrow> (string \<times> string) list \<Rightarrow> string \<Rightarrow>
     ('le, string list) res option"
where
  "txt_of N E inn ovr name =
     map_option (lookup_txt (override_impl N (override_new (mock_impl N E inn) (map_of ovr)))) (name_new N name)"

definition override_present_replaces_txt_lookup :: "'n name_ops \<Rightarrow> 'le lookup_errors \<Rightarrow> bool" where
  "override_present_replaces_txt_lookup N E \<longleftrightarrow>
     txt_of N E (with_txt mock_new ''example.com'' [''v=spf1 -all'']) [(''example.com'', ''v=spf1 +all'')]
       ''example.com'' = Some (Ok [''v=spf1 +all''])"

definition override_absent_falls_through_to_inner :: "'n name_ops \<Rightarrow> 'le lookup_errors \<Rightarrow> bool" where
  "override_absent_falls_through_to_inner N E \<longleftrightarrow>
     txt_of N E (with_txt mock_new ''example.com'' [''v=spf1 -all'']) [(''other.com'', ''v=spf1 +all'')]
       ''example.com'' = Some (Ok [''v=spf1 -all''])"

definition override_matching_is_case_insensitive :: "'n name_ops \<Rightarrow> 'le lookup_errors \<Rightarrow> bool" where
  "override_matching_is_case_insensitive N E \<longleftrightarrow>
     txt_of N E mock_new [(''example.com'', ''v=spf1 +all'')] ''EXAMPLE.COM'' = Some (Ok [''v=spf1 +all''])"

definition non_txt_lookups_always_delegate_to_inner :: "'n name_ops \<Rightarrow> 'le lookup_errors \<Rightarrow> bool" where
  "non_txt_lookups_always_delegate_to_inner N E \<longleftrightarrow>
     map_option (lookup_a (override_impl N (override_new
         (mock_impl N E (with_a mock_new ''example.com'' [Ipv4Addr 192 0 2 1]))
         (map_of [(''example.com'', ''v=spf1 +all'')]))))
       (name_new N ''example.com'') = Some (Ok [Ipv4Addr 192 0 2 1])"

lemma override_tests:
  "override_present_replaces_txt_lookup sample_names sample_lookup_errors"
  "override_absent_falls_through_to_inner sample_names sample_lookup_errors"
  "override_matching_is_case_insensitive sample_names sample_lookup_errors"
  "non_txt_lookups_always_delegate_to_inner sample_names sample_lookup_errors"
  by code_simp+

section \<open>The server\<close>

text \<open>
  The tests connect to a running server, write one request and read the reply: in the model, a
  connection on which those bytes arrive. \<open>test_config\<close> is what the TOML text of the tests gives.
\<close>

definition test_config :: "socket_addr \<Rightarrow> 'net config" where
  "test_config addr = minimal_config \<lparr>listen = [Tcp addr], test_only = False\<rparr>"

definition served ::
  "('net, 'pe) ipnet \<Rightarrow> ('x, 'm, 'c, 's, 'd, ('n, 'le) lookup) viaspf \<Rightarrow> crypto \<Rightarrow> clock \<Rightarrow>
     'n name_ops \<Rightarrow> ('n, 'le) lookup \<Rightarrow> 'net config \<Rightarrow> string \<Rightarrow> string option"
where
  "served N V C clk NO resolver cfg bytes =
     (case app_state_new N NO no_files (Ok resolver :: (unit, _) res) cfg of
        Inl _ \<Rightarrow> None
      | Inr st \<Rightarrow>
          Some (fst (snd (handle_connection N V C (st_evaluator st)
            (conn_events (state_view st) clk (feed [] [bytes])) [] sample_syslog))))"

definition answers_dunno_for_a_basic_request ::
  "('net, 'pe) ipnet \<Rightarrow> ('x, 'm, 'c, 's, 'd, ('n, 'le) lookup) viaspf \<Rightarrow> crypto \<Rightarrow> clock \<Rightarrow>
     'n name_ops \<Rightarrow> ('n, 'le) lookup \<Rightarrow> bool"
where
  "answers_dunno_for_a_basic_request N V C clk NO resolver \<longleftrightarrow>
     served N V C clk NO resolver (test_config (SocketV4 (Ipv4Addr 127 0 0 1) 10045))
       (''request=smtpd_access_policy'' @ [LF] @ ''client_address=192.0.2.10'' @ [LF, LF]) =
     Some (''action=dunno'' @ [LF, LF])"

definition skip_addresses_bypasses_spf_check_entirely ::
  "('net, 'pe) ipnet \<Rightarrow> ('x, 'm, 'c, 's, 'd, ('n, 'le) lookup) viaspf \<Rightarrow> crypto \<Rightarrow> clock \<Rightarrow>
     'n name_ops \<Rightarrow> ('n, 'le) lookup \<Rightarrow> bool"
where
  "skip_addresses_bypasses_spf_check_entirely N V C clk NO resolver \<longleftrightarrow>
     (case set_of N [''192.0.2.0/24''] of
        None \<Rightarrow> False
      | Some nets \<Rightarrow>
          served N V C clk NO resolver
            ((test_config (SocketV4 (Ipv4Addr 127 0 0 1) 10045))\<lparr>skip_cfg := \<lparr>addresses = nets\<rparr>\<rparr>)
            (''request=smtpd_access_policy'' @ [LF] @ ''protocol_state=RCPT'' @ [LF] @
             ''helo_name=mail.example.com'' @ [LF] @ ''sender=user@example.com'' @ [LF] @
             ''client_address=192.0.2.10'' @ [LF, LF]) =
          Some (''action=dunno'' @ [LF, LF]))"

text \<open>A request in ASCII, answered without evaluation.\<close>

lemma served_dunno:
  assumes "ls \<noteq> []" and "list_all (\<lambda>l. line_ok l \<and> list_all is_ascii l) ls" and "from_lines ls = Ok req"
    and "app_state_new N NO no_files (Ok resolver :: (unit, _) res) cfg = Ok st"
    and "\<And>helo raw ip. \<not> evaluated N (state_view st) req helo raw ip"
  shows "served N V C clk NO resolver cfg (wire_block ls) = Some (to_wire Dunno)"
proof -
  have "map from_utf8_lossy ls = ls"
    using assms(2) by (auto simp: list_all_iff intro!: map_idI from_utf8_lossy_ascii)
  moreover have "drain [] = ([], None, [])" by (simp add: drain.simps decode_def)
  ultimately have "feed [] [wire_block ls] = ([req], None, [])"
    using assms(1-3) drain_wire_block [of ls req "[]"] by (simp add: list_all_iff)
  then show ?thesis
    using not_evaluated_dunno [OF assms(5), of V C clk] assms(4)
    by (simp add: served_def conn_events_def encode_def)
qed

lemma started:
  fixes N :: "('net, 'pe) ipnet"
  assumes "whitelist_cfg cfg = default_whitelist_config"
  shows "\<exists>st. app_state_new N sample_names no_files (Ok sample_dns :: (unit, _) res) cfg = Ok st \<and>
    st_config st = cfg"
  using assms by (simp add: app_state_new_def from_system_conf_def Let_def whitelist_load_def config_defaults)

lemma server_tests:
  "answers_dunno_for_a_basic_request prefix_ipnet sample_viaspf sample_crypto (Some 0) sample_names sample_dns"
  "skip_addresses_bypasses_spf_check_entirely prefix_ipnet sample_viaspf sample_crypto (Some 0) sample_names sample_dns"
proof -
  let ?addr = "SocketV4 (Ipv4Addr 127 0 0 1) 10045"
  let ?cfg = "test_config ?addr :: prefix_net config"
  let ?ls = "[''request=smtpd_access_policy'', ''client_address=192.0.2.10'']"
  let ?req = "default_request \<lparr>request := Some ''smtpd_access_policy'', client_address := Some ''192.0.2.10''\<rparr>"
  obtain st where st: "app_state_new prefix_ipnet sample_names no_files (Ok sample_dns :: (unit, _) res) ?cfg = Ok st"
    using started [of ?cfg prefix_ipnet] by (auto simp: test_config_def minimal_config_def)
  have "from_lines ?ls = Ok ?req"
    by (simp add: from_lines_def parse_line_def set_attribute_def default_request_def)
  moreover have "\<not> evaluated prefix_ipnet (state_view st) ?req helo raw ip" for helo raw ip
    by (simp add: evaluated_def default_request_def)
  moreover have "list_all (\<lambda>l. line_ok l \<and> list_all is_ascii l) ?ls" by code_simp
  ultimately have "served prefix_ipnet sample_viaspf sample_crypto (Some 0) sample_names sample_dns ?cfg
      (wire_block ?ls) = Some (to_wire Dunno)"
    using st by (intro served_dunno) simp_all
  then show "answers_dunno_for_a_basic_request prefix_ipnet sample_viaspf sample_crypto (Some 0) sample_names sample_dns"
    by (simp add: answers_dunno_for_a_basic_request_def wire_block_def to_wire_def)
next
  let ?net = "Prefix_Net (V4 (Ipv4Addr 192 0 2 0)) 24"
  let ?cfg = "(test_config (SocketV4 (Ipv4Addr 127 0 0 1) 10045))\<lparr>skip_cfg := \<lparr>addresses = cidr_new [?net]\<rparr>\<rparr>"
  let ?ls = "[''request=smtpd_access_policy'', ''protocol_state=RCPT'', ''helo_name=mail.example.com'',
     ''sender=user@example.com'', ''client_address=192.0.2.10'']"
  let ?req = "default_request
     \<lparr>request := Some ''smtpd_access_policy'', protocol_state := Some ''RCPT'',
      helo_name := Some ''mail.example.com'', sender := Some ''user@example.com'',
      client_address := Some ''192.0.2.10''\<rparr>"
  obtain st where st: "app_state_new prefix_ipnet sample_names no_files (Ok sample_dns :: (unit, _) res) ?cfg = Ok st"
    and cfg: "st_config st = ?cfg"
    using started [of ?cfg prefix_ipnet] by (auto simp: test_config_def minimal_config_def)
  have ip: "parse_ip_addr ''192.0.2.10'' = Some (V4 (Ipv4Addr 192 0 2 10))" by code_simp
  have within: "cidr_contains prefix_ipnet (cidr_new [?net]) (V4 (Ipv4Addr 192 0 2 10))" by code_simp
  have nets: "set_of prefix_ipnet [''192.0.2.0/24''] = Some (cidr_new [?net])" by code_simp
  have "from_lines ?ls = Ok ?req"
    by (simp add: from_lines_def parse_line_def set_attribute_def default_request_def)
  moreover have "\<not> evaluated prefix_ipnet (state_view st) ?req helo raw ip" for helo raw ip
    using ip within cfg
    by (auto simp: evaluated_def default_request_def client_ip_def state_view_def should_skip_def)
  moreover have "list_all (\<lambda>l. line_ok l \<and> list_all is_ascii l) ?ls" by code_simp
  ultimately have "served prefix_ipnet sample_viaspf sample_crypto (Some 0) sample_names sample_dns ?cfg
      (wire_block ?ls) = Some (to_wire Dunno)"
    using st by (intro served_dunno) simp_all
  then show "skip_addresses_bypasses_spf_check_entirely prefix_ipnet sample_viaspf sample_crypto (Some 0) sample_names sample_dns"
    by (simp add: skip_addresses_bypasses_spf_check_entirely_def nets wire_block_def to_wire_def)
qed

end
