(* ===== verification/Spec2Isabelle.thy ===== *)
theory Spec2Isabelle
  imports Proto_Properties Policy_Properties Config_Properties Decision_Properties Server_Properties
    Task_Properties Whole_Properties Config_Tests Policy_Tests Evaluator_Tests Srs_Tests Engine_Tests Server_Tests
begin

text \<open>
  A model of \<open>rspfd\<close>, a Postfix policy delegation daemon that checks SPF (RFC 7208), and what is
  proved of it. The program is the Rust workspace under \<open>src/\<close>: the library \<open>rspf\<close> and the binary
  \<open>rspfd\<close>. Postfix connects to the daemon, sends a block of attribute lines for each recipient and
  reads one line of reply; the daemon exempts the client, or checks the HELO and MAIL FROM
  identities and applies a policy to the two results. SIGHUP reloads the configuration.

  The theories, in the order in which they build on each other:

  \<^item> \<open>Prelude\<close>, \<open>Rust_Str\<close>, \<open>Rust_Utf8\<close>, \<open>Rust_Net\<close>, \<open>Rust_Net_V6\<close>: results as sums, machine integers, and the parts of
    the Rust standard library that the program uses: string splitting and replacement, UTF-8
    decoding with replacement, trimming, and the parser and printer of IP and socket addresses.
    A string is a list of bytes (\<open>char\<close>).
  \<^item> \<open>Cidr_Set\<close> (\<open>net/cidr_set.rs\<close>), \<open>Config_Model\<close> (\<open>config/model.rs\<close>, \<open>policy.rs\<close>), \<open>Config_Load\<close>
    (\<open>config/load.rs\<close>), \<open>Config_Serde\<close> (the derived deserialization of \<open>config/model.rs\<close> and
    \<open>policy.rs\<close>): address sets, the configuration with its defaults, its validation with a grammar of
    message templates, and the configuration that the tables of a file stand for.
  \<^item> \<open>Proto_Request\<close>, \<open>Proto_Response\<close>, \<open>Proto_Codec\<close> (\<open>proto/*.rs\<close>): requests, responses, framing.
  \<^item> \<open>Whitelist\<close> (\<open>whitelist/mod.rs\<close>), \<open>Srs\<close> (\<open>srs.rs\<close>): static exemptions, SRS0 unwrapping.
  \<^item> \<open>Spf_Lookup\<close>, \<open>Spf_Evaluator\<close>, \<open>Spf_Header\<close> (\<open>spf/*.rs\<close>): DNS lookups with overrides, the two
    identity checks, the \<open>Received-SPF\<close> header.
  \<^item> \<open>Engine\<close> (\<open>engine.rs\<close>), \<open>Mail_Log\<close> (\<open>mail_log.rs\<close>, \<open>logging.rs\<close>): the decision and its messages, the
    syslog line.
  \<^item> \<open>Server\<close> (\<open>server.rs\<close>), \<open>Daemon\<close> (\<open>rspfd/src/main.rs\<close>): the request handler, connections and
    listeners, start-up, and reloads interleaved with requests.
  \<^item> \<open>Error_Text\<close>: the texts of the error types of all modules, as their attributes derive them.
  \<^item> \<open>Shutdown\<close> (\<open>server.rs\<close>, \<open>rspfd/src/main.rs\<close>): the tasks of the listeners, the connections, the signal
    and \<open>main\<close> interleaved, up to the return of \<open>main\<close>.
  \<^item> \<open>Whole_Daemon\<close>: the system of \<open>Daemon\<close> and the tasks of \<open>Shutdown\<close> stepping together, with the signal
    handlers that could be installed; each run of it is a run of both.
  \<^item> \<open>Text_Valid\<close>: every string that the handler makes of a request is well-formed UTF-8.
  \<^item> \<open>Sample_Deployment\<close>: a concrete instance of every parameter, for the examples.
  \<^item> \<open>Proto_Properties\<close>, \<open>Policy_Properties\<close>, \<open>Config_Properties\<close>, \<open>Decision_Properties\<close>, \<open>Server_Properties\<close>,
    \<open>Task_Properties\<close>, \<open>Whole_Properties\<close> and this theory: the properties C1 to C40.
  \<^item> \<open>Proto_Tests\<close>, \<open>Config_Tests\<close>, \<open>Policy_Tests\<close>, \<open>Srs_Tests\<close>, \<open>Evaluator_Tests\<close>, \<open>Engine_Tests\<close>,
    \<open>Server_Tests\<close>: the unit tests of the repository, each a boolean over the model, evaluated. They show that the model answers as the
    authors of the code expect the code to. Those of \<open>spf/evaluator.rs\<close> are evaluated with a small evaluation
    of SPF records in the place of \<open>viaspf\<close>.

  How the code is modelled. Structs are records and enums datatypes, with the source's names
  (\<open>instance\<close>, \<open>ips\<close> and the like are renamed where HOL or another record has the name). A
  \<open>Result\<close> is a sum with the error on the left; a panic is \<open>None\<close>. \<open>u16\<close>, \<open>u32\<close> and \<open>u64\<close> are words.
  State is passed explicitly. The two \<open>ArcSwap\<close> cells may change between the loads of one request,
  so the handler works on a view, the values of its three loads; the step relation of \<open>Daemon\<close> has
  each load and each store as a step of its own. A loop that reads from outside is a recursion over
  the list of events it meets. No fuel is used: every loop of the program that does not wait for
  input is a terminating function (decoding shortens the buffer, scanning a template shortens it).

  Interfaces are locales, each interpreted on the model: \<open>ip_matcher\<close> (\<open>Cidr_Set\<close>), \<open>config_source\<close>
  (\<open>Config_Load\<close>), \<open>frame_decoder\<close> (\<open>Proto_Codec\<close>), \<open>override_layer\<close> (\<open>Spf_Lookup\<close>), \<open>spf_checker\<close>
  (\<open>Spf_Evaluator\<close>), \<open>template_renderer\<close> (\<open>Engine\<close>), \<open>responder\<close> (\<open>Server\<close>) and \<open>transition_system\<close>
  (\<open>Daemon\<close>, interpreted there, in \<open>Shutdown\<close> and in \<open>Whole_Daemon\<close>).

  Parameters stand for code outside the repository: the network type of the crate \<open>ipnet\<close>, SPF
  evaluation, domain names and the displays of \<open>viaspf\<close>, the resolver of \<open>hickory_resolver\<close>,
  HMAC-SHA1 and base64, the parser of TOML and its scalars, the file system, the sockets, the clock. Hypotheses
  about them are few: the displays print no line feed (\<open>display_single_line\<close>) and well-formed UTF-8
  (\<open>display_text\<close>), the truncated MAC has neither an equals nor an at sign, and, for the shutdown to end,
  a task whose turn it is gets it at some time (\<open>fair\<close>).

  What the lemmas show, by theory: \<open>Proto_Codec\<close> and \<open>Proto_Request\<close>, that framing does not depend on
  how a stream is cut, and that a request is the map of its last attribute values; \<open>Whitelist\<close>, that
  a loaded whitelist exempts what its sources name; \<open>Srs\<close>, when an address is accepted, and ages
  modulo 1024 days; \<open>Config_Load\<close> and \<open>Engine\<close>, that validated templates are rendered as their
  grammar says, and that the decision is the maximum of two severities; \<open>Mail_Log\<close>, that the log
  line is printable; \<open>Server\<close>, that a connection answers each request in order; \<open>Daemon\<close>, the
  invariant of the interleaving; \<open>Shutdown\<close>, that the responses of a connection stay in order,
  that the result of \<open>main\<close> is that of its listeners, and that a shutdown ends, by a measure of the
  turns that are left; \<open>Whole_Daemon\<close>, that what reaches a connection is what the shared cells allowed.

  Not modelled: the text of debug logging and of the errors of other crates; the parser of \<open>toml\<close> and the
  reading of its scalar values; command-line parsing by \<open>clap\<close>, whose result \<open>main\<close> takes; the text of the example
  configuration (its value is in \<open>Config_Tests\<close>); what the operating system does with a signal that has no handler; the fairness of the async runtime,
  its timers, the splitting of writes; the names and the partial output of a failed write. The two
  checks of \<open>tokio::join!\<close> do not interact, so their order does not matter.
\<close>

section \<open>Reloads and requests\<close>

text \<open>
  C2: However a SIGHUP reload and requests interleave, every answer was given at a coherent view
  of the published pairs of configuration and whitelist: its whitelist is not older than the
  configuration that the exemptions were read from, the configuration of the decision is not older
  than that one, and is at most one reload behind the whitelist. The answer is the handler's at
  that view, with the evaluator of the start-up, and every published pair is valid. And syslog has
  one line for each answer of an evaluated request, in the order of the answers and no other, each
  the line that the handler writes for that answer.
\<close>

theorem answers_coherent:
  assumes "app_state_new (de_ipnet E) NO fs system_resolver cfg = Ok st"
    and "config_load fs (de_from_toml E) (de_parse_record E) path = Ok cfg"
    and "reachable E (system_start st slog) w"
  shows "list_all (pair_ok (de_ipnet E) (de_parse_record E)) (sy_published w) \<and>
    list_all (\<lambda>a. case a of (vw, req, act) \<Rightarrow> view_ok (sy_published w) vw \<and>
      (\<exists>clk slog slog'. handle_request_at (de_ipnet E) (de_viaspf E) (de_crypto E) clk vw
         (st_evaluator st) req slog = Some (act, slog'))) (sy_answers w) \<and>
    (\<exists>ls. syslog_calls (sy_syslog w) = syslog_calls slog @ map Syslog_Mail_Info ls \<and>
      list_all2 (\<lambda>a line. case a of (vw, req, act) \<Rightarrow> \<exists>clk lg.
          handle_request_at (de_ipnet E) (de_viaspf E) (de_crypto E) clk vw (st_evaluator st) req lg =
            Some (act, lg\<lparr>syslog_calls := syslog_calls lg @ [Syslog_Mail_Info line]\<rparr>))
        (filter (\<lambda>a. case a of (vw, req, act) \<Rightarrow> \<exists>helo raw ip. evaluated (de_ipnet E) vw req helo raw ip)
          (sy_answers w)) ls)"
proof (intro conjI)
  have inv: "system_inv E (st_evaluator st) w" by (rule system_inv_reachable [OF assms])
  then show "list_all (pair_ok (de_ipnet E) (de_parse_record E)) (sy_published w)"
    by (simp add: system_inv_def cells_inv_def)
  show "list_all (\<lambda>a. case a of (vw, req, act) \<Rightarrow> view_ok (sy_published w) vw \<and>
      (\<exists>clk slog slog'. handle_request_at (de_ipnet E) (de_viaspf E) (de_crypto E) clk vw
         (st_evaluator st) req slog = Some (act, slog'))) (sy_answers w)"
    using inv by (auto simp: system_inv_def answers_inv_def list_all_iff)
qed (use log_inv_reachable [OF assms]
     in \<open>simp only: log_inv_def answer_line_def [abs_def] was_evaluated_def [abs_def]\<close>)

lemma answers_coherent_example:
  "\<exists>w vw act. reachable sample_env (system_start sample_state sample_syslog) w \<and>
     sy_answers w = [(vw, sample_request, act)] \<and> view_ok (sy_published w) vw"
proof -
  let ?w0 = "system_start sample_state sample_syslog"
  let ?w1 = "?w0\<lparr>sy_tasks := (sy_tasks ?w0)(0 \<mapsto> (sample_request, RQ_Start))\<rparr>"
  have s: "step sample_env ?w0 ?w1" by (rule step.arrive) (simp add: system_start_def)
  obtain w vw act where r: "reachable sample_env ?w1 w"
    and ans: "sy_answers w = sy_answers ?w1 @ [(vw, sample_request, act)]"
    using task_answered [of ?w1 0 sample_request RQ_Start sample_env] by auto
  have w: "reachable sample_env ?w0 w" using s r by (rule reachable_step)
  have start: "app_state_new (de_ipnet sample_env) sample_names (sample_files ''a'')
      (Ok sample_dns :: (string, _) res) sample_config = Ok sample_state"
    and load: "config_load (sample_files ''a'') (de_from_toml sample_env) (de_parse_record sample_env) [] =
      Ok sample_config"
    by (simp_all add: sample_env_def sample_start sample_load)
  have "view_ok (sy_published w) vw"
    using answers_coherent [OF start load w] ans by simp
  with w ans show ?thesis by (auto simp: system_start_def)
qed

text \<open>
  C3: At every moment the configuration in place is valid, the whitelist in place is in lower case
  and the evaluator is that of the start-up; and except between the two stores of a reload, the
  configuration and the whitelist in place are a pair that was loaded together. Between them, the
  configuration is the one before.
\<close>

theorem cells_consistent:
  assumes "app_state_new (de_ipnet E) NO fs system_resolver cfg = Ok st"
    and "config_load fs (de_from_toml E) (de_parse_record E) path = Ok cfg"
    and "reachable E (system_start st slog) w"
  shows "config_valid (de_parse_record E) (st_config (sy_state w)) \<and>
    normal (st_whitelist (sy_state w)) \<and> st_evaluator (sy_state w) = st_evaluator st \<and>
    (case sy_reload w of
       RL_Half new \<Rightarrow> new = fst (last (sy_published w)) \<and>
         st_config (sy_state w) = fst (last (butlast (sy_published w))) \<and>
         st_whitelist (sy_state w) = snd (last (sy_published w))
     | _ \<Rightarrow> (st_config (sy_state w), st_whitelist (sy_state w)) = last (sy_published w))"
proof -
  let ?P = "sy_published w"
  have inv: "cells_inv (de_ipnet E) (de_parse_record E) (st_evaluator st) w"
    using system_inv_reachable [OF assms] by (simp add: system_inv_def)
  then have ok: "pair_ok (de_ipnet E) (de_parse_record E) p" if "p \<in> set ?P" for p
    using that by (auto simp: cells_inv_def list_all_iff)
  have P: "?P \<noteq> []" and cfg: "st_config (sy_state w) = fst (?P ! config_now w)"
    and wl: "st_whitelist (sy_state w) = snd (last ?P)" and ev: "st_evaluator (sy_state w) = st_evaluator st"
    using inv by (simp_all add: cells_inv_def)
  have "config_valid (de_parse_record E) (st_config (sy_state w))"
    using ok [OF nth_mem [OF config_now_less [OF inv]]] cfg by (simp add: pair_ok_def)
  moreover have "normal (st_whitelist (sy_state w))"
    using ok [OF last_in_set [OF P]] wl by (simp add: pair_ok_def)
  moreover have "last (butlast ?P) = ?P ! (length ?P - 2)" if "2 \<le> length ?P"
  proof -
    have "butlast ?P \<noteq> []" using that by (cases ?P) auto
    then show ?thesis using that by (simp add: last_conv_nth nth_butlast numeral_2_eq_2)
  qed
  ultimately show ?thesis
    using inv P cfg wl ev
    by (auto simp: cells_inv_def config_now_def last_conv_nth prod_eq_iff split: reload_phase.splits)
qed

lemma cells_consistent_example:
  "config_valid sample_parse_record sample_config_b \<and>
   normal (whitelist_of_config (whitelist_cfg sample_config_b))"
proof -
  let ?w0 = "system_start sample_state sample_syslog"
  have start: "app_state_new (de_ipnet sample_env) sample_names (sample_files ''a'')
      (Ok sample_dns :: (string, _) res) sample_config = Ok sample_state"
    and load: "config_load (sample_files ''a'') (de_from_toml sample_env) (de_parse_record sample_env) [] =
      Ok sample_config"
    by (simp_all add: sample_env_def sample_start sample_load)
  have "reachable sample_env ?w0 (?w0\<lparr>sy_state := store_config sample_config_b
      (store_whitelist (whitelist_of_config (whitelist_cfg sample_config_b)) (sy_state ?w0)),
    sy_published := sy_published ?w0 @
      [(sample_config_b, whitelist_of_config (whitelist_cfg sample_config_b))]\<rparr>)"
    by (rule reload_steps [where fs = "sample_files ''b''"])
       (simp_all add: system_start_def sample_env_def sample_reload)
  from cells_consistent [OF start load this] show ?thesis
    by (simp add: sample_env_def store_config_def store_whitelist_def)
qed

text \<open>
  C38: A reload is not atomic for the requests under way: from the start-up state, a request can be
  answered at a view with the old configuration for the exemptions, the new whitelist beside it,
  and the new configuration for the decision.
\<close>

theorem mixed_view_reachable:
  assumes "reload_load (de_ipnet E) fs (de_from_toml E) (de_parse_record E) (de_path E) = Ok (cfg, wl)"
  shows "\<exists>w. reachable E (system_start st slog) w \<and>
    sy_tasks w 0 = Some (req, RQ_View
      \<lparr>skip_config_seen = st_config st, whitelist_seen = wl, config_seen = cfg\<rparr>)"
proof -
  let ?w0 = "system_start st slog"
  let ?w1 = "?w0\<lparr>sy_reload := RL_Loaded cfg wl\<rparr>"
  let ?w2 = "?w1\<lparr>sy_tasks := [0 \<mapsto> (req, RQ_Start)]\<rparr>"
  let ?w3 = "?w2\<lparr>sy_tasks := [0 \<mapsto> (req, RQ_Skip_Config (st_config st))]\<rparr>"
  let ?w4 = "?w3\<lparr>sy_state := store_whitelist wl st, sy_reload := RL_Half cfg,
    sy_published := [(st_config st, st_whitelist st), (cfg, wl)]\<rparr>"
  let ?w5 = "?w4\<lparr>sy_tasks := [0 \<mapsto> (req, RQ_Whitelist (st_config st) wl)]\<rparr>"
  let ?w6 = "?w5\<lparr>sy_state := store_config cfg (store_whitelist wl st), sy_reload := RL_Waiting\<rparr>"
  let ?w7 = "?w6\<lparr>sy_tasks := [0 \<mapsto> (req, RQ_View
      \<lparr>skip_config_seen = st_config st, whitelist_seen = wl, config_seen = cfg\<rparr>)]\<rparr>"
  have s1: "step E ?w0 ?w1" using step.sighup_loaded [OF _ assms, of ?w0] by (simp add: system_start_def)
  have s2: "step E ?w1 ?w2" using step.arrive [of ?w1 0 E req] by (simp add: system_start_def)
  have s3: "step E ?w2 ?w3" using step.skip_config_loaded [of ?w2 0 req E] by (simp add: system_start_def)
  have s4: "step E ?w3 ?w4" using step.whitelist_stored [of ?w3 cfg wl E] by (simp add: system_start_def)
  have s5: "step E ?w4 ?w5" using step.whitelist_loaded [of ?w4 0 req "st_config st" E]
    by (simp add: system_start_def store_whitelist_def)
  have s6: "step E ?w5 ?w6" using step.config_stored [of ?w5 cfg E] by (simp add: system_start_def)
  have s7: "step E ?w6 ?w7" using step.config_loaded [of ?w6 0 req "st_config st" wl E]
    by (simp add: system_start_def store_whitelist_def store_config_def)
  have "reachable E ?w0 ?w7"
    by (rule reachable_step [OF s1] reachable_step [OF s2] reachable_step [OF s3] reachable_step [OF s4]
        reachable_step [OF s5] reachable_step [OF s6] reachable_step [OF s7] reachable_refl)+
  then show ?thesis by (intro exI [of _ ?w7]) simp
qed

lemma mixed_view_reachable_example:
  "\<exists>w. reachable sample_env (system_start sample_state sample_syslog) w \<and>
    sy_tasks w 0 = Some (sample_request, RQ_View
      \<lparr>skip_config_seen = st_config sample_state,
       whitelist_seen = whitelist_of_config (whitelist_cfg sample_config_b), config_seen = sample_config_b\<rparr>)"
  by (rule mixed_view_reachable [where fs = "sample_files ''b''"]) (simp add: sample_env_def sample_reload)

text \<open>
  C16: A reload takes effect completely or not at all: where the configuration or its whitelist
  cannot be loaded, the state stays as it is; otherwise both cells are replaced by the loaded pair,
  a valid configuration and its whitelist, and the evaluator is never replaced. The stores of the
  reload task, when it is not disturbed, come to exactly this.
\<close>

theorem reload_outcome:
  assumes "sy_reload w = RL_Waiting"
  shows "case reload_load (de_ipnet E) fs (de_from_toml E) (de_parse_record E) (de_path E) of
      Inl e \<Rightarrow> reload (de_ipnet E) fs (de_from_toml E) (de_parse_record E) (de_path E) (sy_state w) = sy_state w
    | Inr (cfg, wl) \<Rightarrow>
        pair_ok (de_ipnet E) (de_parse_record E) (cfg, wl) \<and>
        reload (de_ipnet E) fs (de_from_toml E) (de_parse_record E) (de_path E) (sy_state w) =
          \<lparr>st_config = cfg, st_whitelist = wl, st_evaluator = st_evaluator (sy_state w)\<rparr> \<and>
        reachable E w (w\<lparr>sy_state := reload (de_ipnet E) fs (de_from_toml E) (de_parse_record E) (de_path E) (sy_state w),
          sy_published := sy_published w @ [(cfg, wl)]\<rparr>)"
proof (cases "reload_load (de_ipnet E) fs (de_from_toml E) (de_parse_record E) (de_path E)")
  case (Inl e)
  then show ?thesis by (simp add: reload_def)
next
  case (Inr p)
  then obtain cfg wl where load:
    "reload_load (de_ipnet E) fs (de_from_toml E) (de_parse_record E) (de_path E) = Ok (cfg, wl)"
    by (cases p) simp
  then show ?thesis
    using reload_load_ok [OF load] reload_steps [OF assms load]
    by (simp add: reload_def store_config_def store_whitelist_def)
qed

lemma reload_outcome_example:
  "reload sample_ipnet (sample_files ''b'') sample_from_toml sample_parse_record ''/etc/rspf/rspf.toml'' sample_state =
     \<lparr>st_config = sample_config_b, st_whitelist = whitelist_of_config (whitelist_cfg sample_config_b),
      st_evaluator = st_evaluator sample_state\<rparr>"
  using reload_outcome [of "system_start sample_state sample_syslog" sample_env "sample_files ''b''"]
  by (simp add: sample_env_def sample_reload system_start_def)

section \<open>The binary\<close>

text \<open>
  C25: \<open>rspfd\<close> serves only with a valid configuration whose whitelist files all loaded, with syslog
  opened and the log filter of that configuration; checking a configuration or printing the
  example never starts anything, and a check succeeds exactly where the file loads and is valid.
\<close>

theorem main_outcome:
  "if arg_dump_example_config args
   then mr_stdout (main E args) = me_example_toml E \<and> mr_result (main E args) = Some (Ok ())
   else if arg_check_config args
   then mr_filter (main E args) = None \<and> \<not> init_done (mr_syslog (main E args)) \<and>
     (mr_result (main E args) = Some (Ok ()) \<longleftrightarrow>
        (\<exists>cfg. config_load (me_files E) (me_from_toml E) (me_parse_record E) (arg_config args) = Ok cfg \<and>
               config_valid (me_parse_record E) cfg))
   else (mr_result (main E args) = None \<longleftrightarrow>
     (\<exists>cfg st. config_load (me_files E) (me_from_toml E) (me_parse_record E) (arg_config args) = Ok cfg \<and>
        app_state_new (me_ipnet E) (me_names E) (me_files E) (me_resolver E) cfg = Ok st \<and>
        pair_ok (me_ipnet E) (me_parse_record E) (st_config st, st_whitelist st) \<and>
        run (me_sockets E) (st_config st) (me_events E) (me_socket_state E) = None \<and>
        init_done (mr_syslog (main E args)) \<and>
        mr_filter (main E args) = Some (filter_for (me_levels E) (level (log_cfg cfg)))))"
proof (cases "config_load (me_files E) (me_from_toml E) (me_parse_record E) (arg_config args)")
  case (Inl e)
  then show ?thesis by (simp add: main_def load_config_def Let_def)
next
  case (Inr cfg)
  then have valid: "config_valid (me_parse_record E) cfg" by (rule file_config.load_valid)
  show ?thesis
  proof (cases "app_state_new (me_ipnet E) (me_names E) (me_files E) (me_resolver E) cfg")
    case (Inl e)
    with Inr valid show ?thesis by (simp add: main_def load_config_def Let_def)
  next
    case st: (Inr st)
    with Inr valid show ?thesis
      using app_state_new_pair [OF st valid]
      by (simp add: main_def load_config_def Let_def mail_log_init_def logging_init_def)
  qed
qed

section \<open>What validation does not check\<close>


end
